theory Spec2Isabelle
  imports Complex_Main
begin

section \<open>Constants\<close>

text \<open>
  The simulation of \<^verbatim>\<open>src/fs2d.js\<close>. JavaScript numbers are modelled by exact
  numbers: coordinates, velocities, fuel and money are \<open>real\<close>; tile indices,
  inventory counts, crop stages and millisecond time stamps are \<open>int\<close>.
  \<^verbatim>\<open>Math.floor\<close> is \<open>floor\<close>, \<^verbatim>\<open>Math.round\<close> is \<open>\<lambda>v. \<lfloor>v + 1/2\<rfloor>\<close>.
  Rounding errors of IEEE doubles are outside the model.
\<close>

definition TILE_SIZE :: real where
  "TILE_SIZE = 20"

definition GRAVITY :: real where
  "GRAVITY = 0.5"

definition WORLD_WIDTH_TILES :: int where
  "WORLD_WIDTH_TILES = 150"

definition WORLD_HEIGHT_TILES :: int where
  "WORLD_HEIGHT_TILES = 30"

definition WORLD_WIDTH_PIXELS :: real where
  "WORLD_WIDTH_PIXELS = of_int WORLD_WIDTH_TILES * TILE_SIZE"

definition WORLD_HEIGHT_PIXELS :: real where
  "WORLD_HEIGHT_PIXELS = of_int WORLD_HEIGHT_TILES * TILE_SIZE"

definition GROWTH_TIME_PER_STAGE :: int where
  "GROWTH_TIME_PER_STAGE = 5000"

datatype tile_type = SKY | GRASS | DIRT | TILLED | CROP_PLANTED | CROP_GROWN

datatype crop_type = WHEAT | CORN | POTATO

text \<open>\<^verbatim>\<open>CROP_STAGE\<close> is a table of numbers; the growth engine adds one to a stage.\<close>

definition SEED :: int where
  "SEED = 0"

definition YOUNG :: int where
  "YOUNG = 1"

definition MATURE :: int where
  "MATURE = 2"

section \<open>Data model\<close>

record crop =
  type :: crop_type
  stage :: int
  plantedTime :: int

record tile =
  type :: tile_type
  crop :: "crop option"

type_synonym world = "tile list list"

text \<open>Every physical entity carries these fields; the other fields of the
  JavaScript object are the extension part of the record.\<close>

record entity =
  x :: real
  y :: real
  width :: real
  height :: real
  vx :: real
  vy :: real
  onGround :: bool

datatype facing_dir = FacingLeft | FacingRight

record actor = entity +
  speed :: real
  jumpPower :: real
  isInVehicle :: bool
  facing :: facing_dir

text \<open>The six fixed keys of \<^verbatim>\<open>player.inventory\<close>.\<close>

datatype resource = wheatSeeds | cornSeeds | potatoSeeds | wheat | corn | potato

record player = actor +
  inventory :: "resource \<Rightarrow> int"
  money :: real
  maxStorage :: int
  siloBuilt :: bool

record attachment = entity +
  isHitched :: bool
  type :: string

record vehicle = actor +
  equipment :: "attachment option"
  isHitched :: bool
  type :: string
  fuel :: real
  maxFuel :: real
  fuelConsumption :: real
  upgradeLevel :: int

text \<open>A status event \<^verbatim>\<open>showStatus(message, duration)\<close>.\<close>

type_synonym status = "string \<times> int"

text \<open>The pressed keys: \<^verbatim>\<open>keys[k]\<close> read as a truth value.\<close>

type_synonym keys = "string \<Rightarrow> bool"

text \<open>The initial tractor of \<^verbatim>\<open>GameProvider\<close>.\<close>

definition initial_tractor :: vehicle where
  "initial_tractor =
     \<lparr>x = WORLD_WIDTH_PIXELS / 4 + 100, y = TILE_SIZE * 14,
      width = TILE_SIZE * 4, height = TILE_SIZE * 2.5,
      vx = 0, vy = 0, onGround = False,
      speed = 2.5, jumpPower = 10, isInVehicle = False, facing = FacingRight,
      equipment = None, isHitched = False, type = ''tractor'',
      fuel = 100, maxFuel = 100, fuelConsumption = 0.05, upgradeLevel = 0\<rparr>"

section \<open>Vehicle movement\<close>

definition isMovingKey :: "keys \<Rightarrow> bool" where
  "isMovingKey keys = (keys ''a'' \<or> keys ''arrowleft'' \<or> keys ''d'' \<or> keys ''arrowright'')"

definition handleTractorMovement :: "keys \<Rightarrow> vehicle \<Rightarrow> vehicle \<times> status list" where
  "handleTractorMovement keys prevTractor =
     (if \<not> isInVehicle prevTractor then (prevTractor\<lparr>vx := 0\<rparr>, [])
      else if fuel prevTractor \<le> 0 \<and> isMovingKey keys
        then (prevTractor\<lparr>vx := 0\<rparr>, [(''Tractor out of fuel!'', 1000)])
      else if keys ''a'' \<or> keys ''arrowleft''
        then (prevTractor\<lparr>vx := - speed prevTractor,
                fuel := max 0 (fuel prevTractor - fuelConsumption prevTractor),
                facing := FacingLeft\<rparr>, [])
      else if keys ''d'' \<or> keys ''arrowright''
        then (prevTractor\<lparr>vx := speed prevTractor,
                fuel := max 0 (fuel prevTractor - fuelConsumption prevTractor),
                facing := FacingRight\<rparr>, [])
      else (prevTractor\<lparr>vx := 0\<rparr>, []))"

section \<open>World grid access\<close>

datatype js_error = TypeError

text \<open>
  \<^verbatim>\<open>world[ty][tx]\<close> followed by a property read of the tile. A row index outside
  the array gives \<^verbatim>\<open>undefined\<close>, and indexing or reading a property of
  \<^verbatim>\<open>undefined\<close> throws a \<^verbatim>\<open>TypeError\<close>.
\<close>

definition getTile :: "world \<Rightarrow> int \<Rightarrow> int \<Rightarrow> js_error + tile" where
  "getTile world ty tx =
     (if 0 \<le> ty \<and> ty < int (length world)
      then (if 0 \<le> tx \<and> tx < int (length (world ! nat ty))
            then Inr (world ! nat ty ! nat tx)
            else Inl TypeError)
      else Inl TypeError)"

section \<open>Physics and collision\<close>

text \<open>The body of the two nested loops of \<^verbatim>\<open>updateEntityPosition\<close> for the cell
  \<open>(tx, ty)\<close>; \<open>wwt\<close> is the parameter \<^verbatim>\<open>WORLD_WIDTH_TILES\<close> of the function.\<close>

definition collideTile ::
  "world \<Rightarrow> int \<Rightarrow> int \<Rightarrow> int \<Rightarrow> 'a entity_scheme \<Rightarrow> js_error + 'a entity_scheme" where
  "collideTile world wwt ty tx newEntity =
     (if tx \<ge> 0 \<and> tx < wwt \<and> ty \<ge> 0 \<and> ty < int (length world) then
        (case getTile world ty tx of
           Inl err \<Rightarrow> Inl err
         | Inr tile \<Rightarrow>
             if tile.type tile \<noteq> SKY then
               (let tileTop = of_int ty * TILE_SIZE;
                    tileBottom = tileTop + TILE_SIZE;
                    tileLeft = of_int tx * TILE_SIZE;
                    tileRight = tileLeft + TILE_SIZE
                in if x newEntity < tileRight \<and> x newEntity + width newEntity > tileLeft \<and>
                      y newEntity < tileBottom \<and> y newEntity + height newEntity > tileTop
                   then
                     if vy newEntity > 0 \<and> y newEntity + height newEntity \<le> tileBottom \<and>
                        y newEntity + height newEntity \<ge> tileTop
                     then Inr (newEntity\<lparr>y := tileTop - height newEntity, vy := 0, onGround := True\<rparr>)
                     else if vy newEntity < 0
                     then Inr (newEntity\<lparr>y := tileBottom, vy := 0\<rparr>)
                     else if vx newEntity > 0
                     then Inr (newEntity\<lparr>x := tileLeft - width newEntity, vx := 0\<rparr>)
                     else if vx newEntity < 0
                     then Inr (newEntity\<lparr>x := tileRight, vx := 0\<rparr>)
                     else Inr newEntity
                   else Inr newEntity)
             else Inr newEntity)
      else Inr newEntity)"

text \<open>The inner loop \<^verbatim>\<open>for (let x = leftTile; x <= rightTile; x++)\<close>, from column \<open>tx\<close> on.\<close>

function scanColumns ::
  "world \<Rightarrow> int \<Rightarrow> int \<Rightarrow> int \<Rightarrow> int \<Rightarrow> 'a entity_scheme \<Rightarrow> js_error + 'a entity_scheme" where
  "scanColumns world wwt rightTile ty tx newEntity =
     (if tx \<le> rightTile then
        (case collideTile world wwt ty tx newEntity of
           Inl err \<Rightarrow> Inl err
         | Inr e' \<Rightarrow> scanColumns world wwt rightTile ty (tx + 1) e')
      else Inr newEntity)"
  by pat_completeness auto
termination
  by (relation "measure (\<lambda>(world, wwt, rightTile, ty, tx, newEntity). nat (rightTile + 1 - tx))") auto

text \<open>The outer loop \<^verbatim>\<open>for (let y = topTile; y <= bottomTile; y++)\<close>, from row \<open>ty\<close> on.\<close>

function scanRows ::
  "world \<Rightarrow> int \<Rightarrow> int \<Rightarrow> int \<Rightarrow> int \<Rightarrow> int \<Rightarrow> 'a entity_scheme \<Rightarrow> js_error + 'a entity_scheme" where
  "scanRows world wwt leftTile rightTile bottomTile ty newEntity =
     (if ty \<le> bottomTile then
        (case scanColumns world wwt rightTile ty leftTile newEntity of
           Inl err \<Rightarrow> Inl err
         | Inr e' \<Rightarrow> scanRows world wwt leftTile rightTile bottomTile (ty + 1) e')
      else Inr newEntity)"
  by pat_completeness auto
termination
  by (relation "measure (\<lambda>(world, wwt, leftTile, rightTile, bottomTile, ty, newEntity).
        nat (bottomTile + 1 - ty))") auto

declare scanColumns.simps [simp del] scanRows.simps [simp del]

text \<open>The statements of \<^verbatim>\<open>updateEntityPosition\<close> before the loops.\<close>

definition integrate :: "'a entity_scheme \<Rightarrow> 'a entity_scheme" where
  "integrate entity =
     (let e1 = entity\<lparr>vy := vy entity + GRAVITY\<rparr>;
          e2 = e1\<lparr>y := y e1 + vy e1\<rparr>;
          e3 = e2\<lparr>x := x e2 + vx e2\<rparr>;
          e4 = e3\<lparr>onGround := False\<rparr>;
          e5 = (if x e4 < 0 then e4\<lparr>x := 0\<rparr> else e4)
      in if x e5 + width e5 > WORLD_WIDTH_PIXELS
         then e5\<lparr>x := WORLD_WIDTH_PIXELS - width e5\<rparr> else e5)"

definition updateEntityPosition ::
  "'a entity_scheme \<Rightarrow> world \<Rightarrow> int \<Rightarrow> js_error + 'a entity_scheme" where
  "updateEntityPosition entity world wwt =
     (let newEntity = integrate entity;
          leftTile = \<lfloor>x newEntity / TILE_SIZE\<rfloor>;
          rightTile = \<lfloor>(x newEntity + width newEntity - 1) / TILE_SIZE\<rfloor>;
          topTile = \<lfloor>y newEntity / TILE_SIZE\<rfloor>;
          bottomTile = \<lfloor>(y newEntity + height newEntity - 1) / TILE_SIZE\<rfloor>
      in scanRows world wwt leftTile rightTile bottomTile topTile newEntity)"

subsection \<open>The physics tick as a sequence of tile resolutions\<close>

text \<open>The box of the entity and the box of the tile \<open>(tx, ty)\<close> intersect.\<close>

definition overlaps :: "'a entity_scheme \<Rightarrow> int \<Rightarrow> int \<Rightarrow> bool" where
  "overlaps e ty tx =
     (x e < of_int tx * TILE_SIZE + TILE_SIZE \<and> of_int tx * TILE_SIZE < x e + width e \<and>
      y e < of_int ty * TILE_SIZE + TILE_SIZE \<and> of_int ty * TILE_SIZE < y e + height e)"

text \<open>The precedence of the resolution against the tile \<open>(tx, ty)\<close>: land on its top,
  else bump the head below it, else stop at its left edge, else stop at its right edge.\<close>

definition resolve :: "'a entity_scheme \<Rightarrow> int \<Rightarrow> int \<Rightarrow> 'a entity_scheme" where
  "resolve e ty tx =
     (if 0 < vy e \<and> of_int ty * TILE_SIZE \<le> y e + height e \<and>
         y e + height e \<le> of_int ty * TILE_SIZE + TILE_SIZE
      then e\<lparr>y := of_int ty * TILE_SIZE - height e, vy := 0, onGround := True\<rparr>
      else if vy e < 0 then e\<lparr>y := of_int ty * TILE_SIZE + TILE_SIZE, vy := 0\<rparr>
      else if 0 < vx e then e\<lparr>x := of_int tx * TILE_SIZE - width e, vx := 0\<rparr>
      else if vx e < 0 then e\<lparr>x := of_int tx * TILE_SIZE + TILE_SIZE, vx := 0\<rparr>
      else e)"

text \<open>The grid has a tile other than sky at \<open>(tx, ty)\<close>.\<close>

definition solidAt :: "world \<Rightarrow> int \<Rightarrow> int \<Rightarrow> int \<Rightarrow> bool" where
  "solidAt world wwt ty tx =
     (0 \<le> ty \<and> ty < int (length world) \<and> 0 \<le> tx \<and> tx < wwt \<and>
      tile.type (world ! nat ty ! nat tx) \<noteq> SKY)"

definition resolveCell ::
  "world \<Rightarrow> int \<Rightarrow> 'a entity_scheme \<Rightarrow> int \<times> int \<Rightarrow> 'a entity_scheme" where
  "resolveCell world wwt e c =
     (if solidAt world wwt (fst c) (snd c) \<and> overlaps e (fst c) (snd c)
      then resolve e (fst c) (snd c) else e)"

text \<open>Gravity into \<open>vy\<close>, \<open>vy\<close> into \<open>y\<close>, \<open>vx\<close> into \<open>x\<close>, the clamp of \<open>x\<close> into
  \<open>[0, WORLD_WIDTH_PIXELS - width]\<close>, and the reset of \<open>onGround\<close>.\<close>

definition moved :: "'a entity_scheme \<Rightarrow> 'a entity_scheme" where
  "moved e = e\<lparr>vy := vy e + GRAVITY, y := y e + (vy e + GRAVITY),
               x := min (WORLD_WIDTH_PIXELS - width e) (max 0 (x e + vx e)),
               onGround := False\<rparr>"

text \<open>The cells of a rectangle of tile indices, top to bottom and left to right in each row.\<close>

definition cells :: "int \<Rightarrow> int \<Rightarrow> int \<Rightarrow> int \<Rightarrow> (int \<times> int) list" where
  "cells topTile bottomTile leftTile rightTile =
     concat (map (\<lambda>ty. map (\<lambda>tx. (ty, tx)) [leftTile..rightTile]) [topTile..bottomTile])"

text \<open>The tick as the specification words it: after the move, every tile of the grid that
  is not sky and overlaps the entity is resolved, in scan order.\<close>

definition claimed_updateEntityPosition ::
  "'a entity_scheme \<Rightarrow> world \<Rightarrow> int \<Rightarrow> 'a entity_scheme" where
  "claimed_updateEntityPosition e world wwt =
     foldl (resolveCell world wwt) (moved e) (cells 0 (int (length world) - 1) 0 (wwt - 1))"

text \<open>The tick over the rectangle of tile indices that the code computes once after the
  move, from \<open>x\<close>, \<open>x + width - 1\<close>, \<open>y\<close> and \<open>y + height - 1\<close>.\<close>

definition scanned_updateEntityPosition ::
  "'a entity_scheme \<Rightarrow> world \<Rightarrow> int \<Rightarrow> 'a entity_scheme" where
  "scanned_updateEntityPosition e world wwt =
     foldl (resolveCell world wwt) (moved e)
       (cells \<lfloor>y (moved e) / TILE_SIZE\<rfloor> \<lfloor>(y (moved e) + height e - 1) / TILE_SIZE\<rfloor>
              \<lfloor>x (moved e) / TILE_SIZE\<rfloor> \<lfloor>(x (moved e) + width e - 1) / TILE_SIZE\<rfloor>)"

text \<open>A box of ten by ten pixels at rest above a grid of one sky tile over one grass tile.\<close>

definition falling_box :: entity where
  "falling_box = \<lparr>x = 0, y = 10, width = 10, height = 10, vx = 0, vy = 0, onGround = False\<rparr>"

definition ledge :: world where
  "ledge = [[\<lparr>tile.type = SKY, crop = None\<rparr>], [\<lparr>tile.type = GRASS, crop = None\<rparr>]]"

section \<open>World generation\<close>

text \<open>\<^verbatim>\<open>Math.floor(WORLD_HEIGHT_TILES * 0.75)\<close>.\<close>

definition groundStartRow :: int where
  "groundStartRow = \<lfloor>of_int WORLD_HEIGHT_TILES * (0.75 :: real)\<rfloor>"

text \<open>The tile that \<^verbatim>\<open>generateWorld\<close> pushes in row \<open>ty\<close>.\<close>

definition generateTile :: "int \<Rightarrow> tile" where
  "generateTile ty =
     (if ty \<ge> groundStartRow \<and> ty < groundStartRow + 3 then \<lparr>tile.type = GRASS, crop = None\<rparr>
      else if ty \<ge> groundStartRow + 3 then \<lparr>tile.type = DIRT, crop = None\<rparr>
      else \<lparr>tile.type = SKY, crop = None\<rparr>)"

definition generateWorld :: world where
  "generateWorld =
     map (\<lambda>ty. map (\<lambda>tx. generateTile ty) [0..WORLD_WIDTH_TILES - 1]) [0..WORLD_HEIGHT_TILES - 1]"

section \<open>Strings of the status messages\<close>

definition toUpperCase :: "char \<Rightarrow> char" where
  "toUpperCase c =
     (if 97 \<le> (of_char c :: nat) \<and> (of_char c :: nat) \<le> 122
      then char_of ((of_char c :: nat) - 32) else c)"

text \<open>\<^verbatim>\<open>s.charAt(0).toUpperCase() + s.slice(1)\<close>.\<close>

definition capitalize :: "string \<Rightarrow> string" where
  "capitalize s = (case s of [] \<Rightarrow> [] | c # cs \<Rightarrow> toUpperCase c # cs)"

text \<open>The values of the table \<^verbatim>\<open>CROP_TYPE\<close>.\<close>

definition cropName :: "crop_type \<Rightarrow> string" where
  "cropName k = (case k of WHEAT \<Rightarrow> ''wheat'' | CORN \<Rightarrow> ''corn'' | POTATO \<Rightarrow> ''potato'')"

text \<open>The inventory key \<^verbatim>\<open>inventory[cropType]\<close> of a harvested crop.\<close>

definition cropKey :: "crop_type \<Rightarrow> resource" where
  "cropKey k = (case k of WHEAT \<Rightarrow> wheat | CORN \<Rightarrow> corn | POTATO \<Rightarrow> potato)"

text \<open>The inventory key of the seeds of the selected crop.\<close>

definition seedInventoryKey :: "crop_type \<Rightarrow> resource" where
  "seedInventoryKey k =
     (case k of WHEAT \<Rightarrow> wheatSeeds | CORN \<Rightarrow> cornSeeds | POTATO \<Rightarrow> potatoSeeds)"

section \<open>Manual field work\<close>

text \<open>\<^verbatim>\<open>xs.map((v, i) => f(v, i))\<close>, the index first.\<close>

definition mapIndexed :: "(int \<Rightarrow> 'a \<Rightarrow> 'b) \<Rightarrow> 'a list \<Rightarrow> 'b list" where
  "mapIndexed f xs = map (\<lambda>i. f (int i) (xs ! i)) [0..<length xs]"

text \<open>\<^verbatim>\<open>world.map((row, y) => row.map((tile, x) => f(x, y, tile)))\<close>.\<close>

definition mapWorld :: "(int \<Rightarrow> int \<Rightarrow> tile \<Rightarrow> 'b) \<Rightarrow> world \<Rightarrow> 'b list list" where
  "mapWorld f world = mapIndexed (\<lambda>ty row. mapIndexed (\<lambda>tx t. f ty tx t) row) world"

text \<open>The tile under the feet of the player.\<close>

definition playerTileX :: "player \<Rightarrow> int" where
  "playerTileX prevPlayer = \<lfloor>(x prevPlayer + width prevPlayer / 2) / TILE_SIZE\<rfloor>"

definition playerTileY :: "player \<Rightarrow> int" where
  "playerTileY prevPlayer = \<lfloor>(y prevPlayer + height prevPlayer) / TILE_SIZE\<rfloor>"

text \<open>The results are the new player, the new world and the status events, in the order
  of their emission. The particles, which are only drawn, are left out.\<close>

definition tillable :: "int \<Rightarrow> int \<Rightarrow> int \<Rightarrow> int \<Rightarrow> tile \<Rightarrow> bool" where
  "tillable tileX tileY ty tx t =
     (tx = tileX \<and> ty = tileY \<and> (tile.type t = GRASS \<or> tile.type t = DIRT))"

definition handleTillSoil :: "player \<Rightarrow> world \<Rightarrow> player \<times> world \<times> status list" where
  "handleTillSoil prevPlayer world =
     (if isInVehicle prevPlayer then (prevPlayer, world, [])
      else if length world = 0 then (prevPlayer, world, [])
      else
        (let tileX = playerTileX prevPlayer; tileY = playerTileY prevPlayer
         in if tileY < WORLD_HEIGHT_TILES \<and> tileX < WORLD_WIDTH_TILES
            then (prevPlayer,
                  mapWorld (\<lambda>ty tx t. if tillable tileX tileY ty tx t
                                       then t\<lparr>tile.type := TILLED\<rparr> else t) world,
                  concat (concat (mapWorld (\<lambda>ty tx t. if tillable tileX tileY ty tx t
                                       then [(''Tilled soil'', 1000)] else []) world)))
            else (prevPlayer, world, [])))"

text \<open>In \<^verbatim>\<open>handlePlantCrop\<close> and \<^verbatim>\<open>handleHarvestCrop\<close> the tile \<open>(tileX, tileY)\<close> has
  been read before the map runs, so the callback of the map meets it once and emits its
  status once.\<close>

definition handlePlantCrop ::
  "player \<Rightarrow> world \<Rightarrow> crop_type \<Rightarrow> int \<Rightarrow> js_error + player \<times> world \<times> status list" where
  "handlePlantCrop prevPlayer world selectedCropType now =
     (if isInVehicle prevPlayer then Inr (prevPlayer, world, [])
      else if length world = 0 then Inr (prevPlayer, world, [])
      else
        (let tileX = playerTileX prevPlayer; tileY = playerTileY prevPlayer
         in if tileY < WORLD_HEIGHT_TILES \<and> tileX < WORLD_WIDTH_TILES
            then (case getTile world tileY tileX of
                    Inl err \<Rightarrow> Inl err
                  | Inr t \<Rightarrow>
                      if tile.type t = TILLED \<and> tile.crop t = None then
                        (if inventory prevPlayer (seedInventoryKey selectedCropType) > 0
                         then Inr (prevPlayer\<lparr>inventory := (inventory prevPlayer)
                                      (seedInventoryKey selectedCropType :=
                                         inventory prevPlayer (seedInventoryKey selectedCropType) - 1)\<rparr>,
                                   mapWorld (\<lambda>ty tx t'. if tx = tileX \<and> ty = tileY
                                      then t'\<lparr>tile.type := CROP_PLANTED,
                                              crop := Some \<lparr>crop.type = selectedCropType,
                                                stage = SEED, plantedTime = now\<rparr>\<rparr>
                                      else t') world,
                                   [(capitalize (cropName selectedCropType) @ '' planted!'', 1500)])
                         else Inr (prevPlayer, world,
                                   [(''No '' @ cropName selectedCropType @ '' seeds!'', 1000)]))
                      else if tile.crop t \<noteq> None
                      then Inr (prevPlayer, world, [(''Already something here!'', 1000)])
                      else Inr (prevPlayer, world, [(''Needs tilled soil!'', 1000)]))
            else Inr (prevPlayer, world, [])))"

definition handleHarvestCrop ::
  "player \<Rightarrow> world \<Rightarrow> js_error + player \<times> world \<times> status list" where
  "handleHarvestCrop prevPlayer world =
     (if isInVehicle prevPlayer then Inr (prevPlayer, world, [])
      else if length world = 0 then Inr (prevPlayer, world, [])
      else
        (let tileX = playerTileX prevPlayer; tileY = playerTileY prevPlayer
         in if tileY < WORLD_HEIGHT_TILES \<and> tileX < WORLD_WIDTH_TILES
            then (case getTile world tileY tileX of
                    Inl err \<Rightarrow> Inl err
                  | Inr t \<Rightarrow>
                      (case tile.crop t of
                         Some c \<Rightarrow>
                           if tile.type t = CROP_GROWN \<and> stage c = MATURE then
                             (if inventory prevPlayer (cropKey (crop.type c)) < maxStorage prevPlayer
                              then Inr (prevPlayer\<lparr>inventory := (inventory prevPlayer)
                                           (cropKey (crop.type c) :=
                                              inventory prevPlayer (cropKey (crop.type c)) + 1)\<rparr>,
                                        mapWorld (\<lambda>ty tx t'. if tx = tileX \<and> ty = tileY
                                           then t'\<lparr>tile.type := TILLED, crop := None\<rparr>
                                           else t') world,
                                        [(''Harvested '' @ capitalize (cropName (crop.type c)) @ ''!'',
                                          1500)])
                              else Inr (prevPlayer, world,
                                        [(''Storage full! Sell crops to make space.'', 1500)]))
                           else if stage c \<noteq> MATURE
                           then Inr (prevPlayer, world, [(''Crop not mature yet!'', 1000)])
                           else Inr (prevPlayer, world, [(''Nothing to harvest here!'', 1000)])
                       | None \<Rightarrow> Inr (prevPlayer, world, [(''Nothing to harvest here!'', 1000)])))
            else Inr (prevPlayer, world, [])))"

section \<open>Automated field work\<close>

text \<open>The assignment \<^verbatim>\<open>newWorld[ty][tx] = t\<close>, which the code makes only after it has
  read the tile at that place.\<close>

definition setTile :: "world \<Rightarrow> int \<Rightarrow> int \<Rightarrow> tile \<Rightarrow> world" where
  "setTile world ty tx t = world[nat ty := (world ! nat ty)[nat tx := t]]"

text \<open>\<^verbatim>\<open>tractor.equipment?.type\<close>.\<close>

definition equipmentType :: "vehicle \<Rightarrow> string option" where
  "equipmentType tractor = map_option attachment.type (equipment tractor)"

text \<open>One round of the loop of \<^verbatim>\<open>applyPlowAction\<close>.\<close>

definition plowStep :: "attachment \<Rightarrow> int \<Rightarrow> nat \<Rightarrow> world \<Rightarrow> js_error + world" where
  "plowStep plow plowY i newWorld =
     (let plowX = \<lfloor>(x plow + of_nat i * TILE_SIZE) / TILE_SIZE\<rfloor>
      in if plowY < WORLD_HEIGHT_TILES \<and> plowX \<ge> 0 \<and> plowX < WORLD_WIDTH_TILES
         then (case getTile newWorld plowY plowX of
                 Inl err \<Rightarrow> Inl err
               | Inr t \<Rightarrow>
                   if (tile.type t = GRASS \<or> tile.type t = DIRT) \<and> tile.crop t = None
                   then Inr (setTile newWorld plowY plowX (t\<lparr>tile.type := TILLED\<rparr>))
                   else Inr newWorld)
         else Inr newWorld)"

function plowLoop :: "attachment \<Rightarrow> int \<Rightarrow> nat \<Rightarrow> world \<Rightarrow> js_error + world" where
  "plowLoop plow plowY i newWorld =
     (if of_nat i < width plow / TILE_SIZE then
        (case plowStep plow plowY i newWorld of
           Inl err \<Rightarrow> Inl err
         | Inr w' \<Rightarrow> plowLoop plow plowY (i + 1) w')
      else Inr newWorld)"
  by pat_completeness auto
termination
proof (relation "measure (\<lambda>(plow, plowY, i, newWorld). nat \<lceil>width plow / TILE_SIZE\<rceil> - i)")
  show "wf (measure (\<lambda>(plow, plowY, i, newWorld). nat \<lceil>width plow / TILE_SIZE\<rceil> - i))"
    by simp
next
  fix plow :: attachment and plowY :: int and i :: nat and newWorld w' :: world
  assume "of_nat i < width plow / TILE_SIZE"
  then have "real i < of_int \<lceil>width plow / TILE_SIZE\<rceil>"
    by (rule less_le_trans) (rule le_of_int_ceiling)
  then have "i < nat \<lceil>width plow / TILE_SIZE\<rceil>"
    by linarith
  then show "((plow, plowY, i + 1, w'), (plow, plowY, i, newWorld))
      \<in> measure (\<lambda>(plow, plowY, i, newWorld). nat \<lceil>width plow / TILE_SIZE\<rceil> - i)"
    by simp
qed

declare plowLoop.simps [simp del]

definition applyPlowAction :: "vehicle \<Rightarrow> attachment \<Rightarrow> world \<Rightarrow> js_error + world" where
  "applyPlowAction tractor plow world =
     (if equipmentType tractor \<noteq> Some ''plow'' \<or> vx tractor = 0 \<or> fuel tractor \<le> 0
      then Inr world
      else if length world = 0 then Inr world
      else plowLoop plow \<lfloor>(y plow + height plow) / TILE_SIZE\<rfloor> 0 world)"

text \<open>The state of the loop of \<^verbatim>\<open>applySeederAction\<close>: the new world, the seeds consumed
  and the status events.\<close>

definition seederStep ::
  "attachment \<Rightarrow> player \<Rightarrow> crop_type \<Rightarrow> int \<Rightarrow> int \<Rightarrow> nat \<Rightarrow> world \<times> int \<times> status list \<Rightarrow>
     js_error + world \<times> int \<times> status list" where
  "seederStep seeder player selectedCropType now seederY i st =
     (let newWorld = fst st; seedsConsumed = fst (snd st); msgs = snd (snd st);
          seederX = \<lfloor>(x seeder + of_nat i * TILE_SIZE) / TILE_SIZE\<rfloor>
      in if seederY < WORLD_HEIGHT_TILES \<and> seederX \<ge> 0 \<and> seederX < WORLD_WIDTH_TILES
         then (case getTile newWorld seederY seederX of
                 Inl err \<Rightarrow> Inl err
               | Inr t \<Rightarrow>
                   if tile.type t = TILLED \<and> tile.crop t = None then
                     (if inventory player (seedInventoryKey selectedCropType) - seedsConsumed > 0
                      then Inr (setTile newWorld seederY seederX
                                  (t\<lparr>tile.type := CROP_PLANTED,
                                     crop := Some \<lparr>crop.type = selectedCropType,
                                       stage = SEED, plantedTime = now\<rparr>\<rparr>),
                                seedsConsumed + 1, msgs)
                      else Inr (newWorld, seedsConsumed,
                                msgs @ [(''No '' @ cropName selectedCropType @ '' seeds to plant!'', 100)]))
                   else Inr st)
         else Inr st)"

function seederLoop ::
  "attachment \<Rightarrow> player \<Rightarrow> crop_type \<Rightarrow> int \<Rightarrow> int \<Rightarrow> nat \<Rightarrow> world \<times> int \<times> status list \<Rightarrow>
     js_error + world \<times> int \<times> status list" where
  "seederLoop seeder player selectedCropType now seederY i st =
     (if of_nat i < width seeder / TILE_SIZE then
        (case seederStep seeder player selectedCropType now seederY i st of
           Inl err \<Rightarrow> Inl err
         | Inr st' \<Rightarrow> seederLoop seeder player selectedCropType now seederY (i + 1) st')
      else Inr st)"
  by pat_completeness auto
termination
proof (relation "measure (\<lambda>(seeder, player, selectedCropType, now, seederY, i, st).
         nat \<lceil>width seeder / TILE_SIZE\<rceil> - i)")
  show "wf (measure (\<lambda>(seeder, player, selectedCropType, now, seederY, i, st).
         nat \<lceil>width seeder / TILE_SIZE\<rceil> - i))"
    by simp
next
  fix seeder :: attachment and player :: player and selectedCropType :: crop_type
    and now seederY :: int and i :: nat and st st' :: "world \<times> int \<times> status list"
  assume "of_nat i < width seeder / TILE_SIZE"
  then have "real i < of_int \<lceil>width seeder / TILE_SIZE\<rceil>"
    by (rule less_le_trans) (rule le_of_int_ceiling)
  then have "i < nat \<lceil>width seeder / TILE_SIZE\<rceil>"
    by linarith
  then show "((seeder, player, selectedCropType, now, seederY, i + 1, st'),
              (seeder, player, selectedCropType, now, seederY, i, st))
      \<in> measure (\<lambda>(seeder, player, selectedCropType, now, seederY, i, st).
           nat \<lceil>width seeder / TILE_SIZE\<rceil> - i)"
    by simp
qed

declare seederLoop.simps [simp del]

text \<open>The callback reads two players: \<^verbatim>\<open>player\<close>, the state that the callback closed
  over when it was made, in the test of the loop, and \<^verbatim>\<open>prev\<close>, the state that
  \<^verbatim>\<open>setPlayer\<close> hands to its updater, in the debit. The result holds the player that the
  updater returns, which is \<^verbatim>\<open>prev\<close> itself when \<^verbatim>\<open>setPlayer\<close> is not called.\<close>

definition applySeederAction ::
  "vehicle \<Rightarrow> attachment \<Rightarrow> player \<Rightarrow> player \<Rightarrow> crop_type \<Rightarrow> int \<Rightarrow> world \<Rightarrow>
     js_error + player \<times> world \<times> status list" where
  "applySeederAction tractor seeder player prev selectedCropType now world =
     (if equipmentType tractor \<noteq> Some ''seeder'' \<or> vx tractor = 0 \<or> fuel tractor \<le> 0
      then Inr (prev, world, [])
      else if length world = 0 then Inr (prev, world, [])
      else
        (case seederLoop seeder player selectedCropType now
                \<lfloor>(y seeder + height seeder) / TILE_SIZE\<rfloor> 0 (world, 0, []) of
           Inl err \<Rightarrow> Inl err
         | Inr (newWorld, seedsConsumed, msgs) \<Rightarrow>
             Inr (if seedsConsumed > 0
                  then prev\<lparr>inventory := (inventory prev)
                          (seedInventoryKey selectedCropType :=
                             inventory prev (seedInventoryKey selectedCropType) - seedsConsumed)\<rparr>
                  else prev,
                  newWorld, msgs)))"

text \<open>The state of the loop of \<^verbatim>\<open>applyCombineAction\<close>: the new world, the table
  \<^verbatim>\<open>harvestedCount\<close> and the status events. The step also tells whether the loop goes
  on (\<open>True\<close>) or has met \<^verbatim>\<open>break\<close> (\<open>False\<close>).\<close>

definition combineStep ::
  "player \<Rightarrow> int \<Rightarrow> int \<Rightarrow> world \<times> (crop_type \<Rightarrow> int) \<times> status list \<Rightarrow>
     js_error + bool \<times> world \<times> (crop_type \<Rightarrow> int) \<times> status list" where
  "combineStep player combineY tx st =
     (let newWorld = fst st; harvestedCount = fst (snd st); msgs = snd (snd st)
      in if combineY < WORLD_HEIGHT_TILES \<and> tx \<ge> 0 \<and> tx < WORLD_WIDTH_TILES
         then (case getTile newWorld combineY tx of
                 Inl err \<Rightarrow> Inl err
               | Inr t \<Rightarrow>
                   (case tile.crop t of
                      Some c \<Rightarrow>
                        if tile.type t = CROP_GROWN \<and> stage c = MATURE then
                          (if inventory player (cropKey (crop.type c)) + harvestedCount (crop.type c)
                                < maxStorage player
                           then Inr (True,
                                     setTile newWorld combineY tx (t\<lparr>tile.type := TILLED, crop := None\<rparr>),
                                     harvestedCount (crop.type c := harvestedCount (crop.type c) + 1),
                                     msgs)
                           else Inr (False, newWorld, harvestedCount,
                                     msgs @ [(''Storage full! Cannot harvest more.'', 1500)]))
                        else Inr (True, st)
                    | None \<Rightarrow> Inr (True, st)))
         else Inr (True, st))"

function combineLoop ::
  "player \<Rightarrow> int \<Rightarrow> int \<Rightarrow> int \<Rightarrow> world \<times> (crop_type \<Rightarrow> int) \<times> status list \<Rightarrow>
     js_error + world \<times> (crop_type \<Rightarrow> int) \<times> status list" where
  "combineLoop player combineY maxX tx st =
     (if tx < maxX then
        (case combineStep player combineY tx st of
           Inl err \<Rightarrow> Inl err
         | Inr (continue, st') \<Rightarrow>
             if continue then combineLoop player combineY maxX (tx + 1) st' else Inr st')
      else Inr st)"
  by pat_completeness auto
termination
  by (relation "measure (\<lambda>(player, combineY, maxX, tx, st). nat (maxX - tx))") auto

declare combineLoop.simps [simp del]

text \<open>As in \<^verbatim>\<open>applySeederAction\<close>, the test of the loop reads the player of the closure,
  \<^verbatim>\<open>player.inventory\<close> and \<^verbatim>\<open>player.maxStorage\<close>, and the credit goes to the player
  \<^verbatim>\<open>prev\<close> that \<^verbatim>\<open>setPlayer\<close> hands to its updater.\<close>

definition applyCombineAction ::
  "vehicle \<Rightarrow> player \<Rightarrow> player \<Rightarrow> world \<Rightarrow> js_error + player \<times> world \<times> status list" where
  "applyCombineAction combineHarvester player prev world =
     (if \<not> isInVehicle combineHarvester \<or> vx combineHarvester = 0 \<or> fuel combineHarvester \<le> 0
      then Inr (prev, world, [])
      else if length world = 0 then Inr (prev, world, [])
      else
        (let combineY = \<lfloor>(y combineHarvester + height combineHarvester) / TILE_SIZE\<rfloor>;
             headerWidth = TILE_SIZE * 2;
             startX = (if facing combineHarvester = FacingRight
                       then \<lfloor>(x combineHarvester + width combineHarvester) / TILE_SIZE\<rfloor>
                       else \<lfloor>(x combineHarvester - headerWidth) / TILE_SIZE\<rfloor>);
             endX = (if facing combineHarvester = FacingRight
                     then \<lfloor>(x combineHarvester + width combineHarvester + headerWidth) / TILE_SIZE\<rfloor>
                     else \<lfloor>x combineHarvester / TILE_SIZE\<rfloor>)
         in case combineLoop player combineY (max startX endX) (min startX endX)
                   (world, (\<lambda>k. 0), []) of
              Inl err \<Rightarrow> Inl err
            | Inr (newWorld, harvestedCount, msgs) \<Rightarrow>
                if harvestedCount WHEAT > 0 \<or> harvestedCount CORN > 0 \<or> harvestedCount POTATO > 0
                then Inr (prev\<lparr>inventory := (inventory prev)
                            (wheat := inventory prev wheat + harvestedCount WHEAT,
                             corn := inventory prev corn + harvestedCount CORN,
                             potato := inventory prev potato + harvestedCount POTATO)\<rparr>,
                          newWorld, msgs @ [(''Harvested with combine!'', 1500)])
                else Inr (prev, newWorld, msgs)))"

section \<open>Crop growth\<close>

text \<open>The body of the loops of \<^verbatim>\<open>updateCropGrowth\<close> at the tile \<open>(tx, ty)\<close>.\<close>

definition growthStep :: "int \<Rightarrow> int \<Rightarrow> int \<Rightarrow> world \<Rightarrow> js_error + world" where
  "growthStep now ty tx newWorld =
     (case getTile newWorld ty tx of
        Inl err \<Rightarrow> Inl err
      | Inr t \<Rightarrow>
          (case tile.crop t of
             Some c \<Rightarrow>
               if tile.type t = CROP_PLANTED then
                 (let timeElapsed = now - plantedTime c
                  in if timeElapsed \<ge> GROWTH_TIME_PER_STAGE * (stage c + 1)
                     then (let newStage = stage c + 1
                           in Inr (setTile newWorld ty tx
                                (t\<lparr>crop := Some (c\<lparr>stage := newStage\<rparr>),
                                   tile.type := (if newStage \<ge> MATURE then CROP_GROWN
                                                 else CROP_PLANTED)\<rparr>)))
                     else Inr newWorld)
               else Inr newWorld
           | None \<Rightarrow> Inr newWorld))"

function growthColumns :: "int \<Rightarrow> int \<Rightarrow> int \<Rightarrow> world \<Rightarrow> js_error + world" where
  "growthColumns now ty tx newWorld =
     (if tx < WORLD_WIDTH_TILES then
        (case growthStep now ty tx newWorld of
           Inl err \<Rightarrow> Inl err
         | Inr w' \<Rightarrow> growthColumns now ty (tx + 1) w')
      else Inr newWorld)"
  by pat_completeness auto
termination
  by (relation "measure (\<lambda>(now, ty, tx, newWorld). nat (WORLD_WIDTH_TILES - tx))") auto

function growthRows :: "int \<Rightarrow> int \<Rightarrow> world \<Rightarrow> js_error + world" where
  "growthRows now ty newWorld =
     (if ty < WORLD_HEIGHT_TILES then
        (case growthColumns now ty 0 newWorld of
           Inl err \<Rightarrow> Inl err
         | Inr w' \<Rightarrow> growthRows now (ty + 1) w')
      else Inr newWorld)"
  by pat_completeness auto
termination
  by (relation "measure (\<lambda>(now, ty, newWorld). nat (WORLD_HEIGHT_TILES - ty))") auto

declare growthColumns.simps [simp del] growthRows.simps [simp del]

definition updateCropGrowth :: "int \<Rightarrow> world \<Rightarrow> js_error + world" where
  "updateCropGrowth now world =
     (if length world = 0 then Inr world else growthRows now 0 world)"

section \<open>Reachable worlds\<close>

text \<open>The worlds that the session can hold: the generated one, and every world that one
  of the operations writing the grid makes from a reachable one, whatever the players,
  vehicles, attachments, selected crops and clock readings are. Loading a saved game is
  not one of these operations.\<close>

inductive reachable :: "world \<Rightarrow> bool" where
  generated: "reachable generateWorld"
| tilled: "reachable w \<Longrightarrow> handleTillSoil p w = (p', w', msgs) \<Longrightarrow> reachable w'"
| planted: "reachable w \<Longrightarrow> handlePlantCrop p w k now = Inr (p', w', msgs) \<Longrightarrow> reachable w'"
| harvested: "reachable w \<Longrightarrow> handleHarvestCrop p w = Inr (p', w', msgs) \<Longrightarrow> reachable w'"
| plowed: "reachable w \<Longrightarrow> applyPlowAction tr pl w = Inr w' \<Longrightarrow> reachable w'"
| seeded: "reachable w \<Longrightarrow> applySeederAction tr sd p q k now w = Inr (p', w', msgs) \<Longrightarrow>
     reachable w'"
| combined: "reachable w \<Longrightarrow> applyCombineAction cb p q w = Inr (p', w', msgs) \<Longrightarrow> reachable w'"
| grown: "reachable w \<Longrightarrow> updateCropGrowth now w = Inr w' \<Longrightarrow> reachable w'"

text \<open>What the operations keep true of every tile: a tile without crop is neither planted
  nor grown, a tile with a crop is planted at stage seed or young, or grown at stage
  mature.\<close>

definition tileInv :: "tile \<Rightarrow> bool" where
  "tileInv t =
     (case tile.crop t of
        None \<Rightarrow> tile.type t \<noteq> CROP_PLANTED \<and> tile.type t \<noteq> CROP_GROWN
      | Some c \<Rightarrow> (tile.type t = CROP_PLANTED \<and> (stage c = SEED \<or> stage c = YOUNG)) \<or>
                  (tile.type t = CROP_GROWN \<and> stage c = MATURE))"

text \<open>The grid keeps its shape, and each of its tiles satisfies \<open>tileInv\<close>.\<close>

definition worldInv :: "world \<Rightarrow> bool" where
  "worldInv w =
     (int (length w) = WORLD_HEIGHT_TILES \<and>
      list_all (\<lambda>row. int (length row) = WORLD_WIDTH_TILES \<and> list_all tileInv row) w)"

section \<open>A session on the generated world\<close>

text \<open>The initial player of \<^verbatim>\<open>GameProvider\<close>.\<close>

definition initial_player :: player where
  "initial_player =
     \<lparr>x = WORLD_WIDTH_PIXELS / 4, y = TILE_SIZE * 14,
      width = TILE_SIZE * 0.9, height = TILE_SIZE * 1.8,
      vx = 0, vy = 0, onGround = False,
      speed = 3, jumpPower = 10, isInVehicle = False, facing = FacingRight,
      inventory = (\<lambda>k. 0)(wheatSeeds := 50, cornSeeds := 20, potatoSeeds := 20),
      money = 100, maxStorage = 100, siloBuilt = False\<rparr>"

text \<open>The player as \<^verbatim>\<open>generateWorld\<close> places it on the ground.\<close>

definition placed_player :: player where
  "placed_player =
     initial_player\<lparr>x := WORLD_WIDTH_PIXELS / 4,
                    y := of_int groundStartRow * TILE_SIZE - height initial_player\<rparr>"

text \<open>The player tills the tile under its feet, plants wheat there at time \<open>0\<close>, and the
  growth engine ticks at \<open>5000\<close> and at \<open>10000\<close> milliseconds; then the player harvests.\<close>

definition field_tilled :: world where
  "field_tilled = fst (snd (handleTillSoil placed_player generateWorld))"

definition field_planted :: world where
  "field_planted = fst (snd (projr (handlePlantCrop placed_player field_tilled WHEAT 0)))"

definition field_young :: world where
  "field_young = projr (updateCropGrowth 5000 field_planted)"

definition field_grown :: world where
  "field_grown = projr (updateCropGrowth 10000 field_young)"

section \<open>The growth of one tile\<close>

text \<open>What one tick of \<^verbatim>\<open>updateCropGrowth\<close> at time \<open>now\<close> leaves at the place of the
  tile \<open>t\<close>.\<close>

definition grownTile :: "int \<Rightarrow> tile \<Rightarrow> tile" where
  "grownTile now t =
     (case tile.crop t of
        None \<Rightarrow> t
      | Some c \<Rightarrow>
          if tile.type t = CROP_PLANTED \<and>
             now - plantedTime c \<ge> GROWTH_TIME_PER_STAGE * (stage c + 1)
          then t\<lparr>crop := Some (c\<lparr>stage := stage c + 1\<rparr>),
                 tile.type := (if stage c + 1 \<ge> MATURE then CROP_GROWN else CROP_PLANTED)\<rparr>
          else t)"

text \<open>Successive ticks of the growth engine, at the clock readings of the list.\<close>

fun growthTicks :: "int list \<Rightarrow> world \<Rightarrow> js_error + world" where
  "growthTicks [] world = Inr world"
| "growthTicks (now # nows) world =
     (case updateCropGrowth now world of
        Inl err \<Rightarrow> Inl err
      | Inr w' \<Rightarrow> growthTicks nows w')"

section \<open>Entering and leaving a vehicle\<close>

text \<open>The initial combine harvester of \<^verbatim>\<open>GameProvider\<close>.\<close>

definition initial_combineHarvester :: vehicle where
  "initial_combineHarvester =
     \<lparr>x = WORLD_WIDTH_PIXELS / 2 + 200, y = TILE_SIZE * 14,
      width = TILE_SIZE * 5, height = TILE_SIZE * 3,
      vx = 0, vy = 0, onGround = False,
      speed = 2.0, jumpPower = 10, isInVehicle = False, facing = FacingRight,
      equipment = None, isHitched = False, type = ''combine harvester'',
      fuel = 100, maxFuel = 100, fuelConsumption = 0.07, upgradeLevel = 0\<rparr>"

definition enterRange :: real where
  "enterRange = 80"

text \<open>\<^verbatim>\<open>Math.sqrt(Math.pow(p.x - v.x, 2) + Math.pow(p.y - v.y, 2))\<close>.\<close>

definition distanceTo :: "player \<Rightarrow> vehicle \<Rightarrow> real" where
  "distanceTo newPlayer vehicle =
     sqrt ((x newPlayer - x vehicle)\<^sup>2 + (y newPlayer - y vehicle)\<^sup>2)"

text \<open>One round of the loop over the vehicles: the state is \<^verbatim>\<open>closestVehicle\<close> and
  \<^verbatim>\<open>minDistance\<close>, where \<open>None\<close> stands for \<^verbatim>\<open>null\<close> and for \<^verbatim>\<open>Infinity\<close>.\<close>

definition considerVehicle ::
  "player \<Rightarrow> vehicle option \<times> real option \<Rightarrow> vehicle \<Rightarrow> vehicle option \<times> real option" where
  "considerVehicle newPlayer acc vehicle =
     (let distance = distanceTo newPlayer vehicle
      in if (case snd acc of None \<Rightarrow> True | Some minDistance \<Rightarrow> distance < minDistance) \<and>
            distance < enterRange
         then (Some vehicle, Some distance) else acc)"

definition closestVehicle :: "player \<Rightarrow> vehicle \<Rightarrow> vehicle \<Rightarrow> vehicle option" where
  "closestVehicle newPlayer currentTractor currentCombineHarvester =
     fst (foldl (considerVehicle newPlayer) (None, None) [currentTractor, currentCombineHarvester])"

text \<open>The results are the new player, the new tractor, the new combine harvester and the
  status events.\<close>

definition handleEnterExitVehicle ::
  "player \<Rightarrow> vehicle \<Rightarrow> vehicle \<Rightarrow> player \<times> vehicle \<times> vehicle \<times> status list" where
  "handleEnterExitVehicle prevPlayer tractor combineHarvester =
     (if isInVehicle prevPlayer then
        (case (if isInVehicle tractor then Some tractor
               else if isInVehicle combineHarvester then Some combineHarvester else None) of
           None \<Rightarrow> (prevPlayer, tractor, combineHarvester, [])
         | Some currentVehicle \<Rightarrow>
             (prevPlayer\<lparr>isInVehicle := False,
                x := x currentVehicle + width currentVehicle / 2 - width prevPlayer / 2,
                y := of_int groundStartRow * TILE_SIZE - height prevPlayer,
                vx := 0, vy := 0, onGround := False\<rparr>,
              (if vehicle.type currentVehicle = ''tractor''
               then tractor\<lparr>isInVehicle := False\<rparr> else tractor),
              (if vehicle.type currentVehicle \<noteq> ''tractor'' \<and>
                  vehicle.type currentVehicle = ''combine harvester''
               then combineHarvester\<lparr>isInVehicle := False\<rparr> else combineHarvester),
              [(''Exited '' @ capitalize (vehicle.type currentVehicle), 1500)]))
      else
        (case closestVehicle prevPlayer tractor combineHarvester of
           Some v \<Rightarrow>
             (prevPlayer\<lparr>isInVehicle := True,
                x := x v + width v / 2,
                y := y v + height v / 2\<rparr>,
              (if vehicle.type v = ''tractor''
               then tractor\<lparr>isInVehicle := True\<rparr> else tractor),
              (if vehicle.type v \<noteq> ''tractor'' \<and> vehicle.type v = ''combine harvester''
               then combineHarvester\<lparr>isInVehicle := True\<rparr> else combineHarvester),
              [(''Entered '' @ capitalize (vehicle.type v), 1500)])
         | None \<Rightarrow>
             (prevPlayer, tractor, combineHarvester,
              [(''No vehicle close enough to enter!'', 1000)])))"

text \<open>The vehicles as \<^verbatim>\<open>generateWorld\<close> places them, and a player who has walked fifty
  pixels towards the tractor.\<close>

definition placed_tractor :: vehicle where
  "placed_tractor =
     initial_tractor\<lparr>x := WORLD_WIDTH_PIXELS / 4 + 100,
                     y := of_int groundStartRow * TILE_SIZE - height initial_tractor\<rparr>"

definition placed_combineHarvester :: vehicle where
  "placed_combineHarvester =
     initial_combineHarvester\<lparr>x := WORLD_WIDTH_PIXELS / 2 + 200,
       y := of_int groundStartRow * TILE_SIZE - height initial_combineHarvester\<rparr>"

definition walking_player :: player where
  "walking_player = placed_player\<lparr>x := 800\<rparr>"

section \<open>Storage\<close>

text \<open>No crop count of the inventory exceeds \<^verbatim>\<open>maxStorage\<close>.\<close>

definition withinStorage :: "player \<Rightarrow> bool" where
  "withinStorage p =
     (inventory p wheat \<le> maxStorage p \<and> inventory p corn \<le> maxStorage p \<and>
      inventory p potato \<le> maxStorage p)"

text \<open>A combine harvester driven to the right, its header over the columns 37 and 38 of
  the ground row.\<close>

definition harvesting_combine :: vehicle where
  "harvesting_combine =
     placed_combineHarvester\<lparr>x := 640, vx := 2, isInVehicle := True\<rparr>"

text \<open>The player has walked eighteen pixels to the right, tills the next tile of the ground
  row, plants wheat there at time \<open>10000\<close>, and the growth engine ticks at \<open>15000\<close> and at
  \<open>20000\<close> milliseconds: the columns 37 and 38 of the ground row hold ripe wheat.\<close>

definition stepped_player :: player where
  "stepped_player = placed_player\<lparr>x := 768\<rparr>"

definition strip_tilled :: world where
  "strip_tilled = fst (snd (handleTillSoil stepped_player field_grown))"

definition strip_planted :: world where
  "strip_planted = fst (snd (projr (handlePlantCrop stepped_player strip_tilled WHEAT 10000)))"

definition strip_young :: world where
  "strip_young = projr (updateCropGrowth 15000 strip_planted)"

definition strip_grown :: world where
  "strip_grown = projr (updateCropGrowth 20000 strip_young)"

text \<open>The driver of the combine harvester, as the game loop anchors it to the vehicle, with
  99 units of wheat in a storage of 100.\<close>

definition combine_driver :: player where
  "combine_driver =
     placed_player\<lparr>isInVehicle := True,
       x := x harvesting_combine + width harvesting_combine / 2 - width placed_player / 2,
       y := y harvesting_combine - height placed_player,
       inventory := (inventory placed_player)(wheat := 99)\<rparr>"

text \<open>Two passes of one callback \<^verbatim>\<open>applyCombineAction\<close>, made when the state was the driver
  and the strip of ripe wheat. The game loop that holds the callback asks for its next
  frame itself, \<^verbatim>\<open>requestAnimationFrame(gameLoop)\<close>, so the second pass can run before the
  callback is made anew: it reads the player that the first pass has read, and its
  updaters receive the player and the world that the first pass has left.\<close>

definition first_pass :: "js_error + player \<times> world \<times> status list" where
  "first_pass = applyCombineAction harvesting_combine combine_driver combine_driver strip_grown"

definition second_pass :: "js_error + player \<times> world \<times> status list" where
  "second_pass =
     (case first_pass of
        Inl err \<Rightarrow> Inl err
      | Inr (prev, prevWorld, msgs) \<Rightarrow>
          applyCombineAction harvesting_combine combine_driver prev prevWorld)"

section \<open>Players off the usual places\<close>

text \<open>The player riding the placed tractor, as the game loop anchors it every tick:
  \<^verbatim>\<open>x = vehicle.x + vehicle.width / 2 - width / 2\<close> and \<^verbatim>\<open>y = vehicle.y - height\<close>.\<close>

definition riding_player :: player where
  "riding_player =
     placed_player\<lparr>isInVehicle := True,
       x := x placed_tractor + width placed_tractor / 2 - width placed_player / 2,
       y := y placed_tractor - height placed_player\<rparr>"

text \<open>A player on foot whose feet are above the top of the world.\<close>

definition lifted_player :: player where
  "lifted_player = placed_player\<lparr>y := -100\<rparr>"

text \<open>A player on foot left of the world, and one whose feet are below its bottom.\<close>

definition outlying_player :: player where
  "outlying_player = placed_player\<lparr>x := -30\<rparr>"

definition sunk_player :: player where
  "sunk_player = placed_player\<lparr>y := 600\<rparr>"

section \<open>Sky colour and ambient light\<close>

text \<open>A colour string \<^verbatim>\<open>'#RRGGBB'\<close> is modelled by its three channels, which is what
  \<^verbatim>\<open>hexToRgb\<close> reads from it and what \<^verbatim>\<open>rgbToHex\<close> writes.\<close>

type_synonym rgb = "int \<times> int \<times> int"

text \<open>The object \<^verbatim>\<open>colors\<close> that \<^verbatim>\<open>getSkyColor\<close> receives.\<close>

record sky_colors =
  DEEP_NIGHT_SKY_COLOR :: rgb
  DAWN_SKY_COLOR :: rgb
  SUNRISE_TINT_COLOR :: rgb
  MORNING_SKY_COLOR :: rgb
  AFTERNOON_SKY_COLOR :: rgb
  SUNSET_TINT_COLOR :: rgb
  DUSK_SKY_COLOR :: rgb

text \<open>The colours of the game: \<^verbatim>\<open>#1A1A2E\<close>, \<^verbatim>\<open>#4682B4\<close>, \<^verbatim>\<open>#FFC0CB\<close>, \<^verbatim>\<open>#87CEEB\<close>,
  \<^verbatim>\<open>#6A5ACD\<close>, \<^verbatim>\<open>#FF7F50\<close> and \<^verbatim>\<open>#483D8B\<close>.\<close>

definition skyColors :: sky_colors where
  "skyColors =
     \<lparr>DEEP_NIGHT_SKY_COLOR = (26, 26, 46), DAWN_SKY_COLOR = (70, 130, 180),
      SUNRISE_TINT_COLOR = (255, 192, 203), MORNING_SKY_COLOR = (135, 206, 235),
      AFTERNOON_SKY_COLOR = (106, 90, 205), SUNSET_TINT_COLOR = (255, 127, 80),
      DUSK_SKY_COLOR = (72, 61, 139)\<rparr>"

text \<open>\<^verbatim>\<open>Math.round\<close>: the nearest integer, a half rounded up.\<close>

definition jsRound :: "real \<Rightarrow> int" where
  "jsRound v = \<lfloor>v + 1 / 2\<rfloor>"

definition lerpChannel :: "int \<Rightarrow> int \<Rightarrow> real \<Rightarrow> int" where
  "lerpChannel c1 c2 factor = jsRound (of_int c1 + factor * (of_int c2 - of_int c1))"

definition lerpColor :: "rgb \<Rightarrow> rgb \<Rightarrow> real \<Rightarrow> rgb" where
  "lerpColor color1 color2 factor =
     (lerpChannel (fst color1) (fst color2) factor,
      lerpChannel (fst (snd color1)) (fst (snd color2)) factor,
      lerpChannel (snd (snd color1)) (snd (snd color2)) factor)"

definition getSkyColor :: "real \<Rightarrow> sky_colors \<Rightarrow> rgb" where
  "getSkyColor time colors =
     (if time \<ge> 0 \<and> time < 5 then DEEP_NIGHT_SKY_COLOR colors
      else if time \<ge> 5 \<and> time < 6
        then lerpColor (DEEP_NIGHT_SKY_COLOR colors) (DAWN_SKY_COLOR colors) ((time - 5) / 1)
      else if time \<ge> 6 \<and> time < 7
        then lerpColor (DAWN_SKY_COLOR colors) (SUNRISE_TINT_COLOR colors) ((time - 6) / 1)
      else if time \<ge> 7 \<and> time < 9
        then lerpColor (SUNRISE_TINT_COLOR colors) (MORNING_SKY_COLOR colors) ((time - 7) / 2)
      else if time \<ge> 9 \<and> time < 16 then MORNING_SKY_COLOR colors
      else if time \<ge> 16 \<and> time < 18
        then lerpColor (MORNING_SKY_COLOR colors) (AFTERNOON_SKY_COLOR colors) ((time - 16) / 2)
      else if time \<ge> 18 \<and> time < 19
        then lerpColor (AFTERNOON_SKY_COLOR colors) (SUNSET_TINT_COLOR colors) ((time - 18) / 1)
      else if time \<ge> 19 \<and> time < 21
        then lerpColor (SUNSET_TINT_COLOR colors) (DEEP_NIGHT_SKY_COLOR colors) ((time - 19) / 2)
      else DEEP_NIGHT_SKY_COLOR colors)"

definition getAmbientLightFactor :: "real \<Rightarrow> real" where
  "getAmbientLightFactor time =
     (if time \<ge> 5 \<and> time < 7 then 0.1 + (time - 5) / 2 * 0.4
      else if time \<ge> 7 \<and> time < 9 then 0.5 + (time - 7) / 2 * 0.5
      else if time \<ge> 9 \<and> time < 17 then 1
      else if time \<ge> 17 \<and> time < 19 then 1 - (time - 17) / 2 * 0.5
      else if time \<ge> 19 \<and> time < 21 then 0.5 - (time - 19) / 2 * 0.4
      else 0.1)"

text \<open>The breakpoints of the piecewise definition of the sky colour.\<close>

definition skyBreakpoints :: "real list" where
  "skyBreakpoints = [0, 5, 6, 7, 9, 16, 18, 19, 21]"

text \<open>One more than the sum of the channel differences of two colours, and the sum of
  these numbers over the six transitions of the sky.\<close>

definition colorSpan :: "rgb \<Rightarrow> rgb \<Rightarrow> real" where
  "colorSpan c1 c2 =
     1 + \<bar>of_int (fst c2) - of_int (fst c1)\<bar> + \<bar>of_int (fst (snd c2)) - of_int (fst (snd c1))\<bar> +
       \<bar>of_int (snd (snd c2)) - of_int (snd (snd c1))\<bar>"

definition skySpan :: "sky_colors \<Rightarrow> real" where
  "skySpan cs =
     colorSpan (DEEP_NIGHT_SKY_COLOR cs) (DAWN_SKY_COLOR cs) +
     colorSpan (DAWN_SKY_COLOR cs) (SUNRISE_TINT_COLOR cs) +
     colorSpan (SUNRISE_TINT_COLOR cs) (MORNING_SKY_COLOR cs) +
     colorSpan (MORNING_SKY_COLOR cs) (AFTERNOON_SKY_COLOR cs) +
     colorSpan (AFTERNOON_SKY_COLOR cs) (SUNSET_TINT_COLOR cs) +
     colorSpan (SUNSET_TINT_COLOR cs) (DEEP_NIGHT_SKY_COLOR cs)"

section \<open>Fuel gate of the tractor\<close>

text \<open>
  Claim C7. An occupied tractor with \<open>fuel = 0\<close> and a horizontal move key pressed
  gets \<open>vx = 0\<close>, keeps its fuel and emits exactly the out-of-fuel status; an occupied
  tractor with \<open>fuel > 0\<close> and a move key pressed has its fuel lowered by
  \<open>fuelConsumption\<close>, floored at zero.
\<close>

theorem tractor_fuel_gate:
  "(isInVehicle t \<and> fuel t = 0 \<and> isMovingKey ks \<longrightarrow>
      vx (fst (handleTractorMovement ks t)) = 0 \<and>
      fuel (fst (handleTractorMovement ks t)) = fuel t \<and>
      snd (handleTractorMovement ks t) = [(''Tractor out of fuel!'', 1000)]) \<and>
   (isInVehicle t \<and> 0 < fuel t \<and> isMovingKey ks \<longrightarrow>
      fuel (fst (handleTractorMovement ks t)) = max 0 (fuel t - fuelConsumption t) \<and>
      0 \<le> fuel (fst (handleTractorMovement ks t)) \<and>
      snd (handleTractorMovement ks t) = [])"
  by (auto simp: handleTractorMovement_def isMovingKey_def)

theorem tractor_fuel_gate_witness:
  "isInVehicle (initial_tractor\<lparr>isInVehicle := True, fuel := 0\<rparr>) \<and>
   fuel (initial_tractor\<lparr>isInVehicle := True, fuel := 0\<rparr>) = 0 \<and>
   isMovingKey (\<lambda>k. k = ''d'') \<and>
   vx (fst (handleTractorMovement (\<lambda>k. k = ''d'')
        (initial_tractor\<lparr>isInVehicle := True, fuel := 0\<rparr>))) = 0 \<and>
   snd (handleTractorMovement (\<lambda>k. k = ''d'')
        (initial_tractor\<lparr>isInVehicle := True, fuel := 0\<rparr>)) = [(''Tractor out of fuel!'', 1000)] \<and>
   isInVehicle (initial_tractor\<lparr>isInVehicle := True\<rparr>) \<and>
   0 < fuel (initial_tractor\<lparr>isInVehicle := True\<rparr>) \<and>
   fuel (fst (handleTractorMovement (\<lambda>k. k = ''d'')
        (initial_tractor\<lparr>isInVehicle := True\<rparr>))) = 99.95"
proof -
  have k: "isMovingKey (\<lambda>k. k = ''d'')"
    by (simp add: isMovingKey_def)
  have a: "isInVehicle (initial_tractor\<lparr>isInVehicle := True, fuel := 0\<rparr>) \<and>
           fuel (initial_tractor\<lparr>isInVehicle := True, fuel := 0\<rparr>) = 0"
    by simp
  have b: "isInVehicle (initial_tractor\<lparr>isInVehicle := True\<rparr>) \<and>
           0 < fuel (initial_tractor\<lparr>isInVehicle := True\<rparr>)"
    by (simp add: initial_tractor_def)
  have c: "max 0 (fuel (initial_tractor\<lparr>isInVehicle := True\<rparr>)
             - fuelConsumption (initial_tractor\<lparr>isInVehicle := True\<rparr>)) = 99.95"
    by (simp add: initial_tractor_def)
  show ?thesis
    using k a b c
      tractor_fuel_gate [of "initial_tractor\<lparr>isInVehicle := True, fuel := 0\<rparr>" "\<lambda>k. k = ''d''"]
      tractor_fuel_gate [of "initial_tractor\<lparr>isInVehicle := True\<rparr>" "\<lambda>k. k = ''d''"]
    by simp
qed

section \<open>Frame of the physics tick\<close>

lemma collideTile_frame:
  "collideTile world wwt ty tx e = Inr e' \<Longrightarrow>
     width e' = width e \<and> height e' = height e \<and> entity.more e' = entity.more e"
  by (auto simp: collideTile_def Let_def split: if_splits sum.splits)

lemma scanColumns_frame:
  "scanColumns world wwt rightTile ty tx e = Inr e' \<Longrightarrow>
     width e' = width e \<and> height e' = height e \<and> entity.more e' = entity.more e"
proof (induction world wwt rightTile ty tx e rule: scanColumns.induct)
  case (1 world wwt rightTile ty tx newEntity)
  show ?case
  proof (cases "tx \<le> rightTile")
    case False
    with "1.prems" show ?thesis
      by (simp add: scanColumns.simps [of world wwt rightTile ty tx])
  next
    case True
    with "1.prems" obtain e1 where
      c: "collideTile world wwt ty tx newEntity = Inr e1" and
      r: "scanColumns world wwt rightTile ty (tx + 1) e1 = Inr e'"
      by (auto simp: scanColumns.simps [of world wwt rightTile ty tx] split: sum.splits)
    from "1.IH" [OF True c r] collideTile_frame [OF c] show ?thesis by simp
  qed
qed

lemma scanRows_frame:
  "scanRows world wwt leftTile rightTile bottomTile ty e = Inr e' \<Longrightarrow>
     width e' = width e \<and> height e' = height e \<and> entity.more e' = entity.more e"
proof (induction world wwt leftTile rightTile bottomTile ty e rule: scanRows.induct)
  case (1 world wwt leftTile rightTile bottomTile ty newEntity)
  show ?case
  proof (cases "ty \<le> bottomTile")
    case False
    with "1.prems" show ?thesis
      by (simp add: scanRows.simps [of world wwt leftTile rightTile bottomTile ty])
  next
    case True
    with "1.prems" obtain e1 where
      c: "scanColumns world wwt rightTile ty leftTile newEntity = Inr e1" and
      r: "scanRows world wwt leftTile rightTile bottomTile (ty + 1) e1 = Inr e'"
      by (auto simp: scanRows.simps [of world wwt leftTile rightTile bottomTile ty]
            split: sum.splits)
    from "1.IH" [OF True c r] scanColumns_frame [OF c] show ?thesis by simp
  qed
qed

lemma integrate_frame:
  "width (integrate e) = width e \<and> height (integrate e) = height e \<and>
   entity.more (integrate e) = entity.more e"
  by (simp add: integrate_def Let_def)

text \<open>
  Claim C10. Whatever entity the physics tick returns, its \<open>width\<close>, its \<open>height\<close> and
  every field beyond \<open>x\<close>, \<open>y\<close>, \<open>vx\<close>, \<open>vy\<close> and \<open>onGround\<close> (the extension part of the
  record: speed, fuel, facing, occupancy, inventory, money, equipment and so on) are
  those of the input entity.
\<close>

theorem updateEntityPosition_frame:
  assumes "updateEntityPosition entity world wwt = Inr e'"
  shows "width e' = width entity \<and> height e' = height entity \<and>
         entity.more e' = entity.more entity"
proof -
  from assms have "scanRows world wwt \<lfloor>x (integrate entity) / TILE_SIZE\<rfloor>
      \<lfloor>(x (integrate entity) + width (integrate entity) - 1) / TILE_SIZE\<rfloor>
      \<lfloor>(y (integrate entity) + height (integrate entity) - 1) / TILE_SIZE\<rfloor>
      \<lfloor>y (integrate entity) / TILE_SIZE\<rfloor> (integrate entity) = Inr e'"
    by (simp add: updateEntityPosition_def Let_def)
  from scanRows_frame [OF this] integrate_frame [of entity] show ?thesis by simp
qed

section \<open>The physics tick scans a rectangle of tiles\<close>

lemma integrate_moved: "integrate e = moved e"
  by (simp add: integrate_def moved_def Let_def min_def max_def)

lemma getTile_inside:
  "0 \<le> ty \<Longrightarrow> ty < int (length world) \<Longrightarrow> 0 \<le> tx \<Longrightarrow>
   tx < int (length (world ! nat ty)) \<Longrightarrow>
     getTile world ty tx = Inr (world ! nat ty ! nat tx)"
  by (simp add: getTile_def)

lemma collideTile_resolveCell:
  assumes "list_all (\<lambda>row. wwt \<le> int (length row)) world"
  shows "collideTile world wwt ty tx e = Inr (resolveCell world wwt e (ty, tx))"
proof (cases "tx \<ge> 0 \<and> tx < wwt \<and> ty \<ge> 0 \<and> ty < int (length world)")
  case False
  then show ?thesis
    by (auto simp: collideTile_def resolveCell_def solidAt_def)
next
  case True
  then have "nat ty < length world" by linarith
  then have "world ! nat ty \<in> set world" by (rule nth_mem)
  with assms have "wwt \<le> int (length (world ! nat ty))"
    by (simp add: list_all_iff)
  with True have g: "getTile world ty tx = Inr (world ! nat ty ! nat tx)"
    by (intro getTile_inside) auto
  show ?thesis
    using True
    by (simp add: collideTile_def g resolveCell_def solidAt_def overlaps_def resolve_def Let_def)
qed

lemma scanColumns_foldl:
  assumes "list_all (\<lambda>row. wwt \<le> int (length row)) world"
  shows "scanColumns world wwt rightTile ty tx e =
         Inr (foldl (\<lambda>a c. resolveCell world wwt a (ty, c)) e [tx..rightTile])"
  using assms
proof (induction world wwt rightTile ty tx e rule: scanColumns.induct)
  case (1 world wwt rightTile ty tx newEntity)
  show ?case
  proof (cases "tx \<le> rightTile")
    case False
    then show ?thesis
      by (simp add: scanColumns.simps [of world wwt rightTile ty tx])
  next
    case True
    note c = collideTile_resolveCell [OF "1.prems", of ty tx newEntity]
    from "1.IH" [OF True c "1.prems"] True c show ?thesis
      by (simp add: scanColumns.simps [of world wwt rightTile ty tx] upto_rec1 [of tx rightTile])
  qed
qed

lemma scanRows_foldl:
  assumes "list_all (\<lambda>row. wwt \<le> int (length row)) world"
  shows "scanRows world wwt leftTile rightTile bottomTile ty e =
         Inr (foldl (\<lambda>a r. foldl (\<lambda>a c. resolveCell world wwt a (r, c)) a [leftTile..rightTile])
                e [ty..bottomTile])"
  using assms
proof (induction world wwt leftTile rightTile bottomTile ty e rule: scanRows.induct)
  case (1 world wwt leftTile rightTile bottomTile ty newEntity)
  show ?case
  proof (cases "ty \<le> bottomTile")
    case False
    then show ?thesis
      by (simp add: scanRows.simps [of world wwt leftTile rightTile bottomTile ty])
  next
    case True
    note c = scanColumns_foldl [OF "1.prems", of rightTile ty leftTile newEntity]
    from "1.IH" [OF True c "1.prems"] True c show ?thesis
      by (simp add: scanRows.simps [of world wwt leftTile rightTile bottomTile ty]
            upto_rec1 [of ty bottomTile])
  qed
qed

lemma foldl_cells:
  "foldl f e (cells topTile bottomTile leftTile rightTile) =
   foldl (\<lambda>a r. foldl (\<lambda>a c. f a (r, c)) a [leftTile..rightTile]) e [topTile..bottomTile]"
proof -
  have "foldl f e (concat (map (\<lambda>ty. map (\<lambda>tx. (ty, tx)) [leftTile..rightTile]) rs)) =
        foldl (\<lambda>a r. foldl (\<lambda>a c. f a (r, c)) a [leftTile..rightTile]) e rs" for rs
    by (induction rs arbitrary: e) (simp_all add: foldl_map)
  then show ?thesis by (simp add: cells_def)
qed

lemma updateEntityPosition_cells:
  assumes "list_all (\<lambda>row. wwt \<le> int (length row)) world"
  shows "updateEntityPosition e world wwt =
         Inr (foldl (resolveCell world wwt) (moved e)
           (cells \<lfloor>y (moved e) / TILE_SIZE\<rfloor> \<lfloor>(y (moved e) + height e - 1) / TILE_SIZE\<rfloor>
              \<lfloor>x (moved e) / TILE_SIZE\<rfloor> \<lfloor>(x (moved e) + width e - 1) / TILE_SIZE\<rfloor>))"
proof -
  have w: "width (moved e) = width e" and h: "height (moved e) = height e"
    by (simp_all add: moved_def)
  show ?thesis
    by (simp add: updateEntityPosition_def Let_def integrate_moved w h
          scanRows_foldl [OF assms] foldl_cells)
qed

lemma upto_small: "[0..(0::int)] = [0]" "[0..(1::int)] = [0, 1]"
  by (simp_all add: upto_rec1)

lemma ledge_rows: "list_all (\<lambda>row. 1 \<le> int (length row)) ledge"
  by (simp add: ledge_def)

lemma resolveCell_ledge_sky: "resolveCell ledge 1 e (0, 0) = e"
  by (simp add: resolveCell_def solidAt_def ledge_def)

lemma moved_falling_box:
  "moved (falling_box\<lparr>y := v\<rparr>) =
     \<lparr>x = 0, y = v + 1/2, width = 10, height = 10, vx = 0, vy = 1/2, onGround = False\<rparr>"
  by (simp add: moved_def falling_box_def GRAVITY_def WORLD_WIDTH_PIXELS_def
        WORLD_WIDTH_TILES_def TILE_SIZE_def)

text \<open>The box with its bottom edge half a pixel inside the grass tile after the move:
  the specification's tick lands it on the tile, the code leaves it falling, because row
  \<open>\<lfloor>(10.5 + 10 - 1) / 20\<rfloor> = 0\<close> is the last row that the loops visit.\<close>

lemma claimed_falling_box:
  "claimed_updateEntityPosition (falling_box\<lparr>y := 10\<rparr>) ledge 1 =
     \<lparr>x = 0, y = 10, width = 10, height = 10, vx = 0, vy = 0, onGround = True\<rparr>"
  unfolding claimed_updateEntityPosition_def moved_falling_box
  by (simp add: cells_def ledge_def upto_small
        resolveCell_def solidAt_def overlaps_def resolve_def TILE_SIZE_def)

lemma code_falling_box:
  "updateEntityPosition (falling_box\<lparr>y := 10\<rparr>) ledge 1 =
     Inr \<lparr>x = 0, y = 21/2, width = 10, height = 10, vx = 0, vy = 1/2, onGround = False\<rparr>"
  unfolding updateEntityPosition_cells [OF ledge_rows] moved_falling_box
  by (simp add: cells_def upto_small resolveCell_ledge_sky TILE_SIZE_def falling_box_def)

lemma scanned_landing_box:
  "scanned_updateEntityPosition (falling_box\<lparr>y := 11\<rparr>) ledge 1 =
     \<lparr>x = 0, y = 10, width = 10, height = 10, vx = 0, vy = 0, onGround = True\<rparr>"
  unfolding scanned_updateEntityPosition_def moved_falling_box
  by (simp add: cells_def ledge_def upto_small falling_box_def
        resolveCell_def solidAt_def overlaps_def resolve_def TILE_SIZE_def)

text \<open>
  Claim C3, as the code has it. On a grid whose rows hold at least \<open>WORLD_WIDTH_TILES\<close>
  tiles, one physics tick integrates gravity into \<open>vy\<close>, adds \<open>vy\<close> to \<open>y\<close> and \<open>vx\<close> to
  \<open>x\<close>, clamps \<open>x\<close> into \<open>[0, WORLD_WIDTH_PIXELS - width]\<close>, and then visits the cells of
  the rectangle of tile indices \<open>\<lfloor>y / 20\<rfloor> .. \<lfloor>(y + height - 1) / 20\<rfloor>\<close> by
  \<open>\<lfloor>x / 20\<rfloor> .. \<lfloor>(x + width - 1) / 20\<rfloor>\<close>, computed once after the move, top to bottom
  and left to right; at each cell that is a tile of the grid other than sky and overlaps
  the entity as it then stands, it resolves with the precedence: land on the tile
  (\<open>vy > 0\<close> and the bottom edge within the tile's vertical span), else bump below it
  (\<open>vy < 0\<close>), else stop left of it (\<open>vx > 0\<close>), else stop right of it (\<open>vx < 0\<close>).
\<close>

theorem updateEntityPosition_scanned:
  assumes "list_all (\<lambda>row. wwt \<le> int (length row)) world"
  shows "updateEntityPosition e world wwt = Inr (scanned_updateEntityPosition e world wwt)"
  by (simp add: updateEntityPosition_cells [OF assms] scanned_updateEntityPosition_def)

theorem updateEntityPosition_scanned_witness:
  "list_all (\<lambda>row. 1 \<le> int (length row)) ledge \<and>
   updateEntityPosition (falling_box\<lparr>y := 11\<rparr>) ledge 1 =
     Inr \<lparr>x = 0, y = 10, width = 10, height = 10, vx = 0, vy = 0, onGround = True\<rparr>"
proof -
  have "updateEntityPosition (falling_box\<lparr>y := 11\<rparr>) ledge 1 =
     Inr \<lparr>x = 0, y = 10, width = 10, height = 10, vx = 0, vy = 0, onGround = True\<rparr>"
    using updateEntityPosition_scanned [OF ledge_rows, of "falling_box\<lparr>y := 11\<rparr>"]
    by (simp only: scanned_landing_box)
  with ledge_rows show ?thesis by (rule conjI)
qed

text \<open>The tick that resolves every overlapping tile of the grid is not the tick of the
  code: they differ on the box whose bottom edge ends half a pixel inside the grass.\<close>

theorem updateEntityPosition_claimed_counterexample:
  "updateEntityPosition falling_box ledge 1 \<noteq>
     Inr (claimed_updateEntityPosition falling_box ledge 1)"
proof -
  have "falling_box\<lparr>y := 10\<rparr> = falling_box" by (simp add: falling_box_def)
  with code_falling_box claimed_falling_box show ?thesis by simp
qed

section \<open>The operations keep the grid well formed\<close>

lemma worldInv_nth:
  "worldInv w \<longleftrightarrow>
     int (length w) = WORLD_HEIGHT_TILES \<and>
     (\<forall>i<length w. int (length (w ! i)) = WORLD_WIDTH_TILES \<and>
        (\<forall>j<length (w ! i). tileInv (w ! i ! j)))"
  by (simp add: worldInv_def list_all_length)

lemma length_mapIndexed [simp]: "length (mapIndexed f xs) = length xs"
  by (simp add: mapIndexed_def)

lemma nth_mapIndexed [simp]: "i < length xs \<Longrightarrow> mapIndexed f xs ! i = f (int i) (xs ! i)"
  by (simp add: mapIndexed_def)

lemma length_mapWorld [simp]: "length (mapWorld f w) = length w"
  by (simp add: mapWorld_def)

lemma nth_mapWorld [simp]:
  "i < length w \<Longrightarrow> mapWorld f w ! i = mapIndexed (f (int i)) (w ! i)"
  by (simp add: mapWorld_def)

lemma worldInv_mapWorld:
  assumes "worldInv w" and "\<And>ty tx t. tileInv t \<Longrightarrow> tileInv (f ty tx t)"
  shows "worldInv (mapWorld f w)"
  using assms by (simp add: worldInv_nth)

lemma getTile_InrD:
  assumes "getTile w ty tx = Inr t"
  shows "0 \<le> ty \<and> ty < int (length w) \<and> nat ty < length w \<and>
         0 \<le> tx \<and> tx < int (length (w ! nat ty)) \<and> nat tx < length (w ! nat ty) \<and>
         t = w ! nat ty ! nat tx"
proof -
  from assms have a: "0 \<le> ty \<and> ty < int (length w)"
    by (simp add: getTile_def split: if_splits)
  with assms have b: "0 \<le> tx \<and> tx < int (length (w ! nat ty))"
    by (simp add: getTile_def split: if_splits)
  from assms a b have "t = w ! nat ty ! nat tx"
    by (simp add: getTile_def)
  with a b show ?thesis by linarith
qed

lemma list_all_update:
  "list_all P xs \<Longrightarrow> P v \<Longrightarrow> list_all P (xs[i := v])"
  using set_update_subset_insert [of xs i v] by (auto simp: list_all_iff)

lemma worldInv_setTile:
  assumes "worldInv w" and "tileInv t"
  shows "worldInv (setTile w ty tx t)"
proof (cases "nat ty < length w")
  case False
  then have "setTile w ty tx t = w"
    by (simp add: setTile_def list_update_beyond)
  with assms(1) show ?thesis by simp
next
  case True
  then have "w ! nat ty \<in> set w" by (rule nth_mem)
  with assms(1) have r: "int (length (w ! nat ty)) = WORLD_WIDTH_TILES \<and> list_all tileInv (w ! nat ty)"
    by (simp add: worldInv_def list_all_iff)
  then have "list_all tileInv ((w ! nat ty)[nat tx := t])"
    using assms(2) by (simp add: list_all_update)
  with r have "int (length ((w ! nat ty)[nat tx := t])) = WORLD_WIDTH_TILES \<and>
      list_all tileInv ((w ! nat ty)[nat tx := t])"
    by simp
  with assms(1) show ?thesis
    unfolding worldInv_def setTile_def
    by (simp add: list_all_update)
qed

lemma getTile_worldInv:
  assumes "worldInv w" and "getTile w ty tx = Inr t"
  shows "tileInv t"
  using assms(1) getTile_InrD [OF assms(2)]
  by (simp add: worldInv_nth)

lemma worldInv_generateWorld: "worldInv generateWorld"
  by (auto simp: worldInv_def generateWorld_def list_all_iff generateTile_def tileInv_def
        WORLD_HEIGHT_TILES_def WORLD_WIDTH_TILES_def)

lemma generateWorld_rows:
  "list_all (\<lambda>row. WORLD_WIDTH_TILES \<le> int (length row)) generateWorld"
  using worldInv_generateWorld by (simp add: worldInv_def list_all_iff)

lemma tileInv_till:
  "tileInv t \<Longrightarrow> tile.type t = GRASS \<or> tile.type t = DIRT \<Longrightarrow> tileInv (t\<lparr>tile.type := TILLED\<rparr>)"
  by (auto simp: tileInv_def split: option.splits)

lemma tileInv_plant:
  "tileInv (t\<lparr>tile.type := CROP_PLANTED,
      crop := Some \<lparr>crop.type = k, stage = SEED, plantedTime = now\<rparr>\<rparr>)"
  by (simp add: tileInv_def)

lemma tileInv_harvest: "tileInv (t\<lparr>tile.type := TILLED, crop := None\<rparr>)"
  by (simp add: tileInv_def)

lemma tileInv_grow:
  "tileInv t \<Longrightarrow> tile.crop t = Some c \<Longrightarrow> tile.type t = CROP_PLANTED \<Longrightarrow>
   tileInv (t\<lparr>crop := Some (c\<lparr>stage := stage c + 1\<rparr>),
      tile.type := (if stage c + 1 \<ge> MATURE then CROP_GROWN else CROP_PLANTED)\<rparr>)"
  by (auto simp: tileInv_def SEED_def YOUNG_def MATURE_def)

lemma worldInv_handleTillSoil:
  assumes "worldInv w" and "handleTillSoil p w = (p', w', msgs)"
  shows "worldInv w'"
proof -
  have "worldInv (mapWorld (\<lambda>ty tx t. if tillable tileX tileY ty tx t
           then t\<lparr>tile.type := TILLED\<rparr> else t) w)" for tileX tileY
    using assms(1) by (rule worldInv_mapWorld) (simp add: tillable_def tileInv_till)
  with assms show ?thesis
    by (auto simp: handleTillSoil_def Let_def split: if_splits)
qed

lemma worldInv_handlePlantCrop:
  assumes "worldInv w" and "handlePlantCrop p w k now = Inr (p', w', msgs)"
  shows "worldInv w'"
proof -
  have "worldInv (mapWorld (\<lambda>ty tx t'. if tx = tileX \<and> ty = tileY
           then t'\<lparr>tile.type := CROP_PLANTED,
                   crop := Some \<lparr>crop.type = k, stage = SEED, plantedTime = now\<rparr>\<rparr>
           else t') w)" for tileX tileY
    using assms(1) by (rule worldInv_mapWorld) (simp add: tileInv_plant)
  with assms show ?thesis
    by (auto simp: handlePlantCrop_def Let_def split: if_splits sum.splits)
qed

lemma worldInv_handleHarvestCrop:
  assumes "worldInv w" and "handleHarvestCrop p w = Inr (p', w', msgs)"
  shows "worldInv w'"
proof -
  have "worldInv (mapWorld (\<lambda>ty tx t'. if tx = tileX \<and> ty = tileY
           then t'\<lparr>tile.type := TILLED, crop := None\<rparr> else t') w)" for tileX tileY
    using assms(1) by (rule worldInv_mapWorld) (simp add: tileInv_harvest)
  with assms show ?thesis
    by (auto simp: handleHarvestCrop_def Let_def split: if_splits sum.splits option.splits)
qed

lemma worldInv_plowStep:
  assumes "worldInv w" and "plowStep plow plowY i w = Inr w'"
  shows "worldInv w'"
proof -
  have "worldInv (setTile w ty tx (t\<lparr>tile.type := TILLED\<rparr>))"
    if "getTile w ty tx = Inr t" and "tile.type t = GRASS \<or> tile.type t = DIRT" for ty tx t
    using that assms(1) by (intro worldInv_setTile tileInv_till getTile_worldInv [of w ty tx t])
  with assms show ?thesis
    by (auto simp: plowStep_def Let_def split: if_splits sum.splits)
qed

lemma worldInv_plowLoop:
  "worldInv w \<Longrightarrow> plowLoop plow plowY i w = Inr w' \<Longrightarrow> worldInv w'"
proof (induction plow plowY i w rule: plowLoop.induct)
  case (1 plow plowY i newWorld)
  show ?case
  proof (cases "of_nat i < width plow / TILE_SIZE")
    case False
    with "1.prems" show ?thesis
      by (simp add: plowLoop.simps [of plow plowY i])
  next
    case True
    with "1.prems" obtain w1 where
      s: "plowStep plow plowY i newWorld = Inr w1" and
      r: "plowLoop plow plowY (i + 1) w1 = Inr w'"
      by (auto simp: plowLoop.simps [of plow plowY i] split: sum.splits)
    from "1.prems"(1) s have "worldInv w1" by (rule worldInv_plowStep)
    with "1.IH" [OF True s] r show ?thesis by simp
  qed
qed

lemma worldInv_applyPlowAction:
  assumes "worldInv w" and "applyPlowAction tr pl w = Inr w'"
  shows "worldInv w'"
  using assms worldInv_plowLoop [of w pl _ 0 w']
  by (auto simp: applyPlowAction_def split: if_splits)

lemma worldInv_seederStep:
  assumes "worldInv (fst st)" and "seederStep seeder p k now seederY i st = Inr st'"
  shows "worldInv (fst st')"
proof -
  have "worldInv (setTile (fst st) ty tx (t\<lparr>tile.type := CROP_PLANTED,
           crop := Some \<lparr>crop.type = k, stage = SEED, plantedTime = now\<rparr>\<rparr>))" for ty tx t
    using assms(1) by (intro worldInv_setTile tileInv_plant)
  with assms show ?thesis
    by (auto simp: seederStep_def Let_def split: if_splits sum.splits)
qed

lemma worldInv_seederLoop:
  "worldInv (fst st) \<Longrightarrow> seederLoop seeder p k now seederY i st = Inr st' \<Longrightarrow>
     worldInv (fst st')"
proof (induction seeder p k now seederY i st rule: seederLoop.induct)
  case (1 seeder player selectedCropType now seederY i st)
  show ?case
  proof (cases "of_nat i < width seeder / TILE_SIZE")
    case False
    with "1.prems" show ?thesis
      by (simp add: seederLoop.simps [of seeder player selectedCropType now seederY i])
  next
    case True
    with "1.prems" obtain s1 where
      s: "seederStep seeder player selectedCropType now seederY i st = Inr s1" and
      r: "seederLoop seeder player selectedCropType now seederY (i + 1) s1 = Inr st'"
      by (auto simp: seederLoop.simps [of seeder player selectedCropType now seederY i]
            split: sum.splits)
    from "1.prems"(1) s have "worldInv (fst s1)" by (rule worldInv_seederStep)
    with "1.IH" [OF True s] r show ?thesis by simp
  qed
qed

lemma worldInv_applySeederAction:
  assumes "worldInv w" and "applySeederAction tr sd p q k now w = Inr (p', w', msgs)"
  shows "worldInv w'"
proof (cases "equipmentType tr \<noteq> Some ''seeder'' \<or> vx tr = 0 \<or> fuel tr \<le> 0 \<or> length w = 0")
  case True
  with assms show ?thesis
    by (auto simp: applySeederAction_def split: if_splits)
next
  case False
  with assms(2) obtain n where
    "seederLoop sd p k now \<lfloor>(y sd + height sd) / TILE_SIZE\<rfloor> 0 (w, 0, []) = Inr (w', n, msgs)"
    by (auto simp: applySeederAction_def split: sum.splits)
  from worldInv_seederLoop [OF _ this] assms(1) show ?thesis by simp
qed

lemma worldInv_combineStep:
  assumes "worldInv (fst st)" and "combineStep p combineY tx st = Inr (b, st')"
  shows "worldInv (fst st')"
proof -
  have "worldInv (setTile (fst st) ty tx' (t\<lparr>tile.type := TILLED, crop := None\<rparr>))" for ty tx' t
    using assms(1) by (intro worldInv_setTile tileInv_harvest)
  with assms show ?thesis
    by (auto simp: combineStep_def Let_def split: if_splits sum.splits option.splits)
qed

lemma worldInv_combineLoop:
  "worldInv (fst st) \<Longrightarrow> combineLoop p combineY maxX tx st = Inr st' \<Longrightarrow> worldInv (fst st')"
proof (induction p combineY maxX tx st rule: combineLoop.induct)
  case (1 player combineY maxX tx st)
  show ?case
  proof (cases "tx < maxX")
    case False
    with "1.prems" show ?thesis
      by (simp add: combineLoop.simps [of player combineY maxX tx])
  next
    case True
    with "1.prems" obtain b s1 where
      s: "combineStep player combineY tx st = Inr (b, s1)" and
      r: "(if b then combineLoop player combineY maxX (tx + 1) s1 else Inr s1) = Inr st'"
      by (auto simp: combineLoop.simps [of player combineY maxX tx] split: sum.splits)
    from "1.prems"(1) s have i: "worldInv (fst s1)" by (rule worldInv_combineStep)
    show ?thesis
    proof (cases b)
      case True
      with r have "combineLoop player combineY maxX (tx + 1) s1 = Inr st'" by simp
      with "1.IH" [OF \<open>tx < maxX\<close> s refl True i] show ?thesis by simp
    next
      case False
      with r i show ?thesis by simp
    qed
  qed
qed

lemma worldInv_applyCombineAction:
  assumes "worldInv w" and "applyCombineAction cb p q w = Inr (p', w', msgs)"
  shows "worldInv w'"
proof (cases "\<not> isInVehicle cb \<or> vx cb = 0 \<or> fuel cb \<le> 0 \<or> length w = 0")
  case True
  with assms show ?thesis
    by (auto simp: applyCombineAction_def split: if_splits)
next
  case False
  with assms(2) obtain cy mx mn hc ms where
    "combineLoop p cy mx mn (w, (\<lambda>k. 0), []) = Inr (w', hc, ms)"
    by (auto simp: applyCombineAction_def Let_def split: sum.splits if_splits)
  from worldInv_combineLoop [OF _ this] assms(1) show ?thesis by simp
qed

lemma worldInv_growthStep:
  assumes "worldInv w" and "growthStep now ty tx w = Inr w'"
  shows "worldInv w'"
proof (cases "getTile w ty tx")
  case (Inl err)
  with assms(2) show ?thesis by (simp add: growthStep_def)
next
  case (Inr t)
  show ?thesis
  proof (cases "\<exists>c. tile.crop t = Some c \<and> tile.type t = CROP_PLANTED \<and>
                 now - plantedTime c \<ge> GROWTH_TIME_PER_STAGE * (stage c + 1)")
    case True
    then obtain c where c: "tile.crop t = Some c" "tile.type t = CROP_PLANTED"
        "now - plantedTime c \<ge> GROWTH_TIME_PER_STAGE * (stage c + 1)"
      by blast
    with Inr assms(2) have "w' = setTile w ty tx (t\<lparr>crop := Some (c\<lparr>stage := stage c + 1\<rparr>),
          tile.type := (if stage c + 1 \<ge> MATURE then CROP_GROWN else CROP_PLANTED)\<rparr>)"
      by (simp add: growthStep_def Let_def)
    moreover have "tileInv t"
      using assms(1) Inr by (rule getTile_worldInv)
    ultimately show ?thesis
      using assms(1) c(1,2) by (simp only: worldInv_setTile tileInv_grow)
  next
    case False
    with Inr assms(2) have "w' = w"
      by (auto simp: growthStep_def Let_def split: option.splits if_splits)
    with assms(1) show ?thesis by simp
  qed
qed

lemma worldInv_growthColumns:
  "worldInv w \<Longrightarrow> growthColumns now ty tx w = Inr w' \<Longrightarrow> worldInv w'"
proof (induction now ty tx w rule: growthColumns.induct)
  case (1 now ty tx newWorld)
  show ?case
  proof (cases "tx < WORLD_WIDTH_TILES")
    case False
    with "1.prems" show ?thesis
      by (simp add: growthColumns.simps [of now ty tx])
  next
    case True
    with "1.prems" obtain w1 where
      s: "growthStep now ty tx newWorld = Inr w1" and
      r: "growthColumns now ty (tx + 1) w1 = Inr w'"
      by (auto simp: growthColumns.simps [of now ty tx] split: sum.splits)
    from "1.prems"(1) s have "worldInv w1" by (rule worldInv_growthStep)
    with "1.IH" [OF True s] r show ?thesis by simp
  qed
qed

lemma worldInv_growthRows:
  "worldInv w \<Longrightarrow> growthRows now ty w = Inr w' \<Longrightarrow> worldInv w'"
proof (induction now ty w rule: growthRows.induct)
  case (1 now ty newWorld)
  show ?case
  proof (cases "ty < WORLD_HEIGHT_TILES")
    case False
    with "1.prems" show ?thesis
      by (simp add: growthRows.simps [of now ty])
  next
    case True
    with "1.prems" obtain w1 where
      s: "growthColumns now ty 0 newWorld = Inr w1" and
      r: "growthRows now (ty + 1) w1 = Inr w'"
      by (auto simp: growthRows.simps [of now ty] split: sum.splits)
    from "1.prems"(1) s have "worldInv w1" by (rule worldInv_growthColumns)
    with "1.IH" [OF True s] r show ?thesis by simp
  qed
qed

lemma worldInv_updateCropGrowth:
  assumes "worldInv w" and "updateCropGrowth now w = Inr w'"
  shows "worldInv w'"
  using assms worldInv_growthRows [of w now 0 w']
  by (auto simp: updateCropGrowth_def split: if_splits)

lemma reachable_worldInv: "reachable w \<Longrightarrow> worldInv w"
proof (induction rule: reachable.induct)
  case generated
  show ?case by (rule worldInv_generateWorld)
next
  case (tilled w p p' w' msgs)
  then show ?case by (blast intro: worldInv_handleTillSoil)
next
  case (planted w p k now p' w' msgs)
  then show ?case by (blast intro: worldInv_handlePlantCrop)
next
  case (harvested w p p' w' msgs)
  then show ?case by (blast intro: worldInv_handleHarvestCrop)
next
  case (plowed w tr pl w')
  then show ?case by (blast intro: worldInv_applyPlowAction)
next
  case (seeded w tr sd p q k now p' w' msgs)
  then show ?case by (blast intro: worldInv_applySeederAction)
next
  case (combined w cb p q p' w' msgs)
  then show ?case by (blast intro: worldInv_applyCombineAction)
next
  case (grown w now w')
  then show ?case by (blast intro: worldInv_updateCropGrowth)
qed

section \<open>Tiles of the generated world and of the changed worlds\<close>

lemma getTile_mapWorld:
  "getTile (mapWorld f w) ty tx =
     (case getTile w ty tx of Inl err \<Rightarrow> Inl err | Inr t \<Rightarrow> Inr (f ty tx t))"
proof (cases "0 \<le> ty \<and> ty < int (length w)")
  case False
  then show ?thesis by (auto simp: getTile_def)
next
  case True
  then have i: "nat ty < length w" by linarith
  show ?thesis
  proof (cases "0 \<le> tx \<and> tx < int (length (w ! nat ty))")
    case False
    with True i show ?thesis by (auto simp: getTile_def)
  next
    case True
    then have "nat tx < length (w ! nat ty)" by linarith
    with \<open>0 \<le> ty \<and> ty < int (length w)\<close> True i show ?thesis by (simp add: getTile_def)
  qed
qed

lemma getTile_generateWorld:
  assumes "0 \<le> ty" "ty < WORLD_HEIGHT_TILES" "0 \<le> tx" "tx < WORLD_WIDTH_TILES"
  shows "getTile generateWorld ty tx = Inr (generateTile ty)"
proof -
  have l: "length generateWorld = nat WORLD_HEIGHT_TILES"
    by (simp add: generateWorld_def)
  from assms have i: "nat ty < length [0..WORLD_HEIGHT_TILES - 1]" by simp
  then have r: "generateWorld ! nat ty =
      map (\<lambda>tx. generateTile ([0..WORLD_HEIGHT_TILES - 1] ! nat ty)) [0..WORLD_WIDTH_TILES - 1]"
    by (simp add: generateWorld_def)
  from assms have u: "[0..WORLD_HEIGHT_TILES - 1] ! nat ty = ty"
    by simp
  from assms have j: "nat tx < length [0..WORLD_WIDTH_TILES - 1]" by simp
  from assms l r u j show ?thesis
    by (simp add: getTile_def)
qed

lemma getTile_setTile:
  assumes "getTile w ty tx = Inr t0"
  shows "getTile (setTile w ty tx t) ty' tx' =
           (if ty' = ty \<and> tx' = tx then Inr t else getTile w ty' tx')"
proof -
  note d = getTile_InrD [OF assms]
  show ?thesis
  proof (cases "0 \<le> ty' \<and> ty' < int (length w)")
    case False
    with d show ?thesis by (auto simp: getTile_def setTile_def)
  next
    case True
    then have i: "nat ty' < length w" by linarith
    show ?thesis
    proof (cases "ty' = ty")
      case False
      with True d have "nat ty' \<noteq> nat ty" by linarith
      with True False show ?thesis by (simp add: getTile_def setTile_def)
    next
      case ty: True
      show ?thesis
      proof (cases "tx' = tx")
        case True
        with ty d show ?thesis by (simp add: getTile_def setTile_def)
      next
        case False
        show ?thesis
        proof (cases "0 \<le> tx' \<and> tx' < int (length (w ! nat ty))")
          case True
          with False d have "nat tx' \<noteq> nat tx" by linarith
          with True ty d False show ?thesis by (simp add: getTile_def setTile_def)
        next
          case False
          with ty d \<open>tx' \<noteq> tx\<close> show ?thesis by (auto simp: getTile_def setTile_def)
        qed
      qed
    qed
  qed
qed

lemma getTile_inside_worldInv:
  assumes "worldInv w" "0 \<le> ty" "ty < WORLD_HEIGHT_TILES" "0 \<le> tx" "tx < WORLD_WIDTH_TILES"
  shows "\<exists>t. getTile w ty tx = Inr t"
proof -
  from assms(1) have "int (length w) = WORLD_HEIGHT_TILES" by (simp add: worldInv_def)
  with assms have i: "nat ty < length w" by linarith
  then have "w ! nat ty \<in> set w" by (rule nth_mem)
  with assms(1) have "int (length (w ! nat ty)) = WORLD_WIDTH_TILES"
    by (simp add: worldInv_def list_all_iff)
  with assms i show ?thesis by (simp add: getTile_def)
qed

lemma growthStep_grownTile:
  assumes "getTile w ty tx = Inr t"
  shows "\<exists>w'. growthStep now ty tx w = Inr w' \<and>
           (\<forall>ty' tx'. getTile w' ty' tx' =
              (if ty' = ty \<and> tx' = tx then Inr (grownTile now t) else getTile w ty' tx'))"
proof (cases "\<exists>c. tile.crop t = Some c \<and> tile.type t = CROP_PLANTED \<and>
                 now - plantedTime c \<ge> GROWTH_TIME_PER_STAGE * (stage c + 1)")
  case True
  then obtain c where c: "tile.crop t = Some c" "tile.type t = CROP_PLANTED"
      "now - plantedTime c \<ge> GROWTH_TIME_PER_STAGE * (stage c + 1)"
    by blast
  with assms have "growthStep now ty tx w = Inr (setTile w ty tx (grownTile now t))"
    by (simp add: growthStep_def grownTile_def Let_def)
  with getTile_setTile [OF assms] show ?thesis by simp
next
  case False
  with assms have "growthStep now ty tx w = Inr w"
    by (auto simp: growthStep_def Let_def split: option.splits)
  moreover from False have "grownTile now t = t"
    by (auto simp: grownTile_def split: option.splits)
  ultimately show ?thesis using assms by auto
qed

lemma getTile_outside_worldInv:
  assumes "worldInv w" and "\<not> (0 \<le> ty \<and> ty < WORLD_HEIGHT_TILES \<and> 0 \<le> tx \<and> tx < WORLD_WIDTH_TILES)"
  shows "getTile w ty tx = Inl TypeError"
proof (cases "0 \<le> ty \<and> ty < int (length w)")
  case False
  then show ?thesis by (auto simp: getTile_def)
next
  case True
  then have "nat ty < length w" by linarith
  then have "w ! nat ty \<in> set w" by (rule nth_mem)
  with assms(1) have "int (length (w ! nat ty)) = WORLD_WIDTH_TILES"
    by (simp add: worldInv_def list_all_iff)
  moreover from assms(1) have "int (length w) = WORLD_HEIGHT_TILES"
    by (simp add: worldInv_def)
  ultimately show ?thesis using assms(2) True by (auto simp: getTile_def)
qed

lemma growthColumns_pointwise:
  "worldInv w \<Longrightarrow> 0 \<le> ty \<Longrightarrow> ty < WORLD_HEIGHT_TILES \<Longrightarrow> 0 \<le> tx \<Longrightarrow>
     \<exists>w'. growthColumns now ty tx w = Inr w' \<and> worldInv w' \<and>
       (\<forall>ty' tx'. getTile w' ty' tx' =
          (if ty' = ty \<and> tx \<le> tx' then map_sum id (grownTile now) (getTile w ty' tx')
           else getTile w ty' tx'))"
proof (induction now ty tx w rule: growthColumns.induct)
  case (1 now ty tx newWorld)
  show ?case
  proof (cases "tx < WORLD_WIDTH_TILES")
    case False
    have "map_sum id (grownTile now) (getTile newWorld ty' tx') = getTile newWorld ty' tx'"
      if "tx \<le> tx'" for ty' tx'
      using that False getTile_outside_worldInv [OF "1.prems"(1), of ty' tx'] by simp
    with False "1.prems"(1) show ?thesis
      by (simp add: growthColumns.simps [of now ty tx])
  next
    case True
    with "1.prems" obtain t where t: "getTile newWorld ty tx = Inr t"
      using getTile_inside_worldInv [of newWorld ty tx] by blast
    from growthStep_grownTile [OF t, of now] obtain w1 where
      s: "growthStep now ty tx newWorld = Inr w1" and
      p1: "\<And>ty' tx'. getTile w1 ty' tx' =
              (if ty' = ty \<and> tx' = tx then Inr (grownTile now t) else getTile newWorld ty' tx')"
      by blast
    from "1.prems"(1) s have i1: "worldInv w1" by (rule worldInv_growthStep)
    from "1.IH" [OF True s i1 "1.prems"(2,3)] "1.prems"(4) obtain w' where
      r: "growthColumns now ty (tx + 1) w1 = Inr w'" and i': "worldInv w'" and
      p': "\<And>ty' tx'. getTile w' ty' tx' =
              (if ty' = ty \<and> tx + 1 \<le> tx' then map_sum id (grownTile now) (getTile w1 ty' tx')
               else getTile w1 ty' tx')"
      by auto
    have "getTile w' ty' tx' =
          (if ty' = ty \<and> tx \<le> tx' then map_sum id (grownTile now) (getTile newWorld ty' tx')
           else getTile newWorld ty' tx')" for ty' tx'
      using t by (auto simp: p' p1)
    with True s r i' show ?thesis
      by (simp add: growthColumns.simps [of now ty tx])
  qed
qed

lemma growthRows_pointwise:
  "worldInv w \<Longrightarrow> 0 \<le> ty \<Longrightarrow>
     \<exists>w'. growthRows now ty w = Inr w' \<and> worldInv w' \<and>
       (\<forall>ty' tx'. getTile w' ty' tx' =
          (if ty \<le> ty' then map_sum id (grownTile now) (getTile w ty' tx')
           else getTile w ty' tx'))"
proof (induction now ty w rule: growthRows.induct)
  case (1 now ty newWorld)
  show ?case
  proof (cases "ty < WORLD_HEIGHT_TILES")
    case False
    have "map_sum id (grownTile now) (getTile newWorld ty' tx') = getTile newWorld ty' tx'"
      if "ty \<le> ty'" for ty' tx'
      using that False getTile_outside_worldInv [OF "1.prems"(1), of ty' tx'] by simp
    with False "1.prems"(1) show ?thesis
      by (simp add: growthRows.simps [of now ty])
  next
    case True
    from growthColumns_pointwise [OF "1.prems"(1,2) True, of 0 now] obtain w1 where
      s: "growthColumns now ty 0 newWorld = Inr w1" and i1: "worldInv w1" and
      p1: "\<And>ty' tx'. getTile w1 ty' tx' =
              (if ty' = ty \<and> 0 \<le> tx' then map_sum id (grownTile now) (getTile newWorld ty' tx')
               else getTile newWorld ty' tx')"
      by auto
    from "1.IH" [OF True s i1] "1.prems"(2) obtain w' where
      r: "growthRows now (ty + 1) w1 = Inr w'" and i': "worldInv w'" and
      p': "\<And>ty' tx'. getTile w' ty' tx' =
              (if ty + 1 \<le> ty' then map_sum id (grownTile now) (getTile w1 ty' tx')
               else getTile w1 ty' tx')"
      by auto
    have neg: "getTile newWorld ty' tx' = Inl TypeError" if "tx' < 0" for ty' tx'
      using that getTile_outside_worldInv [OF "1.prems"(1), of ty' tx'] by simp
    have "getTile w' ty' tx' =
          (if ty \<le> ty' then map_sum id (grownTile now) (getTile newWorld ty' tx')
           else getTile newWorld ty' tx')" for ty' tx'
      using neg [of tx' ty'] by (auto simp: p' p1)
    with True s r i' show ?thesis
      by (simp add: growthRows.simps [of now ty])
  qed
qed

lemma updateCropGrowth_pointwise:
  assumes "worldInv w"
  shows "\<exists>w'. updateCropGrowth now w = Inr w' \<and> worldInv w' \<and>
           (\<forall>ty tx. getTile w' ty tx = map_sum id (grownTile now) (getTile w ty tx))"
proof -
  from assms have "length w \<noteq> 0"
    by (auto simp: worldInv_def WORLD_HEIGHT_TILES_def)
  moreover
  from growthRows_pointwise [OF assms, of 0 now] obtain w' where
    r: "growthRows now 0 w = Inr w'" and i': "worldInv w'" and
    p': "\<And>ty' tx'. getTile w' ty' tx' =
            (if 0 \<le> ty' then map_sum id (grownTile now) (getTile w ty' tx')
             else getTile w ty' tx')"
    by auto
  have neg: "getTile w ty' tx' = Inl TypeError" if "ty' < 0" for ty' tx'
    using that getTile_outside_worldInv [OF assms, of ty' tx'] by simp
  have "getTile w' ty tx = map_sum id (grownTile now) (getTile w ty tx)" for ty tx
    using neg [of ty tx] by (auto simp: p')
  ultimately show ?thesis using r i'
    by (simp add: updateCropGrowth_def)
qed

section \<open>The session on the generated world\<close>

lemma groundStartRow_eq: "groundStartRow = 22"
  by (simp add: groundStartRow_def WORLD_HEIGHT_TILES_def)

lemma placed_player_tile:
  "playerTileX placed_player = 37" "playerTileY placed_player = 22"
  "\<not> isInVehicle placed_player"
  by (simp_all add: playerTileX_def playerTileY_def placed_player_def initial_player_def
        groundStartRow_eq WORLD_WIDTH_PIXELS_def WORLD_WIDTH_TILES_def TILE_SIZE_def)

lemma length_generateWorld: "length generateWorld = 30"
  by (simp add: generateWorld_def WORLD_HEIGHT_TILES_def)

lemma field_tilled_eq:
  "field_tilled = mapWorld (\<lambda>ty tx t. if tillable 37 22 ty tx t
                     then t\<lparr>tile.type := TILLED\<rparr> else t) generateWorld"
  by (simp add: field_tilled_def handleTillSoil_def placed_player_tile length_generateWorld
        WORLD_HEIGHT_TILES_def WORLD_WIDTH_TILES_def)

lemma reachable_field_tilled: "reachable field_tilled"
proof -
  have "handleTillSoil placed_player generateWorld =
        (fst (handleTillSoil placed_player generateWorld), field_tilled,
         snd (snd (handleTillSoil placed_player generateWorld)))"
    by (simp add: field_tilled_def)
  with reachable.generated show ?thesis by (rule reachable.tilled)
qed

lemma getTile_field_tilled:
  "getTile field_tilled 22 37 = Inr \<lparr>tile.type = TILLED, crop = None\<rparr>"
proof -
  have "getTile generateWorld 22 37 = Inr (generateTile 22)"
    by (rule getTile_generateWorld) (simp_all add: WORLD_HEIGHT_TILES_def WORLD_WIDTH_TILES_def)
  then show ?thesis
    by (simp add: field_tilled_eq getTile_mapWorld generateTile_def groundStartRow_eq tillable_def)
qed

lemma length_field_tilled: "length field_tilled = 30"
  by (simp add: field_tilled_eq length_generateWorld)

lemma cropName_WHEAT: "capitalize (cropName WHEAT) = ''Wheat''"
  by code_simp

lemma plant_field_tilled:
  "handlePlantCrop placed_player field_tilled WHEAT 0 =
     Inr (placed_player\<lparr>inventory := (inventory placed_player)(wheatSeeds := 49)\<rparr>,
          field_planted, [(''Wheat planted!'', 1500)])"
proof -
  have s: "inventory placed_player (seedInventoryKey WHEAT) = 50"
      "inventory placed_player wheatSeeds = 50"
    by (simp_all add: placed_player_def initial_player_def seedInventoryKey_def)
  have "\<exists>p w m. handlePlantCrop placed_player field_tilled WHEAT 0 = Inr (p, w, m)"
    by (simp add: handlePlantCrop_def placed_player_tile length_field_tilled
        getTile_field_tilled s WORLD_HEIGHT_TILES_def WORLD_WIDTH_TILES_def)
  then have "handlePlantCrop placed_player field_tilled WHEAT 0 =
         Inr (fst (projr (handlePlantCrop placed_player field_tilled WHEAT 0)), field_planted,
              snd (snd (projr (handlePlantCrop placed_player field_tilled WHEAT 0))))"
    by (auto simp: field_planted_def)
  moreover have "fst (projr (handlePlantCrop placed_player field_tilled WHEAT 0)) =
       placed_player\<lparr>inventory := (inventory placed_player)(wheatSeeds := 49)\<rparr>"
    by (simp add: handlePlantCrop_def placed_player_tile length_field_tilled
        getTile_field_tilled s WORLD_HEIGHT_TILES_def WORLD_WIDTH_TILES_def seedInventoryKey_def)
  moreover have "snd (snd (projr (handlePlantCrop placed_player field_tilled WHEAT 0))) =
       [(''Wheat planted!'', 1500)]"
    by (simp add: handlePlantCrop_def placed_player_tile length_field_tilled
        getTile_field_tilled s WORLD_HEIGHT_TILES_def WORLD_WIDTH_TILES_def cropName_WHEAT)
  ultimately show ?thesis by simp
qed

lemma reachable_field_planted: "reachable field_planted"
  using reachable_field_tilled plant_field_tilled by (rule reachable.planted)

lemma getTile_field_planted:
  "getTile field_planted 22 37 =
     Inr \<lparr>tile.type = CROP_PLANTED,
          crop = Some \<lparr>crop.type = WHEAT, stage = 0, plantedTime = 0\<rparr>\<rparr>"
proof -
  have s: "inventory placed_player (seedInventoryKey WHEAT) = 50"
    by (simp add: placed_player_def initial_player_def seedInventoryKey_def)
  have fp: "field_planted = mapWorld (\<lambda>ty tx t'. if tx = 37 \<and> ty = 22
           then t'\<lparr>tile.type := CROP_PLANTED,
                   crop := Some \<lparr>crop.type = WHEAT, stage = SEED, plantedTime = 0\<rparr>\<rparr>
           else t') field_tilled"
    by (simp add: field_planted_def handlePlantCrop_def placed_player_tile length_field_tilled
        getTile_field_tilled s WORLD_HEIGHT_TILES_def WORLD_WIDTH_TILES_def)
  show ?thesis
    by (simp add: fp getTile_mapWorld getTile_field_tilled SEED_def)
qed

lemma grow_field_planted: "updateCropGrowth 5000 field_planted = Inr field_young"
  using updateCropGrowth_pointwise [OF reachable_worldInv [OF reachable_field_planted], of 5000]
  by (auto simp: field_young_def)

lemma reachable_field_young: "reachable field_young"
  using reachable_field_planted grow_field_planted by (rule reachable.grown)

lemma getTile_field_young:
  "getTile field_young 22 37 =
     Inr \<lparr>tile.type = CROP_PLANTED,
          crop = Some \<lparr>crop.type = WHEAT, stage = 1, plantedTime = 0\<rparr>\<rparr>"
  using updateCropGrowth_pointwise [OF reachable_worldInv [OF reachable_field_planted], of 5000]
  by (auto simp: grow_field_planted getTile_field_planted grownTile_def
        GROWTH_TIME_PER_STAGE_def MATURE_def)

lemma grow_field_young: "updateCropGrowth 10000 field_young = Inr field_grown"
  using updateCropGrowth_pointwise [OF reachable_worldInv [OF reachable_field_young], of 10000]
  by (auto simp: field_grown_def)

lemma reachable_field_grown: "reachable field_grown"
  using reachable_field_young grow_field_young by (rule reachable.grown)

lemma getTile_field_grown:
  "getTile field_grown 22 37 =
     Inr \<lparr>tile.type = CROP_GROWN,
          crop = Some \<lparr>crop.type = WHEAT, stage = 2, plantedTime = 0\<rparr>\<rparr>"
  using updateCropGrowth_pointwise [OF reachable_worldInv [OF reachable_field_young], of 10000]
  by (auto simp: grow_field_young getTile_field_young grownTile_def
        GROWTH_TIME_PER_STAGE_def MATURE_def)

section \<open>Tile well-formedness is an invariant\<close>

text \<open>
  Claim C1. In every world reachable from the generated world by tilling, planting,
  harvesting, the automated actions of plow, seeder and combine, and crop growth, every
  tile of the grid has a crop only if its type is \<open>CROP_PLANTED\<close> or \<open>CROP_GROWN\<close>, and a
  tile of type \<open>CROP_GROWN\<close> has a crop whose stage is \<open>MATURE\<close>.
\<close>

theorem reachable_tiles_well_formed:
  assumes "reachable w" and "getTile w ty tx = Inr t"
  shows "(tile.crop t \<noteq> None \<longrightarrow> tile.type t = CROP_PLANTED \<or> tile.type t = CROP_GROWN) \<and>
         (tile.type t = CROP_GROWN \<longrightarrow> (\<exists>c. tile.crop t = Some c \<and> stage c = MATURE))"
  using getTile_worldInv [OF reachable_worldInv [OF assms(1)] assms(2)]
  by (auto simp: tileInv_def split: option.splits)

theorem reachable_tiles_well_formed_witness:
  "reachable field_grown \<and>
   getTile field_grown 22 37 =
     Inr \<lparr>tile.type = CROP_GROWN,
          crop = Some \<lparr>crop.type = WHEAT, stage = 2, plantedTime = 0\<rparr>\<rparr> \<and>
   (\<exists>c. tile.crop \<lparr>tile.type = CROP_GROWN,
          crop = Some \<lparr>crop.type = WHEAT, stage = 2, plantedTime = 0\<rparr>\<rparr> = Some c \<and>
        stage c = MATURE)"
  using reachable_tiles_well_formed [OF reachable_field_grown getTile_field_grown]
    reachable_field_grown getTile_field_grown
  by simp

section \<open>One stage in a tick\<close>




lemma growthTicks_field_planted:
  "growthTicks [5000, 10000] field_planted = Inr field_grown"
  by (simp add: grow_field_planted grow_field_young)


section \<open>Harvests and the storage\<close>

lemma cropKey_cases: "cropKey k = wheat \<or> cropKey k = corn \<or> cropKey k = potato"
  by (cases k) (simp_all add: cropKey_def)

text \<open>The manual harvest tests the player that it credits: it keeps the crop counts within
  the storage, and it changes a count only by adding one unit to a count that was
  strictly below \<^verbatim>\<open>maxStorage\<close>.\<close>

lemma handleHarvestCrop_storage:
  assumes "withinStorage p" and "handleHarvestCrop p w = Inr (p', w', msgs)"
  shows "withinStorage p' \<and>
         (\<forall>r. inventory p' r \<noteq> inventory p r \<longrightarrow>
            inventory p r < maxStorage p \<and> inventory p' r = inventory p r + 1)"
proof (cases "p' = p")
  case True
  with assms(1) show ?thesis by simp
next
  case False
  with assms(2) obtain k where
    k: "inventory p (cropKey k) < maxStorage p" and
    p': "p' = p\<lparr>inventory := (inventory p)(cropKey k := inventory p (cropKey k) + 1)\<rparr>"
    by (auto simp: handleHarvestCrop_def Let_def split: if_splits sum.splits option.splits)
  from assms(1) k cropKey_cases [of k] show ?thesis
    unfolding p' by (auto simp: withinStorage_def)
qed

text \<open>The counts of one pass of the combine: none is negative, and a crop kind credited
  in this pass stays within the storage together with the count of the inventory.\<close>

lemma combineStep_cases:
  assumes "combineStep p combineY tx (w, hc, ms) = Inr (b, st')"
  shows "fst (snd st') = hc \<or>
         (\<exists>c. inventory p (cropKey c) + hc c < maxStorage p \<and>
              fst (snd st') = hc (c := hc c + 1))"
proof (cases "combineY < WORLD_HEIGHT_TILES \<and> tx \<ge> 0 \<and> tx < WORLD_WIDTH_TILES")
  case False
  with assms show ?thesis by (auto simp: combineStep_def)
next
  case inside: True
  show ?thesis
  proof (cases "getTile w combineY tx")
    case (Inl err)
    with assms inside show ?thesis by (simp add: combineStep_def)
  next
    case (Inr t)
    show ?thesis
    proof (cases "tile.crop t")
      case None
      with assms inside Inr show ?thesis by (auto simp: combineStep_def)
    next
      case (Some c)
      show ?thesis
      proof (cases "tile.type t = CROP_GROWN \<and> stage c = MATURE")
        case False
        with assms inside Inr Some show ?thesis by (auto simp: combineStep_def)
      next
        case ripe: True
        show ?thesis
        proof (cases "inventory p (cropKey (crop.type c)) + hc (crop.type c) < maxStorage p")
          case False
          with assms inside Inr Some ripe show ?thesis by (auto simp: combineStep_def)
        next
          case True
          with assms inside Inr Some ripe
          have "fst (snd st') = hc (crop.type c := hc (crop.type c) + 1)"
            by (auto simp: combineStep_def)
          with True show ?thesis by blast
        qed
      qed
    qed
  qed
qed

lemma combineStep_counts:
  assumes "combineStep p combineY tx st = Inr (b, st')"
    and "\<forall>k. 0 \<le> fst (snd st) k \<and>
           (fst (snd st) k = 0 \<or> inventory p (cropKey k) + fst (snd st) k \<le> maxStorage p)"
  shows "\<forall>k. 0 \<le> fst (snd st') k \<and>
           (fst (snd st') k = 0 \<or> inventory p (cropKey k) + fst (snd st') k \<le> maxStorage p)"
proof -
  obtain w hc ms where st: "st = (w, hc, ms)" by (cases st) auto
  from assms(2) have hc: "\<And>k. 0 \<le> hc k \<and> (hc k = 0 \<or> inventory p (cropKey k) + hc k \<le> maxStorage p)"
    by (simp add: st)
  from combineStep_cases [OF assms(1) [unfolded st]]
  show ?thesis
  proof
    assume "fst (snd st') = hc"
    with hc show ?thesis by simp
  next
    assume "\<exists>c. inventory p (cropKey c) + hc c < maxStorage p \<and>
              fst (snd st') = hc (c := hc c + 1)"
    then obtain c where c: "inventory p (cropKey c) + hc c < maxStorage p"
      and h: "fst (snd st') = hc (c := hc c + 1)" by blast
    show ?thesis
    proof
      fix k
      show "0 \<le> fst (snd st') k \<and>
           (fst (snd st') k = 0 \<or> inventory p (cropKey k) + fst (snd st') k \<le> maxStorage p)"
      proof (cases "k = c")
        case True
        with hc [of c] c show ?thesis by (simp add: h)
      next
        case False
        with hc [of k] show ?thesis by (simp add: h)
      qed
    qed
  qed
qed

lemma combineLoop_counts:
  "combineLoop p combineY maxX tx st = Inr st' \<Longrightarrow>
   \<forall>k. 0 \<le> fst (snd st) k \<and>
      (fst (snd st) k = 0 \<or> inventory p (cropKey k) + fst (snd st) k \<le> maxStorage p) \<Longrightarrow>
   \<forall>k. 0 \<le> fst (snd st') k \<and>
      (fst (snd st') k = 0 \<or> inventory p (cropKey k) + fst (snd st') k \<le> maxStorage p)"
proof (induction p combineY maxX tx st rule: combineLoop.induct)
  case (1 player combineY maxX tx st)
  show ?case
  proof (cases "tx < maxX")
    case False
    with "1.prems" show ?thesis
      by (simp add: combineLoop.simps [of player combineY maxX tx])
  next
    case True
    with "1.prems"(1) obtain b s1 where
      s: "combineStep player combineY tx st = Inr (b, s1)" and
      r: "(if b then combineLoop player combineY maxX (tx + 1) s1 else Inr s1) = Inr st'"
      by (auto simp: combineLoop.simps [of player combineY maxX tx] split: sum.splits)
    note i = combineStep_counts [OF s "1.prems"(2)]
    show ?thesis
    proof (cases b)
      case True
      with r have "combineLoop player combineY maxX (tx + 1) s1 = Inr st'" by simp
      from "1.IH" [OF \<open>tx < maxX\<close> s refl True this i] show ?thesis .
    next
      case False
      with r i show ?thesis by simp
    qed
  qed
qed

text \<open>A pass whose closure is not behind the state: the player it reads has the
  \<^verbatim>\<open>maxStorage\<close> of the player it credits and no smaller crop count. Then the pass keeps
  the crop counts within the storage.\<close>

lemma applyCombineAction_storage:
  assumes "withinStorage q" and "maxStorage p = maxStorage q"
    and "\<And>k. inventory q (cropKey k) \<le> inventory p (cropKey k)"
    and "applyCombineAction cb p q w = Inr (p', w', msgs)"
  shows "withinStorage p'"
proof (cases "\<not> isInVehicle cb \<or> vx cb = 0 \<or> fuel cb \<le> 0 \<or> length w = 0")
  case True
  with assms show ?thesis
    by (auto simp: applyCombineAction_def split: if_splits)
next
  case False
  with assms(4) obtain cy mx mn hc ms where
    l: "combineLoop p cy mx mn (w, (\<lambda>k. 0), []) = Inr (w', hc, ms)" and
    p': "p' = (if hc WHEAT > 0 \<or> hc CORN > 0 \<or> hc POTATO > 0
               then q\<lparr>inventory := (inventory q)
                       (wheat := inventory q wheat + hc WHEAT,
                        corn := inventory q corn + hc CORN,
                        potato := inventory q potato + hc POTATO)\<rparr>
               else q)"
    by (auto simp: applyCombineAction_def Let_def split: sum.splits if_splits)
  from combineLoop_counts [OF l] have
    c: "\<And>k. 0 \<le> hc k \<and> (hc k = 0 \<or> inventory p (cropKey k) + hc k \<le> maxStorage p)"
    by simp
  from c [of WHEAT] c [of CORN] c [of POTATO] assms(1,2)
    assms(3) [of WHEAT] assms(3) [of CORN] assms(3) [of POTATO]
  show ?thesis
    unfolding p' by (auto simp: withinStorage_def cropKey_def)
qed

lemma pointwise_field_young:
  "getTile field_young ty tx = map_sum id (grownTile 5000) (getTile field_planted ty tx)"
  using updateCropGrowth_pointwise [OF reachable_worldInv [OF reachable_field_planted], of 5000]
  by (auto simp: grow_field_planted)

lemma pointwise_field_grown:
  "getTile field_grown ty tx = map_sum id (grownTile 10000) (getTile field_young ty tx)"
  using updateCropGrowth_pointwise [OF reachable_worldInv [OF reachable_field_young], of 10000]
  by (auto simp: grow_field_young)

lemma grownTile_generateTile: "grownTile now (generateTile ty) = generateTile ty"
  by (simp add: grownTile_def generateTile_def)

lemma field_planted_eq:
  "field_planted = mapWorld (\<lambda>ty tx t'. if tx = 37 \<and> ty = 22
           then t'\<lparr>tile.type := CROP_PLANTED,
                   crop := Some \<lparr>crop.type = WHEAT, stage = SEED, plantedTime = 0\<rparr>\<rparr>
           else t') field_tilled"
  using plant_field_tilled
  by (simp add: handlePlantCrop_def placed_player_tile length_field_tilled
        getTile_field_tilled WORLD_HEIGHT_TILES_def WORLD_WIDTH_TILES_def split: if_splits)

lemma getTile_field_grown_38:
  "getTile field_grown 22 38 = Inr \<lparr>tile.type = GRASS, crop = None\<rparr>"
proof -
  have g: "getTile generateWorld 22 38 = Inr (generateTile 22)"
    by (rule getTile_generateWorld) (simp_all add: WORLD_HEIGHT_TILES_def WORLD_WIDTH_TILES_def)
  have t: "generateTile 22 = \<lparr>tile.type = GRASS, crop = None\<rparr>"
    by (simp add: generateTile_def groundStartRow_eq)
  have "getTile field_planted 22 38 = Inr (generateTile 22)"
    by (simp add: field_planted_eq field_tilled_eq getTile_mapWorld g tillable_def)
  then have "getTile field_grown 22 38 = Inr (generateTile 22)"
    by (simp add: pointwise_field_grown pointwise_field_young grownTile_generateTile)
  with t show ?thesis by simp
qed

lemma length_field_grown: "length field_grown = 30"
  using reachable_worldInv [OF reachable_field_grown]
  by (simp add: worldInv_def WORLD_HEIGHT_TILES_def)

lemma harvesting_combine_fields:
  "isInVehicle harvesting_combine" "vx harvesting_combine = 2" "fuel harvesting_combine = 100"
  "x harvesting_combine = 640" "y harvesting_combine = 380" "width harvesting_combine = 100"
  "height harvesting_combine = 60" "facing harvesting_combine = FacingRight"
  by (simp_all add: harvesting_combine_def placed_combineHarvester_def
        initial_combineHarvester_def groundStartRow_eq TILE_SIZE_def)

text \<open>The strip of two tiles of ripe wheat, the driver with 99 units of wheat, and the two
  passes of one callback of the combine over the strip.\<close>

lemma stepped_player_tile:
  "playerTileX stepped_player = 38" "playerTileY stepped_player = 22"
  "\<not> isInVehicle stepped_player"
  by (simp_all add: playerTileX_def playerTileY_def stepped_player_def placed_player_def
        initial_player_def groundStartRow_eq WORLD_WIDTH_PIXELS_def WORLD_WIDTH_TILES_def
        TILE_SIZE_def)

lemma strip_tilled_eq:
  "strip_tilled = mapWorld (\<lambda>ty tx t. if tillable 38 22 ty tx t
                     then t\<lparr>tile.type := TILLED\<rparr> else t) field_grown"
  by (simp add: strip_tilled_def handleTillSoil_def stepped_player_tile length_field_grown
        WORLD_HEIGHT_TILES_def WORLD_WIDTH_TILES_def)

lemma reachable_strip_tilled: "reachable strip_tilled"
proof -
  have "handleTillSoil stepped_player field_grown =
        (fst (handleTillSoil stepped_player field_grown), strip_tilled,
         snd (snd (handleTillSoil stepped_player field_grown)))"
    by (simp add: strip_tilled_def)
  with reachable_field_grown show ?thesis by (rule reachable.tilled)
qed

lemma getTile_strip_tilled:
  "getTile strip_tilled 22 37 =
     Inr \<lparr>tile.type = CROP_GROWN,
          crop = Some \<lparr>crop.type = WHEAT, stage = 2, plantedTime = 0\<rparr>\<rparr>"
  "getTile strip_tilled 22 38 = Inr \<lparr>tile.type = TILLED, crop = None\<rparr>"
  by (simp_all add: strip_tilled_eq getTile_mapWorld getTile_field_grown getTile_field_grown_38
        tillable_def)

lemma length_strip_tilled: "length strip_tilled = 30"
  by (simp add: strip_tilled_eq length_field_grown)

lemma stepped_player_seeds: "inventory stepped_player (seedInventoryKey WHEAT) = 50"
  by (simp add: stepped_player_def placed_player_def initial_player_def seedInventoryKey_def)

lemma strip_planted_eq:
  "strip_planted = mapWorld (\<lambda>ty tx t'. if tx = 38 \<and> ty = 22
           then t'\<lparr>tile.type := CROP_PLANTED,
                   crop := Some \<lparr>crop.type = WHEAT, stage = SEED, plantedTime = 10000\<rparr>\<rparr>
           else t') strip_tilled"
  by (simp add: strip_planted_def handlePlantCrop_def stepped_player_tile length_strip_tilled
        getTile_strip_tilled stepped_player_seeds WORLD_HEIGHT_TILES_def WORLD_WIDTH_TILES_def)

lemma reachable_strip_planted: "reachable strip_planted"
proof -
  have "\<exists>p w m. handlePlantCrop stepped_player strip_tilled WHEAT 10000 = Inr (p, w, m)"
    by (simp add: handlePlantCrop_def stepped_player_tile length_strip_tilled
        getTile_strip_tilled stepped_player_seeds WORLD_HEIGHT_TILES_def WORLD_WIDTH_TILES_def)
  then have "handlePlantCrop stepped_player strip_tilled WHEAT 10000 =
         Inr (fst (projr (handlePlantCrop stepped_player strip_tilled WHEAT 10000)), strip_planted,
              snd (snd (projr (handlePlantCrop stepped_player strip_tilled WHEAT 10000))))"
    by (auto simp: strip_planted_def)
  with reachable_strip_tilled show ?thesis by (rule reachable.planted)
qed

lemma getTile_strip_planted:
  "getTile strip_planted 22 37 =
     Inr \<lparr>tile.type = CROP_GROWN,
          crop = Some \<lparr>crop.type = WHEAT, stage = 2, plantedTime = 0\<rparr>\<rparr>"
  "getTile strip_planted 22 38 =
     Inr \<lparr>tile.type = CROP_PLANTED,
          crop = Some \<lparr>crop.type = WHEAT, stage = 0, plantedTime = 10000\<rparr>\<rparr>"
  by (simp_all add: strip_planted_eq getTile_mapWorld getTile_strip_tilled SEED_def)

lemma grow_strip_planted: "updateCropGrowth 15000 strip_planted = Inr strip_young"
  using updateCropGrowth_pointwise [OF reachable_worldInv [OF reachable_strip_planted], of 15000]
  by (auto simp: strip_young_def)

lemma reachable_strip_young: "reachable strip_young"
  using reachable_strip_planted grow_strip_planted by (rule reachable.grown)

lemma getTile_strip_young:
  "getTile strip_young 22 37 =
     Inr \<lparr>tile.type = CROP_GROWN,
          crop = Some \<lparr>crop.type = WHEAT, stage = 2, plantedTime = 0\<rparr>\<rparr>"
  "getTile strip_young 22 38 =
     Inr \<lparr>tile.type = CROP_PLANTED,
          crop = Some \<lparr>crop.type = WHEAT, stage = 1, plantedTime = 10000\<rparr>\<rparr>"
  using updateCropGrowth_pointwise [OF reachable_worldInv [OF reachable_strip_planted], of 15000]
  by (auto simp: grow_strip_planted getTile_strip_planted grownTile_def
        GROWTH_TIME_PER_STAGE_def MATURE_def)

lemma grow_strip_young: "updateCropGrowth 20000 strip_young = Inr strip_grown"
  using updateCropGrowth_pointwise [OF reachable_worldInv [OF reachable_strip_young], of 20000]
  by (auto simp: strip_grown_def)

lemma reachable_strip_grown: "reachable strip_grown"
  using reachable_strip_young grow_strip_young by (rule reachable.grown)

lemma getTile_strip_grown:
  "getTile strip_grown 22 37 =
     Inr \<lparr>tile.type = CROP_GROWN,
          crop = Some \<lparr>crop.type = WHEAT, stage = 2, plantedTime = 0\<rparr>\<rparr>"
  "getTile strip_grown 22 38 =
     Inr \<lparr>tile.type = CROP_GROWN,
          crop = Some \<lparr>crop.type = WHEAT, stage = 2, plantedTime = 10000\<rparr>\<rparr>"
  using updateCropGrowth_pointwise [OF reachable_worldInv [OF reachable_strip_young], of 20000]
  by (auto simp: grow_strip_young getTile_strip_young grownTile_def
        GROWTH_TIME_PER_STAGE_def MATURE_def)

lemma length_strip_grown: "length strip_grown = 30"
  using reachable_worldInv [OF reachable_strip_grown]
  by (simp add: worldInv_def WORLD_HEIGHT_TILES_def)

lemma combine_driver_storage:
  "inventory combine_driver wheat = 99" "inventory combine_driver corn = 0"
  "inventory combine_driver potato = 0" "maxStorage combine_driver = 100"
  by (simp_all add: combine_driver_def placed_player_def initial_player_def)

lemma withinStorage_combine_driver: "withinStorage combine_driver"
  by (simp add: withinStorage_def combine_driver_storage)

lemma first_pass_37:
  "combineStep combine_driver 22 37 (strip_grown, (\<lambda>k. 0), []) =
     Inr (True, setTile strip_grown 22 37 \<lparr>tile.type = TILLED, crop = None\<rparr>,
          (\<lambda>k. 0)(WHEAT := 1), [])"
  by (simp add: combineStep_def getTile_strip_grown MATURE_def cropKey_def
        combine_driver_storage WORLD_HEIGHT_TILES_def WORLD_WIDTH_TILES_def)

lemma first_pass_38:
  "combineStep combine_driver 22 38
      (setTile strip_grown 22 37 \<lparr>tile.type = TILLED, crop = None\<rparr>, (\<lambda>k. 0)(WHEAT := 1), []) =
     Inr (False, setTile strip_grown 22 37 \<lparr>tile.type = TILLED, crop = None\<rparr>,
          (\<lambda>k. 0)(WHEAT := 1), [(''Storage full! Cannot harvest more.'', 1500)])"
  by (simp add: combineStep_def getTile_setTile [OF getTile_strip_grown(1)] getTile_strip_grown
        MATURE_def cropKey_def combine_driver_storage WORLD_HEIGHT_TILES_def WORLD_WIDTH_TILES_def)

lemma first_pass_loop:
  "combineLoop combine_driver 22 39 37 (strip_grown, (\<lambda>k. 0), []) =
     Inr (setTile strip_grown 22 37 \<lparr>tile.type = TILLED, crop = None\<rparr>, (\<lambda>k. 0)(WHEAT := 1),
          [(''Storage full! Cannot harvest more.'', 1500)])"
  by (simp add: combineLoop.simps [of _ _ 39 37] combineLoop.simps [of _ _ 39 38]
        first_pass_37 first_pass_38)

lemma first_pass_eq:
  "first_pass =
     Inr (combine_driver\<lparr>inventory := (inventory combine_driver)(wheat := 100, corn := 0, potato := 0)\<rparr>,
          setTile strip_grown 22 37 \<lparr>tile.type = TILLED, crop = None\<rparr>,
          [(''Storage full! Cannot harvest more.'', 1500), (''Harvested with combine!'', 1500)])"
  by (simp add: first_pass_def applyCombineAction_def harvesting_combine_fields length_strip_grown
        TILE_SIZE_def first_pass_loop combine_driver_storage)

lemma getTile_first_pass:
  "getTile (setTile strip_grown 22 37 \<lparr>tile.type = TILLED, crop = None\<rparr>) 22 37 =
     Inr \<lparr>tile.type = TILLED, crop = None\<rparr>"
  "getTile (setTile strip_grown 22 37 \<lparr>tile.type = TILLED, crop = None\<rparr>) 22 38 =
     Inr \<lparr>tile.type = CROP_GROWN,
          crop = Some \<lparr>crop.type = WHEAT, stage = 2, plantedTime = 10000\<rparr>\<rparr>"
  by (simp_all add: getTile_setTile [OF getTile_strip_grown(1)] getTile_strip_grown)

lemma second_pass_37:
  "combineStep combine_driver 22 37
      (setTile strip_grown 22 37 \<lparr>tile.type = TILLED, crop = None\<rparr>, (\<lambda>k. 0), []) =
     Inr (True, setTile strip_grown 22 37 \<lparr>tile.type = TILLED, crop = None\<rparr>, (\<lambda>k. 0), [])"
  by (simp add: combineStep_def getTile_first_pass WORLD_HEIGHT_TILES_def WORLD_WIDTH_TILES_def)

lemma second_pass_38:
  "combineStep combine_driver 22 38
      (setTile strip_grown 22 37 \<lparr>tile.type = TILLED, crop = None\<rparr>, (\<lambda>k. 0), []) =
     Inr (True,
          setTile (setTile strip_grown 22 37 \<lparr>tile.type = TILLED, crop = None\<rparr>) 22 38
            \<lparr>tile.type = TILLED, crop = None\<rparr>,
          (\<lambda>k. 0)(WHEAT := 1), [])"
  by (simp add: combineStep_def getTile_first_pass MATURE_def cropKey_def
        combine_driver_storage WORLD_HEIGHT_TILES_def WORLD_WIDTH_TILES_def)

lemma second_pass_loop:
  "combineLoop combine_driver 22 39 37
      (setTile strip_grown 22 37 \<lparr>tile.type = TILLED, crop = None\<rparr>, (\<lambda>k. 0), []) =
     Inr (setTile (setTile strip_grown 22 37 \<lparr>tile.type = TILLED, crop = None\<rparr>) 22 38
            \<lparr>tile.type = TILLED, crop = None\<rparr>,
          (\<lambda>k. 0)(WHEAT := 1), [])"
  by (simp add: combineLoop.simps [of _ _ 39 37] combineLoop.simps [of _ _ 39 38]
        combineLoop.simps [of _ _ 39 39] second_pass_37 second_pass_38)

lemma length_first_pass_world:
  "length (setTile strip_grown 22 37 \<lparr>tile.type = TILLED, crop = None\<rparr>) = 30"
  by (simp add: setTile_def length_strip_grown)

lemma second_pass_eq:
  "second_pass =
     Inr (combine_driver\<lparr>inventory := (inventory combine_driver)(wheat := 101, corn := 0, potato := 0)\<rparr>,
          setTile (setTile strip_grown 22 37 \<lparr>tile.type = TILLED, crop = None\<rparr>) 22 38
            \<lparr>tile.type = TILLED, crop = None\<rparr>,
          [(''Harvested with combine!'', 1500)])"
proof -
  have "setTile strip_grown 22 37 \<lparr>tile.type = TILLED, crop = None\<rparr> \<noteq> []"
    using length_first_pass_world by auto
  then show ?thesis
    by (simp add: second_pass_def first_pass_eq applyCombineAction_def harvesting_combine_fields
          TILE_SIZE_def second_pass_loop combine_driver_storage)
qed

text \<open>
  Claim C4, at two passes of one callback of the combine harvester. The driver holds 99
  units of wheat in a storage of 100, and the header of the combine is over two tiles of
  ripe wheat in a reachable world. The first pass harvests the first tile, refuses the
  second one with the status \<^verbatim>\<open>Storage full! Cannot harvest more.\<close> and credits one unit:
  the player holds 100 units, within the storage. The second pass still reads 99 units
  in the player of its closure, harvests the second tile and credits one unit to the
  player of 100 units: the player holds 101 units of wheat, above \<^verbatim>\<open>maxStorage\<close>, after
  a pass that started from crop counts within the storage.
\<close>

theorem combine_second_pass_overfills:
  "reachable strip_grown \<and> withinStorage combine_driver \<and>
   inventory combine_driver wheat = 99 \<and> maxStorage combine_driver = 100 \<and>
   first_pass =
     Inr (combine_driver\<lparr>inventory := (inventory combine_driver)(wheat := 100, corn := 0, potato := 0)\<rparr>,
          setTile strip_grown 22 37 \<lparr>tile.type = TILLED, crop = None\<rparr>,
          [(''Storage full! Cannot harvest more.'', 1500), (''Harvested with combine!'', 1500)]) \<and>
   withinStorage
     (combine_driver\<lparr>inventory := (inventory combine_driver)(wheat := 100, corn := 0, potato := 0)\<rparr>) \<and>
   second_pass =
     Inr (combine_driver\<lparr>inventory := (inventory combine_driver)(wheat := 101, corn := 0, potato := 0)\<rparr>,
          setTile (setTile strip_grown 22 37 \<lparr>tile.type = TILLED, crop = None\<rparr>) 22 38
            \<lparr>tile.type = TILLED, crop = None\<rparr>,
          [(''Harvested with combine!'', 1500)]) \<and>
   \<not> withinStorage
     (combine_driver\<lparr>inventory := (inventory combine_driver)(wheat := 101, corn := 0, potato := 0)\<rparr>)"
  using reachable_strip_grown withinStorage_combine_driver first_pass_eq second_pass_eq
  by (simp add: withinStorage_def combine_driver_storage)

section \<open>Refused manual field work\<close>

lemma reachable_shape:
  assumes "reachable w" and "getTile w ty tx = Inr t"
  shows "ty < WORLD_HEIGHT_TILES \<and> tx < WORLD_WIDTH_TILES \<and> length w \<noteq> 0"
proof -
  note i = reachable_worldInv [OF assms(1)]
  note d = getTile_InrD [OF assms(2)]
  from d have "w ! nat ty \<in> set w" by simp
  with i have "int (length (w ! nat ty)) = WORLD_WIDTH_TILES"
    by (simp add: worldInv_def list_all_iff)
  moreover from i have "int (length w) = WORLD_HEIGHT_TILES"
    by (simp add: worldInv_def)
  ultimately show ?thesis using d by auto
qed

lemma handlePlantCrop_refused:
  assumes "reachable w" and "getTile w (playerTileY p) (playerTileX p) = Inr t"
    and "\<not> (tile.type t = TILLED \<and> tile.crop t = None)"
  shows "handlePlantCrop p w k now =
           Inr (p, w, if isInVehicle p then []
                      else if tile.crop t \<noteq> None then [(''Already something here!'', 1000)]
                      else [(''Needs tilled soil!'', 1000)])"
  using reachable_shape [OF assms(1,2)] assms(2,3)
  by (auto simp: handlePlantCrop_def Let_def)

lemma handleHarvestCrop_refused:
  assumes "reachable w" and "getTile w (playerTileY p) (playerTileX p) = Inr t"
    and "\<not> (tile.type t = CROP_GROWN \<and> (\<exists>c. tile.crop t = Some c \<and> stage c = MATURE))"
  shows "handleHarvestCrop p w =
           Inr (p, w, if isInVehicle p then []
                      else if \<exists>c. tile.crop t = Some c \<and> stage c \<noteq> MATURE
                      then [(''Crop not mature yet!'', 1000)]
                      else [(''Nothing to harvest here!'', 1000)])"
  using reachable_shape [OF assms(1,2)] assms(2,3)
  by (auto simp: handleHarvestCrop_def Let_def split: option.splits)

lemma handlePlantCrop_changes:
  assumes "handlePlantCrop p w k now = Inr (p', w', msgs)" and "p' \<noteq> p \<or> w' \<noteq> w"
  shows "\<exists>t. getTile w (playerTileY p) (playerTileX p) = Inr t \<and> tile.type t = TILLED \<and>
           tile.crop t = None \<and> 0 < inventory p (seedInventoryKey k) \<and> \<not> isInVehicle p"
  using assms
  by (auto simp: handlePlantCrop_def Let_def split: if_splits sum.splits)

lemma handleHarvestCrop_changes:
  assumes "handleHarvestCrop p w = Inr (p', w', msgs)" and "p' \<noteq> p \<or> w' \<noteq> w"
  shows "\<exists>t c. getTile w (playerTileY p) (playerTileX p) = Inr t \<and> tile.type t = CROP_GROWN \<and>
           tile.crop t = Some c \<and> stage c = MATURE \<and>
           inventory p (cropKey (crop.type c)) < maxStorage p \<and> \<not> isInVehicle p"
  using assms
  by (auto simp: handleHarvestCrop_def Let_def split: if_splits sum.splits option.splits)

text \<open>
  Claim C5, as the code has it. In a reachable world, for a player whose target tile is
  a tile of the grid: if the tile is not tilled soil without crop, planting returns the
  player and the world unchanged; if the tile is not a grown tile with a mature crop,
  harvesting returns the player and the world unchanged; either refusal emits a status
  message exactly when the player is on foot, and none when the player is in a vehicle.
  Planting changes the player or the world only on tilled soil without crop and with a
  positive count of seeds of the selected crop, harvesting only on a grown tile with a
  mature crop.
\<close>

theorem manual_work_preconditions:
  assumes "reachable w" and "getTile w (playerTileY p) (playerTileX p) = Inr t"
  shows "(\<not> (tile.type t = TILLED \<and> tile.crop t = None) \<longrightarrow>
            (\<exists>msgs. handlePlantCrop p w k now = Inr (p, w, msgs) \<and>
                    (msgs = [] \<longleftrightarrow> isInVehicle p))) \<and>
         (\<not> (tile.type t = CROP_GROWN \<and> (\<exists>c. tile.crop t = Some c \<and> stage c = MATURE)) \<longrightarrow>
            (\<exists>msgs. handleHarvestCrop p w = Inr (p, w, msgs) \<and>
                    (msgs = [] \<longleftrightarrow> isInVehicle p))) \<and>
         (handlePlantCrop p w k now = Inr (p', w', ms) \<and> (p' \<noteq> p \<or> w' \<noteq> w) \<longrightarrow>
            tile.type t = TILLED \<and> tile.crop t = None \<and>
            0 < inventory p (seedInventoryKey k)) \<and>
         (handleHarvestCrop p w = Inr (p'', w'', ms') \<and> (p'' \<noteq> p \<or> w'' \<noteq> w) \<longrightarrow>
            tile.type t = CROP_GROWN \<and> (\<exists>c. tile.crop t = Some c \<and> stage c = MATURE))"
proof (intro conjI impI)
  assume "\<not> (tile.type t = TILLED \<and> tile.crop t = None)"
  from handlePlantCrop_refused [OF assms this, of k now]
  show "\<exists>msgs. handlePlantCrop p w k now = Inr (p, w, msgs) \<and> (msgs = [] \<longleftrightarrow> isInVehicle p)"
    by simp
next
  assume "\<not> (tile.type t = CROP_GROWN \<and> (\<exists>c. tile.crop t = Some c \<and> stage c = MATURE))"
  from handleHarvestCrop_refused [OF assms this]
  show "\<exists>msgs. handleHarvestCrop p w = Inr (p, w, msgs) \<and> (msgs = [] \<longleftrightarrow> isInVehicle p)"
    by simp
next
  assume a: "handlePlantCrop p w k now = Inr (p', w', ms) \<and> (p' \<noteq> p \<or> w' \<noteq> w)"
  from handlePlantCrop_changes [of p w k now p' w' ms] a assms(2)
  show "tile.type t = TILLED" "tile.crop t = None" "0 < inventory p (seedInventoryKey k)"
    by auto
next
  assume a: "handleHarvestCrop p w = Inr (p'', w'', ms') \<and> (p'' \<noteq> p \<or> w'' \<noteq> w)"
  from handleHarvestCrop_changes [of p w p'' w'' ms'] a assms(2)
  show "tile.type t = CROP_GROWN" "\<exists>c. tile.crop t = Some c \<and> stage c = MATURE"
    by auto
qed

lemma getTile_under_placed_player:
  "getTile generateWorld (playerTileY placed_player) (playerTileX placed_player) =
     Inr \<lparr>tile.type = GRASS, crop = None\<rparr>"
proof -
  have "getTile generateWorld 22 37 = Inr (generateTile 22)"
    by (rule getTile_generateWorld) (simp_all add: WORLD_HEIGHT_TILES_def WORLD_WIDTH_TILES_def)
  then show ?thesis
    by (simp add: placed_player_tile generateTile_def groundStartRow_eq)
qed

theorem manual_work_preconditions_witness:
  "reachable generateWorld \<and>
   getTile generateWorld (playerTileY placed_player) (playerTileX placed_player) =
     Inr \<lparr>tile.type = GRASS, crop = None\<rparr> \<and>
   (\<exists>msgs. handlePlantCrop placed_player generateWorld WHEAT 0 =
             Inr (placed_player, generateWorld, msgs) \<and> msgs \<noteq> []) \<and>
   (\<exists>msgs. handleHarvestCrop placed_player generateWorld =
             Inr (placed_player, generateWorld, msgs) \<and> msgs \<noteq> [])"
  using manual_work_preconditions [OF reachable.generated getTile_under_placed_player,
      of WHEAT 0]
    reachable.generated getTile_under_placed_player
  by (simp add: placed_player_tile)

lemma riding_player_tile:
  "playerTileX riding_player = 44" "playerTileY riding_player = 19" "isInVehicle riding_player"
  by (simp_all add: playerTileX_def playerTileY_def riding_player_def placed_player_def
        initial_player_def placed_tractor_def initial_tractor_def
        groundStartRow_eq WORLD_WIDTH_PIXELS_def WORLD_WIDTH_TILES_def TILE_SIZE_def)

text \<open>The player riding the tractor is over a sky tile, on which nothing can be planted
  or harvested; the two operations return without any status message.\<close>

theorem manual_work_silent_counterexample:
  "getTile generateWorld (playerTileY riding_player) (playerTileX riding_player) =
     Inr \<lparr>tile.type = SKY, crop = None\<rparr> \<and>
   handlePlantCrop riding_player generateWorld WHEAT 0 = Inr (riding_player, generateWorld, []) \<and>
   handleHarvestCrop riding_player generateWorld = Inr (riding_player, generateWorld, [])"
proof -
  have "getTile generateWorld 19 44 = Inr (generateTile 19)"
    by (rule getTile_generateWorld) (simp_all add: WORLD_HEIGHT_TILES_def WORLD_WIDTH_TILES_def)
  then show ?thesis
    by (simp add: riding_player_tile generateTile_def groundStartRow_eq
          handlePlantCrop_def handleHarvestCrop_def)
qed

section \<open>Field work at a target tile outside the grid\<close>

lemma lifted_player_tile:
  "playerTileX lifted_player = 37" "playerTileY lifted_player = -4"
  "\<not> isInVehicle lifted_player"
  by (simp_all add: playerTileX_def playerTileY_def lifted_player_def placed_player_def
        initial_player_def WORLD_WIDTH_PIXELS_def WORLD_WIDTH_TILES_def TILE_SIZE_def)

lemma outlying_player_tile:
  "playerTileX outlying_player = -2" "playerTileY outlying_player = 22"
  "\<not> isInVehicle outlying_player"
  by (simp_all add: playerTileX_def playerTileY_def outlying_player_def placed_player_def
        initial_player_def groundStartRow_eq WORLD_WIDTH_PIXELS_def WORLD_WIDTH_TILES_def
        TILE_SIZE_def)

lemma sunk_player_tile:
  "playerTileX sunk_player = 37" "playerTileY sunk_player = 31"
  "\<not> isInVehicle sunk_player"
  by (simp_all add: playerTileX_def playerTileY_def sunk_player_def placed_player_def
        initial_player_def WORLD_WIDTH_PIXELS_def WORLD_WIDTH_TILES_def TILE_SIZE_def)

lemma mapIndexed_unchanged:
  assumes "\<And>i. i < length xs \<Longrightarrow> f (int i) (xs ! i) = xs ! i"
  shows "mapIndexed f xs = xs"
  by (rule nth_equalityI) (simp_all add: assms)

lemma mapWorld_unchanged:
  assumes "\<And>ty tx t. 0 \<le> ty \<Longrightarrow> 0 \<le> tx \<Longrightarrow> f ty tx t = t"
  shows "mapWorld f w = w"
  unfolding mapWorld_def
  by (intro mapIndexed_unchanged) (simp_all add: assms)

lemma mapWorld_silent:
  assumes "\<And>ty tx t. 0 \<le> ty \<Longrightarrow> 0 \<le> tx \<Longrightarrow> f ty tx t = []"
  shows "concat (concat (mapWorld f w)) = []"
  by (auto simp: mapWorld_def mapIndexed_def assms)

lemma handleTillSoil_outside:
  assumes "playerTileY p < 0 \<or> playerTileX p < 0 \<or>
           WORLD_HEIGHT_TILES \<le> playerTileY p \<or> WORLD_WIDTH_TILES \<le> playerTileX p"
  shows "handleTillSoil p w = (p, w, [])"
proof (cases "playerTileY p < WORLD_HEIGHT_TILES \<and> playerTileX p < WORLD_WIDTH_TILES")
  case False
  then show ?thesis by (auto simp: handleTillSoil_def Let_def)
next
  case True
  with assms have "playerTileY p < 0 \<or> playerTileX p < 0" by auto
  then have a: "\<And>ty tx t. 0 \<le> ty \<Longrightarrow> 0 \<le> tx \<Longrightarrow>
      \<not> tillable (playerTileX p) (playerTileY p) ty tx t"
    by (auto simp: tillable_def)
  show ?thesis
    by (simp add: handleTillSoil_def Let_def mapWorld_unchanged mapWorld_silent a)
qed

lemma handlePlantCrop_beyond:
  assumes "WORLD_HEIGHT_TILES \<le> playerTileY p \<or> WORLD_WIDTH_TILES \<le> playerTileX p"
  shows "handlePlantCrop p w k now = Inr (p, w, [])"
  using assms by (auto simp: handlePlantCrop_def Let_def)

lemma handleHarvestCrop_beyond:
  assumes "WORLD_HEIGHT_TILES \<le> playerTileY p \<or> WORLD_WIDTH_TILES \<le> playerTileX p"
  shows "handleHarvestCrop p w = Inr (p, w, [])"
  using assms by (auto simp: handleHarvestCrop_def Let_def)

lemma collideTile_outside:
  assumes "\<not> (0 \<le> tx \<and> tx < wwt \<and> 0 \<le> ty \<and> ty < int (length w))"
  shows "collideTile w wwt ty tx e = Inr e"
  using assms by (auto simp: collideTile_def)

text \<open>
  Claim C6, as the code has it. For a player whose target tile is beyond an upper bound
  of the grid, row \<^verbatim>\<open>WORLD_HEIGHT_TILES\<close> or more or column \<^verbatim>\<open>WORLD_WIDTH_TILES\<close> or more,
  planting and harvesting return the player and the world unchanged, without a status
  and without raising. For a player whose target tile is outside the grid in any
  direction, negative indices included, tilling returns the player and the world
  unchanged, without a status and without raising. The physics tick skips every cell
  outside the columns \<open>0..wwt - 1\<close> and the rows of the grid without reading it, and it
  returns an entity, never an error, on every grid whose rows hold at least \<open>wwt\<close> tiles.
\<close>

theorem field_work_outside_grid:
  "(WORLD_HEIGHT_TILES \<le> playerTileY p \<or> WORLD_WIDTH_TILES \<le> playerTileX p \<longrightarrow>
      handlePlantCrop p w k now = Inr (p, w, []) \<and> handleHarvestCrop p w = Inr (p, w, [])) \<and>
   (playerTileY p < 0 \<or> playerTileX p < 0 \<or>
    WORLD_HEIGHT_TILES \<le> playerTileY p \<or> WORLD_WIDTH_TILES \<le> playerTileX p \<longrightarrow>
      handleTillSoil p w = (p, w, [])) \<and>
   (\<not> (0 \<le> tx \<and> tx < wwt \<and> 0 \<le> ty \<and> ty < int (length w)) \<longrightarrow>
      collideTile w wwt ty tx e = Inr e) \<and>
   (list_all (\<lambda>row. wwt \<le> int (length row)) w \<longrightarrow>
      (\<exists>e'. updateEntityPosition e w wwt = Inr e'))"
  using handlePlantCrop_beyond [of p w k now] handleHarvestCrop_beyond [of p w]
    handleTillSoil_outside [of p w] collideTile_outside [of tx wwt ty w e]
    updateEntityPosition_cells [of wwt w e]
  by blast

theorem field_work_outside_grid_witness:
  "WORLD_HEIGHT_TILES \<le> playerTileY sunk_player \<and>
   handlePlantCrop sunk_player generateWorld WHEAT 0 = Inr (sunk_player, generateWorld, []) \<and>
   handleHarvestCrop sunk_player generateWorld = Inr (sunk_player, generateWorld, []) \<and>
   playerTileY lifted_player < 0 \<and>
   handleTillSoil lifted_player generateWorld = (lifted_player, generateWorld, []) \<and>
   playerTileX outlying_player < 0 \<and>
   handleTillSoil outlying_player generateWorld = (outlying_player, generateWorld, []) \<and>
   collideTile generateWorld WORLD_WIDTH_TILES (- 1) 37 placed_player = Inr placed_player \<and>
   list_all (\<lambda>row. WORLD_WIDTH_TILES \<le> int (length row)) generateWorld \<and>
   (\<exists>e'. updateEntityPosition placed_player generateWorld WORLD_WIDTH_TILES = Inr e')"
  using field_work_outside_grid [of sunk_player generateWorld WHEAT 0 37 WORLD_WIDTH_TILES "- 1"
      placed_player]
    field_work_outside_grid [of lifted_player generateWorld WHEAT 0 37 WORLD_WIDTH_TILES "- 1"
      placed_player]
    field_work_outside_grid [of outlying_player generateWorld WHEAT 0 37 WORLD_WIDTH_TILES "- 1"
      placed_player]
    generateWorld_rows
  by (simp add: sunk_player_tile lifted_player_tile outlying_player_tile WORLD_HEIGHT_TILES_def)

text \<open>The guard of planting and harvesting has no lower bound. For a player on foot whose
  feet are above the top of the world the target row is \<open>-4\<close>, for one left of the world the
  target column is \<open>-2\<close>; either passes the guard
  \<^verbatim>\<open>tileY < WORLD_HEIGHT_TILES && tileX < WORLD_WIDTH_TILES\<close>, the read of the tile finds
  \<^verbatim>\<open>undefined\<close>, and planting and harvesting raise a \<^verbatim>\<open>TypeError\<close>.\<close>

theorem plant_and_harvest_negative_index_counterexample:
  "playerTileY lifted_player = - 4 \<and>
   handlePlantCrop lifted_player generateWorld WHEAT 0 = Inl TypeError \<and>
   handleHarvestCrop lifted_player generateWorld = Inl TypeError \<and>
   playerTileX outlying_player = - 2 \<and>
   handlePlantCrop outlying_player generateWorld WHEAT 0 = Inl TypeError \<and>
   handleHarvestCrop outlying_player generateWorld = Inl TypeError"
  by (simp add: handlePlantCrop_def handleHarvestCrop_def lifted_player_tile outlying_player_tile
        length_generateWorld getTile_def WORLD_HEIGHT_TILES_def WORLD_WIDTH_TILES_def)

section \<open>Entering the nearest vehicle, leaving the occupied one\<close>

lemma capitalize_vehicle:
  "capitalize ''tractor'' = ''Tractor''"
  "capitalize ''combine harvester'' = ''Combine harvester''"
  by code_simp+

lemma closestVehicle_none:
  assumes "enterRange \<le> distanceTo p tr" and "enterRange \<le> distanceTo p cb"
  shows "closestVehicle p tr cb = None"
  using assms by (simp add: closestVehicle_def considerVehicle_def Let_def)

lemma closestVehicle_first:
  assumes "distanceTo p tr < enterRange" and "distanceTo p tr \<le> distanceTo p cb"
  shows "closestVehicle p tr cb = Some tr"
  using assms by (simp add: closestVehicle_def considerVehicle_def Let_def)

lemma closestVehicle_second:
  assumes "distanceTo p cb < enterRange" and "distanceTo p cb < distanceTo p tr"
  shows "closestVehicle p tr cb = Some cb"
  using assms by (simp add: closestVehicle_def considerVehicle_def Let_def)

text \<open>
  Claim C8. With the tractor and the combine harvester as the two vehicles: a player on
  foot enters the vehicle nearest by Euclidean distance, provided that it is nearer than
  \<open>enterRange\<close> (the tractor if both are equally near), and player and vehicle become
  occupied; if neither vehicle is nearer than \<open>enterRange\<close>, the failure status is emitted
  and player and vehicles are unchanged. A player in a vehicle leaves the occupied
  vehicle: the player is centred on the vehicle's horizontal centre, stands on the ground
  reference row, has zero velocity, and player and vehicle become unoccupied.
\<close>

theorem enter_exit_vehicle:
  assumes "vehicle.type tr = ''tractor''" and "vehicle.type cb = ''combine harvester''"
  shows "(\<not> isInVehicle p \<and> enterRange \<le> distanceTo p tr \<and> enterRange \<le> distanceTo p cb \<longrightarrow>
            handleEnterExitVehicle p tr cb =
              (p, tr, cb, [(''No vehicle close enough to enter!'', 1000)])) \<and>
         (\<not> isInVehicle p \<and> distanceTo p tr < enterRange \<and> distanceTo p tr \<le> distanceTo p cb \<longrightarrow>
            handleEnterExitVehicle p tr cb =
              (p\<lparr>isInVehicle := True, x := x tr + width tr / 2, y := y tr + height tr / 2\<rparr>,
               tr\<lparr>isInVehicle := True\<rparr>, cb, [(''Entered Tractor'', 1500)])) \<and>
         (\<not> isInVehicle p \<and> distanceTo p cb < enterRange \<and> distanceTo p cb < distanceTo p tr \<longrightarrow>
            handleEnterExitVehicle p tr cb =
              (p\<lparr>isInVehicle := True, x := x cb + width cb / 2, y := y cb + height cb / 2\<rparr>,
               tr, cb\<lparr>isInVehicle := True\<rparr>, [(''Entered Combine harvester'', 1500)])) \<and>
         (isInVehicle p \<and> isInVehicle tr \<longrightarrow>
            handleEnterExitVehicle p tr cb =
              (p\<lparr>isInVehicle := False, x := x tr + width tr / 2 - width p / 2,
                 y := of_int groundStartRow * TILE_SIZE - height p,
                 vx := 0, vy := 0, onGround := False\<rparr>,
               tr\<lparr>isInVehicle := False\<rparr>, cb, [(''Exited Tractor'', 1500)])) \<and>
         (isInVehicle p \<and> \<not> isInVehicle tr \<and> isInVehicle cb \<longrightarrow>
            handleEnterExitVehicle p tr cb =
              (p\<lparr>isInVehicle := False, x := x cb + width cb / 2 - width p / 2,
                 y := of_int groundStartRow * TILE_SIZE - height p,
                 vx := 0, vy := 0, onGround := False\<rparr>,
               tr, cb\<lparr>isInVehicle := False\<rparr>, [(''Exited Combine harvester'', 1500)]))"
proof (intro conjI impI)
  assume "\<not> isInVehicle p \<and> enterRange \<le> distanceTo p tr \<and> enterRange \<le> distanceTo p cb"
  then show "handleEnterExitVehicle p tr cb =
      (p, tr, cb, [(''No vehicle close enough to enter!'', 1000)])"
    by (simp add: handleEnterExitVehicle_def closestVehicle_none)
next
  assume "\<not> isInVehicle p \<and> distanceTo p tr < enterRange \<and> distanceTo p tr \<le> distanceTo p cb"
  then show "handleEnterExitVehicle p tr cb =
      (p\<lparr>isInVehicle := True, x := x tr + width tr / 2, y := y tr + height tr / 2\<rparr>,
       tr\<lparr>isInVehicle := True\<rparr>, cb, [(''Entered Tractor'', 1500)])"
    by (simp add: handleEnterExitVehicle_def closestVehicle_first assms capitalize_vehicle)
next
  assume "\<not> isInVehicle p \<and> distanceTo p cb < enterRange \<and> distanceTo p cb < distanceTo p tr"
  then show "handleEnterExitVehicle p tr cb =
      (p\<lparr>isInVehicle := True, x := x cb + width cb / 2, y := y cb + height cb / 2\<rparr>,
       tr, cb\<lparr>isInVehicle := True\<rparr>, [(''Entered Combine harvester'', 1500)])"
    by (simp add: handleEnterExitVehicle_def closestVehicle_second assms capitalize_vehicle)
next
  assume "isInVehicle p \<and> isInVehicle tr"
  then show "handleEnterExitVehicle p tr cb =
      (p\<lparr>isInVehicle := False, x := x tr + width tr / 2 - width p / 2,
         y := of_int groundStartRow * TILE_SIZE - height p,
         vx := 0, vy := 0, onGround := False\<rparr>,
       tr\<lparr>isInVehicle := False\<rparr>, cb, [(''Exited Tractor'', 1500)])"
    by (simp add: handleEnterExitVehicle_def assms capitalize_vehicle)
next
  assume "isInVehicle p \<and> \<not> isInVehicle tr \<and> isInVehicle cb"
  then show "handleEnterExitVehicle p tr cb =
      (p\<lparr>isInVehicle := False, x := x cb + width cb / 2 - width p / 2,
         y := of_int groundStartRow * TILE_SIZE - height p,
         vx := 0, vy := 0, onGround := False\<rparr>,
       tr, cb\<lparr>isInVehicle := False\<rparr>, [(''Exited Combine harvester'', 1500)])"
    by (simp add: handleEnterExitVehicle_def assms capitalize_vehicle)
qed

lemma placed_vehicle_types:
  "vehicle.type placed_tractor = ''tractor''"
  "vehicle.type placed_combineHarvester = ''combine harvester''"
  by (simp_all add: placed_tractor_def initial_tractor_def placed_combineHarvester_def
        initial_combineHarvester_def)

lemma placed_distances:
  "distanceTo placed_player placed_tractor = sqrt 10196"
  "distanceTo placed_player placed_combineHarvester = sqrt 903076"
  "distanceTo walking_player placed_tractor = sqrt 2696"
  "distanceTo walking_player placed_combineHarvester = sqrt 810576"
  by (simp_all add: distanceTo_def walking_player_def placed_player_def initial_player_def
        placed_tractor_def initial_tractor_def placed_combineHarvester_def
        initial_combineHarvester_def groundStartRow_eq WORLD_WIDTH_PIXELS_def
        WORLD_WIDTH_TILES_def TILE_SIZE_def power2_eq_square)

lemma placed_ranges:
  "enterRange \<le> distanceTo placed_player placed_tractor"
  "enterRange \<le> distanceTo placed_player placed_combineHarvester"
  "distanceTo walking_player placed_tractor < enterRange"
  "distanceTo walking_player placed_tractor \<le> distanceTo walking_player placed_combineHarvester"
  by (simp_all add: placed_distances enterRange_def real_le_rsqrt real_less_lsqrt)

lemma walking_player_on_foot: "\<not> isInVehicle walking_player" "\<not> isInVehicle placed_player"
  by (simp_all add: walking_player_def placed_player_def initial_player_def)

theorem enter_exit_vehicle_witness:
  "vehicle.type placed_tractor = ''tractor'' \<and>
   vehicle.type placed_combineHarvester = ''combine harvester'' \<and>
   enterRange \<le> distanceTo placed_player placed_tractor \<and>
   enterRange \<le> distanceTo placed_player placed_combineHarvester \<and>
   handleEnterExitVehicle placed_player placed_tractor placed_combineHarvester =
     (placed_player, placed_tractor, placed_combineHarvester,
      [(''No vehicle close enough to enter!'', 1000)]) \<and>
   distanceTo walking_player placed_tractor < enterRange \<and>
   distanceTo walking_player placed_tractor \<le> distanceTo walking_player placed_combineHarvester \<and>
   handleEnterExitVehicle walking_player placed_tractor placed_combineHarvester =
     (walking_player\<lparr>isInVehicle := True, x := x placed_tractor + width placed_tractor / 2,
        y := y placed_tractor + height placed_tractor / 2\<rparr>,
      placed_tractor\<lparr>isInVehicle := True\<rparr>, placed_combineHarvester,
      [(''Entered Tractor'', 1500)]) \<and>
   handleEnterExitVehicle riding_player (placed_tractor\<lparr>isInVehicle := True\<rparr>)
       placed_combineHarvester =
     (riding_player\<lparr>isInVehicle := False,
        x := x (placed_tractor\<lparr>isInVehicle := True\<rparr>)
             + width (placed_tractor\<lparr>isInVehicle := True\<rparr>) / 2 - width riding_player / 2,
        y := of_int groundStartRow * TILE_SIZE - height riding_player,
        vx := 0, vy := 0, onGround := False\<rparr>,
      placed_tractor\<lparr>isInVehicle := True, isInVehicle := False\<rparr>, placed_combineHarvester,
      [(''Exited Tractor'', 1500)])"
proof -
  have t: "vehicle.type (placed_tractor\<lparr>isInVehicle := True\<rparr>) = ''tractor''"
    by (simp add: placed_vehicle_types)
  have r: "isInVehicle riding_player \<and> isInVehicle (placed_tractor\<lparr>isInVehicle := True\<rparr>)"
    by (simp add: riding_player_tile)
  from enter_exit_vehicle [OF placed_vehicle_types, of placed_player]
    enter_exit_vehicle [OF placed_vehicle_types, of walking_player]
    enter_exit_vehicle [OF t placed_vehicle_types(2), of riding_player]
    placed_vehicle_types placed_ranges walking_player_on_foot r
  show ?thesis by (simp only: simp_thms)
qed

section \<open>The ambient light is continuous\<close>

lemma light_cases:
  obtains "t < 5" "getAmbientLightFactor t = 1 / 10"
  | "5 \<le> t" "t < 7" "getAmbientLightFactor t = 1 / 10 + (t - 5) / 5"
  | "7 \<le> t" "t < 9" "getAmbientLightFactor t = 1 / 2 + (t - 7) / 4"
  | "9 \<le> t" "t < 17" "getAmbientLightFactor t = 1"
  | "17 \<le> t" "t < 19" "getAmbientLightFactor t = 1 - (t - 17) / 4"
  | "19 \<le> t" "t < 21" "getAmbientLightFactor t = 1 / 2 - (t - 19) / 5"
  | "21 \<le> t" "getAmbientLightFactor t = 1 / 10"
proof -
  consider "t < 5" | "5 \<le> t \<and> t < 7" | "7 \<le> t \<and> t < 9" | "9 \<le> t \<and> t < 17"
    | "17 \<le> t \<and> t < 19" | "19 \<le> t \<and> t < 21" | "21 \<le> t"
    by linarith
  then show thesis
  proof cases
    case 1
    then have "getAmbientLightFactor t = 1 / 10" by (simp add: getAmbientLightFactor_def)
    with 1 that(1) show ?thesis by blast
  next
    case 2
    then have "getAmbientLightFactor t = 1 / 10 + (t - 5) / 5"
      by (simp add: getAmbientLightFactor_def)
    with 2 that(2) show ?thesis by blast
  next
    case 3
    then have "getAmbientLightFactor t = 1 / 2 + (t - 7) / 4"
      by (simp add: getAmbientLightFactor_def)
    with 3 that(3) show ?thesis by blast
  next
    case 4
    then have "getAmbientLightFactor t = 1" by (simp add: getAmbientLightFactor_def)
    with 4 that(4) show ?thesis by blast
  next
    case 5
    then have "getAmbientLightFactor t = 1 - (t - 17) / 4"
      by (simp add: getAmbientLightFactor_def)
    with 5 that(5) show ?thesis by blast
  next
    case 6
    then have "getAmbientLightFactor t = 1 / 2 - (t - 19) / 5"
      by (simp add: getAmbientLightFactor_def)
    with 6 that(6) show ?thesis by blast
  next
    case 7
    then have "getAmbientLightFactor t = 1 / 10" by (simp add: getAmbientLightFactor_def)
    with 7 that(7) show ?thesis by blast
  qed
qed

lemma light_range: "1 / 10 \<le> getAmbientLightFactor t \<and> getAmbientLightFactor t \<le> 1"
proof (rule light_cases [of t])
qed (simp_all add: field_simps)

lemma light_midday: "getAmbientLightFactor 12 = 1"
  by (simp add: getAmbientLightFactor_def)

lemma light_lipschitz_le:
  assumes "s \<le> t"
  shows "\<bar>getAmbientLightFactor s - getAmbientLightFactor t\<bar> \<le> (t - s) / 4"
proof (rule light_cases [of s]; rule light_cases [of t])
qed (use assms in \<open>simp_all add: abs_if field_simps\<close>)

lemma light_lipschitz: "\<bar>getAmbientLightFactor s - getAmbientLightFactor t\<bar> \<le> \<bar>s - t\<bar> / 4"
proof (cases "s \<le> t")
  case True
  with light_lipschitz_le [OF True] show ?thesis by simp
next
  case False
  then have "t \<le> s" by simp
  from light_lipschitz_le [OF this] False show ?thesis by (simp add: abs_minus_commute)
qed

lemma light_isCont: "isCont getAmbientLightFactor t"
  unfolding isCont_def
proof (rule LIM_I)
  fix r :: real
  assume r: "0 < r"
  show "\<exists>s>0. \<forall>x. x \<noteq> t \<and> norm (x - t) < s \<longrightarrow>
          norm (getAmbientLightFactor x - getAmbientLightFactor t) < r"
  proof (intro exI conjI allI impI)
    show "0 < 4 * r" using r by simp
  next
    fix x
    assume "x \<noteq> t \<and> norm (x - t) < 4 * r"
    with light_lipschitz [of x t]
    show "norm (getAmbientLightFactor x - getAmbientLightFactor t) < r"
      by simp
  qed
qed

section \<open>The sky colour is constant around each breakpoint\<close>

lemma jsRound_near:
  assumes "\<bar>d\<bar> < 1 / 2"
  shows "jsRound (of_int n + d) = n"
  unfolding jsRound_def
proof (rule floor_unique)
  from assms show "of_int n \<le> of_int n + d + 1 / 2" by linarith
  from assms show "of_int n + d + 1 / 2 < of_int n + 1" by linarith
qed

lemma lerpChannel_start:
  assumes "\<bar>f\<bar> * \<bar>of_int c2 - of_int c1\<bar> < 1 / 2"
  shows "lerpChannel c1 c2 f = c1"
proof -
  from assms have "\<bar>f * (of_int c2 - of_int c1)\<bar> < 1 / 2"
    by (simp add: abs_mult)
  then show ?thesis
    unfolding lerpChannel_def by (rule jsRound_near)
qed

lemma lerpChannel_end:
  assumes "\<bar>1 - f\<bar> * \<bar>of_int c2 - of_int c1\<bar> < 1 / 2"
  shows "lerpChannel c1 c2 f = c2"
proof -
  have e: "of_int c1 + f * (of_int c2 - of_int c1) =
           of_int c2 + (- ((1 - f) * (of_int c2 - of_int c1)))"
    by (simp add: algebra_simps)
  from assms have "\<bar>- ((1 - f) * (of_int c2 - of_int c1))\<bar> < 1 / 2"
    by (simp add: abs_mult)
  then show ?thesis
    unfolding lerpChannel_def e by (rule jsRound_near)
qed

lemma colorSpan_channels:
  "\<bar>of_int (fst c2) - of_int (fst c1)\<bar> \<le> colorSpan c1 c2"
  "\<bar>of_int (fst (snd c2)) - of_int (fst (snd c1))\<bar> \<le> colorSpan c1 c2"
  "\<bar>of_int (snd (snd c2)) - of_int (snd (snd c1))\<bar> \<le> colorSpan c1 c2"
  "1 \<le> colorSpan c1 c2"
  by (simp_all add: colorSpan_def)

lemma span_bound:
  fixes g a k :: real
  assumes "\<bar>g\<bar> * k < 1 / 2" and "a \<le> k"
  shows "\<bar>g\<bar> * a < 1 / 2"
proof -
  have "\<bar>g\<bar> * a \<le> \<bar>g\<bar> * k"
    using assms(2) by (rule mult_left_mono) simp
  with assms(1) show ?thesis by linarith
qed

lemma lerpColor_start:
  assumes "\<bar>f\<bar> * colorSpan c1 c2 < 1 / 2"
  shows "lerpColor c1 c2 f = c1"
proof -
  have "lerpChannel (fst c1) (fst c2) f = fst c1"
    by (rule lerpChannel_start, rule span_bound [OF assms], rule colorSpan_channels)
  moreover have "lerpChannel (fst (snd c1)) (fst (snd c2)) f = fst (snd c1)"
    by (rule lerpChannel_start, rule span_bound [OF assms], rule colorSpan_channels)
  moreover have "lerpChannel (snd (snd c1)) (snd (snd c2)) f = snd (snd c1)"
    by (rule lerpChannel_start, rule span_bound [OF assms], rule colorSpan_channels)
  ultimately show ?thesis by (simp add: lerpColor_def)
qed

lemma lerpColor_end:
  assumes "\<bar>1 - f\<bar> * colorSpan c1 c2 < 1 / 2"
  shows "lerpColor c1 c2 f = c2"
proof -
  have "lerpChannel (fst c1) (fst c2) f = fst c2"
    by (rule lerpChannel_end, rule span_bound [OF assms], rule colorSpan_channels)
  moreover have "lerpChannel (fst (snd c1)) (fst (snd c2)) f = fst (snd c2)"
    by (rule lerpChannel_end, rule span_bound [OF assms], rule colorSpan_channels)
  moreover have "lerpChannel (snd (snd c1)) (snd (snd c2)) f = snd (snd c2)"
    by (rule lerpChannel_end, rule span_bound [OF assms], rule colorSpan_channels)
  ultimately show ?thesis by (simp add: lerpColor_def)
qed

lemma skySpan_parts:
  "colorSpan (DEEP_NIGHT_SKY_COLOR cs) (DAWN_SKY_COLOR cs) \<le> skySpan cs"
  "colorSpan (DAWN_SKY_COLOR cs) (SUNRISE_TINT_COLOR cs) \<le> skySpan cs"
  "colorSpan (SUNRISE_TINT_COLOR cs) (MORNING_SKY_COLOR cs) \<le> skySpan cs"
  "colorSpan (MORNING_SKY_COLOR cs) (AFTERNOON_SKY_COLOR cs) \<le> skySpan cs"
  "colorSpan (AFTERNOON_SKY_COLOR cs) (SUNSET_TINT_COLOR cs) \<le> skySpan cs"
  "colorSpan (SUNSET_TINT_COLOR cs) (DEEP_NIGHT_SKY_COLOR cs) \<le> skySpan cs"
  "1 \<le> skySpan cs"
  using colorSpan_channels(4) [of "DEEP_NIGHT_SKY_COLOR cs" "DAWN_SKY_COLOR cs"]
    colorSpan_channels(4) [of "DAWN_SKY_COLOR cs" "SUNRISE_TINT_COLOR cs"]
    colorSpan_channels(4) [of "SUNRISE_TINT_COLOR cs" "MORNING_SKY_COLOR cs"]
    colorSpan_channels(4) [of "MORNING_SKY_COLOR cs" "AFTERNOON_SKY_COLOR cs"]
    colorSpan_channels(4) [of "AFTERNOON_SKY_COLOR cs" "SUNSET_TINT_COLOR cs"]
    colorSpan_channels(4) [of "SUNSET_TINT_COLOR cs" "DEEP_NIGHT_SKY_COLOR cs"]
  by (simp_all add: skySpan_def)

lemma near_half:
  fixes d k :: real
  assumes "\<bar>d\<bar> * k < 1 / 2" and "1 \<le> k"
  shows "\<bar>d\<bar> < 1 / 2"
  using span_bound [OF assms] by simp

lemma half_span:
  fixes d a :: real
  assumes "\<bar>d\<bar> * a < 1 / 2" and "0 \<le> a"
  shows "\<bar>d / 2\<bar> * a < 1 / 2"
proof -
  have "\<bar>d / 2\<bar> * a = (\<bar>d\<bar> * a) / 2" by simp
  moreover have "0 \<le> \<bar>d\<bar> * a" using assms(2) by simp
  ultimately show ?thesis using assms(1) by linarith
qed

lemma sky_near_0:
  assumes a: "\<bar>s - 0\<bar> * skySpan cs < 1 / 2"
  shows "getSkyColor s cs = DEEP_NIGHT_SKY_COLOR cs"
proof -
  from near_half [OF a skySpan_parts(7)] have n: "\<bar>s - 0\<bar> < 1 / 2" .
  show ?thesis
  proof (cases "s < 0")
    case True
    then show ?thesis by (simp add: getSkyColor_def)
  next
    case False
    with n have "0 \<le> s" "s < 5" by linarith+
    then show ?thesis by (simp add: getSkyColor_def)
  qed
qed

lemma sky_near_5:
  assumes a: "\<bar>s - 5\<bar> * skySpan cs < 1 / 2"
  shows "getSkyColor s cs = DEEP_NIGHT_SKY_COLOR cs"
proof -
  from near_half [OF a skySpan_parts(7)] have n: "\<bar>s - 5\<bar> < 1 / 2" .
  show ?thesis
  proof (cases "s < 5")
    case True
    with n have "0 \<le> s" by linarith
    with True show ?thesis by (simp add: getSkyColor_def)
  next
    case False
    with n have "5 \<le> s" "s < 6" by linarith+
    then have g: "getSkyColor s cs = lerpColor (DEEP_NIGHT_SKY_COLOR cs) (DAWN_SKY_COLOR cs) (s - 5)"
      by (simp add: getSkyColor_def)
    have "\<bar>s - 5\<bar> * colorSpan (DEEP_NIGHT_SKY_COLOR cs) (DAWN_SKY_COLOR cs) < 1 / 2"
      by (rule span_bound [OF a skySpan_parts(1)])
    then have "lerpColor (DEEP_NIGHT_SKY_COLOR cs) (DAWN_SKY_COLOR cs) (s - 5) = DEEP_NIGHT_SKY_COLOR cs" by (rule lerpColor_start)
    with g show ?thesis by simp
  qed
qed

lemma sky_near_6:
  assumes a: "\<bar>s - 6\<bar> * skySpan cs < 1 / 2"
  shows "getSkyColor s cs = DAWN_SKY_COLOR cs"
proof -
  from near_half [OF a skySpan_parts(7)] have n: "\<bar>s - 6\<bar> < 1 / 2" .
  show ?thesis
  proof (cases "s < 6")
    case True
    with n have "5 \<le> s" "s < 6" by linarith+
    then have g: "getSkyColor s cs = lerpColor (DEEP_NIGHT_SKY_COLOR cs) (DAWN_SKY_COLOR cs) (s - 5)"
      by (simp add: getSkyColor_def)
    have e: "\<bar>1 - (s - 5)\<bar> = \<bar>s - 6\<bar>" by linarith
    have "\<bar>s - 6\<bar> * colorSpan (DEEP_NIGHT_SKY_COLOR cs) (DAWN_SKY_COLOR cs) < 1 / 2"
      by (rule span_bound [OF a skySpan_parts(1)])
    then have "\<bar>1 - (s - 5)\<bar> * colorSpan (DEEP_NIGHT_SKY_COLOR cs) (DAWN_SKY_COLOR cs) < 1 / 2"
      by (simp only: e)
    then have "lerpColor (DEEP_NIGHT_SKY_COLOR cs) (DAWN_SKY_COLOR cs) (s - 5) = DAWN_SKY_COLOR cs" by (rule lerpColor_end)
    with g show ?thesis by simp
  next
    case False
    with n have "6 \<le> s" "s < 7" by linarith+
    then have g: "getSkyColor s cs = lerpColor (DAWN_SKY_COLOR cs) (SUNRISE_TINT_COLOR cs) (s - 6)"
      by (simp add: getSkyColor_def)
    have "\<bar>s - 6\<bar> * colorSpan (DAWN_SKY_COLOR cs) (SUNRISE_TINT_COLOR cs) < 1 / 2"
      by (rule span_bound [OF a skySpan_parts(2)])
    then have "lerpColor (DAWN_SKY_COLOR cs) (SUNRISE_TINT_COLOR cs) (s - 6) = DAWN_SKY_COLOR cs" by (rule lerpColor_start)
    with g show ?thesis by simp
  qed
qed

lemma sky_near_7:
  assumes a: "\<bar>s - 7\<bar> * skySpan cs < 1 / 2"
  shows "getSkyColor s cs = SUNRISE_TINT_COLOR cs"
proof -
  from near_half [OF a skySpan_parts(7)] have n: "\<bar>s - 7\<bar> < 1 / 2" .
  show ?thesis
  proof (cases "s < 7")
    case True
    with n have "6 \<le> s" "s < 7" by linarith+
    then have g: "getSkyColor s cs = lerpColor (DAWN_SKY_COLOR cs) (SUNRISE_TINT_COLOR cs) (s - 6)"
      by (simp add: getSkyColor_def)
    have e: "\<bar>1 - (s - 6)\<bar> = \<bar>s - 7\<bar>" by linarith
    have "\<bar>s - 7\<bar> * colorSpan (DAWN_SKY_COLOR cs) (SUNRISE_TINT_COLOR cs) < 1 / 2"
      by (rule span_bound [OF a skySpan_parts(2)])
    then have "\<bar>1 - (s - 6)\<bar> * colorSpan (DAWN_SKY_COLOR cs) (SUNRISE_TINT_COLOR cs) < 1 / 2"
      by (simp only: e)
    then have "lerpColor (DAWN_SKY_COLOR cs) (SUNRISE_TINT_COLOR cs) (s - 6) = SUNRISE_TINT_COLOR cs" by (rule lerpColor_end)
    with g show ?thesis by simp
  next
    case False
    with n have "7 \<le> s" "s < 9" by linarith+
    then have g: "getSkyColor s cs = lerpColor (SUNRISE_TINT_COLOR cs) (MORNING_SKY_COLOR cs) ((s - 7) / 2)"
      by (simp add: getSkyColor_def)
    have "0 \<le> colorSpan (SUNRISE_TINT_COLOR cs) (MORNING_SKY_COLOR cs)"
      using colorSpan_channels(4) [of "SUNRISE_TINT_COLOR cs" "MORNING_SKY_COLOR cs"] by linarith
    with span_bound [OF a skySpan_parts(3)]
    have "\<bar>(s - 7) / 2\<bar> * colorSpan (SUNRISE_TINT_COLOR cs) (MORNING_SKY_COLOR cs) < 1 / 2"
      by (rule half_span)
    then have "lerpColor (SUNRISE_TINT_COLOR cs) (MORNING_SKY_COLOR cs) ((s - 7) / 2) = SUNRISE_TINT_COLOR cs" by (rule lerpColor_start)
    with g show ?thesis by simp
  qed
qed

lemma sky_near_9:
  assumes a: "\<bar>s - 9\<bar> * skySpan cs < 1 / 2"
  shows "getSkyColor s cs = MORNING_SKY_COLOR cs"
proof -
  from near_half [OF a skySpan_parts(7)] have n: "\<bar>s - 9\<bar> < 1 / 2" .
  show ?thesis
  proof (cases "s < 9")
    case True
    with n have "7 \<le> s" "s < 9" by linarith+
    then have g: "getSkyColor s cs = lerpColor (SUNRISE_TINT_COLOR cs) (MORNING_SKY_COLOR cs) ((s - 7) / 2)"
      by (simp add: getSkyColor_def)
    have e: "\<bar>1 - (s - 7) / 2\<bar> = \<bar>(s - 9) / 2\<bar>"
      by (simp add: abs_if field_simps)
    have "0 \<le> colorSpan (SUNRISE_TINT_COLOR cs) (MORNING_SKY_COLOR cs)"
      using colorSpan_channels(4) [of "SUNRISE_TINT_COLOR cs" "MORNING_SKY_COLOR cs"] by linarith
    with span_bound [OF a skySpan_parts(3)]
    have "\<bar>(s - 9) / 2\<bar> * colorSpan (SUNRISE_TINT_COLOR cs) (MORNING_SKY_COLOR cs) < 1 / 2"
      by (rule half_span)
    then have "\<bar>1 - (s - 7) / 2\<bar> * colorSpan (SUNRISE_TINT_COLOR cs) (MORNING_SKY_COLOR cs) < 1 / 2"
      by (simp only: e)
    then have "lerpColor (SUNRISE_TINT_COLOR cs) (MORNING_SKY_COLOR cs) ((s - 7) / 2) = MORNING_SKY_COLOR cs" by (rule lerpColor_end)
    with g show ?thesis by simp
  next
    case False
    with n have "9 \<le> s" "s < 16" by linarith+
    then show ?thesis by (simp add: getSkyColor_def)
  qed
qed

lemma sky_near_16:
  assumes a: "\<bar>s - 16\<bar> * skySpan cs < 1 / 2"
  shows "getSkyColor s cs = MORNING_SKY_COLOR cs"
proof -
  from near_half [OF a skySpan_parts(7)] have n: "\<bar>s - 16\<bar> < 1 / 2" .
  show ?thesis
  proof (cases "s < 16")
    case True
    with n have "9 \<le> s" by linarith
    with True show ?thesis by (simp add: getSkyColor_def)
  next
    case False
    with n have "16 \<le> s" "s < 18" by linarith+
    then have g: "getSkyColor s cs = lerpColor (MORNING_SKY_COLOR cs) (AFTERNOON_SKY_COLOR cs) ((s - 16) / 2)"
      by (simp add: getSkyColor_def)
    have "0 \<le> colorSpan (MORNING_SKY_COLOR cs) (AFTERNOON_SKY_COLOR cs)"
      using colorSpan_channels(4) [of "MORNING_SKY_COLOR cs" "AFTERNOON_SKY_COLOR cs"] by linarith
    with span_bound [OF a skySpan_parts(4)]
    have "\<bar>(s - 16) / 2\<bar> * colorSpan (MORNING_SKY_COLOR cs) (AFTERNOON_SKY_COLOR cs) < 1 / 2"
      by (rule half_span)
    then have "lerpColor (MORNING_SKY_COLOR cs) (AFTERNOON_SKY_COLOR cs) ((s - 16) / 2) = MORNING_SKY_COLOR cs" by (rule lerpColor_start)
    with g show ?thesis by simp
  qed
qed

lemma sky_near_18:
  assumes a: "\<bar>s - 18\<bar> * skySpan cs < 1 / 2"
  shows "getSkyColor s cs = AFTERNOON_SKY_COLOR cs"
proof -
  from near_half [OF a skySpan_parts(7)] have n: "\<bar>s - 18\<bar> < 1 / 2" .
  show ?thesis
  proof (cases "s < 18")
    case True
    with n have "16 \<le> s" "s < 18" by linarith+
    then have g: "getSkyColor s cs = lerpColor (MORNING_SKY_COLOR cs) (AFTERNOON_SKY_COLOR cs) ((s - 16) / 2)"
      by (simp add: getSkyColor_def)
    have e: "\<bar>1 - (s - 16) / 2\<bar> = \<bar>(s - 18) / 2\<bar>"
      by (simp add: abs_if field_simps)
    have "0 \<le> colorSpan (MORNING_SKY_COLOR cs) (AFTERNOON_SKY_COLOR cs)"
      using colorSpan_channels(4) [of "MORNING_SKY_COLOR cs" "AFTERNOON_SKY_COLOR cs"] by linarith
    with span_bound [OF a skySpan_parts(4)]
    have "\<bar>(s - 18) / 2\<bar> * colorSpan (MORNING_SKY_COLOR cs) (AFTERNOON_SKY_COLOR cs) < 1 / 2"
      by (rule half_span)
    then have "\<bar>1 - (s - 16) / 2\<bar> * colorSpan (MORNING_SKY_COLOR cs) (AFTERNOON_SKY_COLOR cs) < 1 / 2"
      by (simp only: e)
    then have "lerpColor (MORNING_SKY_COLOR cs) (AFTERNOON_SKY_COLOR cs) ((s - 16) / 2) = AFTERNOON_SKY_COLOR cs" by (rule lerpColor_end)
    with g show ?thesis by simp
  next
    case False
    with n have "18 \<le> s" "s < 19" by linarith+
    then have g: "getSkyColor s cs = lerpColor (AFTERNOON_SKY_COLOR cs) (SUNSET_TINT_COLOR cs) (s - 18)"
      by (simp add: getSkyColor_def)
    have "\<bar>s - 18\<bar> * colorSpan (AFTERNOON_SKY_COLOR cs) (SUNSET_TINT_COLOR cs) < 1 / 2"
      by (rule span_bound [OF a skySpan_parts(5)])
    then have "lerpColor (AFTERNOON_SKY_COLOR cs) (SUNSET_TINT_COLOR cs) (s - 18) = AFTERNOON_SKY_COLOR cs" by (rule lerpColor_start)
    with g show ?thesis by simp
  qed
qed

lemma sky_near_19:
  assumes a: "\<bar>s - 19\<bar> * skySpan cs < 1 / 2"
  shows "getSkyColor s cs = SUNSET_TINT_COLOR cs"
proof -
  from near_half [OF a skySpan_parts(7)] have n: "\<bar>s - 19\<bar> < 1 / 2" .
  show ?thesis
  proof (cases "s < 19")
    case True
    with n have "18 \<le> s" "s < 19" by linarith+
    then have g: "getSkyColor s cs = lerpColor (AFTERNOON_SKY_COLOR cs) (SUNSET_TINT_COLOR cs) (s - 18)"
      by (simp add: getSkyColor_def)
    have e: "\<bar>1 - (s - 18)\<bar> = \<bar>s - 19\<bar>" by linarith
    have "\<bar>s - 19\<bar> * colorSpan (AFTERNOON_SKY_COLOR cs) (SUNSET_TINT_COLOR cs) < 1 / 2"
      by (rule span_bound [OF a skySpan_parts(5)])
    then have "\<bar>1 - (s - 18)\<bar> * colorSpan (AFTERNOON_SKY_COLOR cs) (SUNSET_TINT_COLOR cs) < 1 / 2"
      by (simp only: e)
    then have "lerpColor (AFTERNOON_SKY_COLOR cs) (SUNSET_TINT_COLOR cs) (s - 18) = SUNSET_TINT_COLOR cs" by (rule lerpColor_end)
    with g show ?thesis by simp
  next
    case False
    with n have "19 \<le> s" "s < 21" by linarith+
    then have g: "getSkyColor s cs = lerpColor (SUNSET_TINT_COLOR cs) (DEEP_NIGHT_SKY_COLOR cs) ((s - 19) / 2)"
      by (simp add: getSkyColor_def)
    have "0 \<le> colorSpan (SUNSET_TINT_COLOR cs) (DEEP_NIGHT_SKY_COLOR cs)"
      using colorSpan_channels(4) [of "SUNSET_TINT_COLOR cs" "DEEP_NIGHT_SKY_COLOR cs"] by linarith
    with span_bound [OF a skySpan_parts(6)]
    have "\<bar>(s - 19) / 2\<bar> * colorSpan (SUNSET_TINT_COLOR cs) (DEEP_NIGHT_SKY_COLOR cs) < 1 / 2"
      by (rule half_span)
    then have "lerpColor (SUNSET_TINT_COLOR cs) (DEEP_NIGHT_SKY_COLOR cs) ((s - 19) / 2) = SUNSET_TINT_COLOR cs" by (rule lerpColor_start)
    with g show ?thesis by simp
  qed
qed

lemma sky_near_21:
  assumes a: "\<bar>s - 21\<bar> * skySpan cs < 1 / 2"
  shows "getSkyColor s cs = DEEP_NIGHT_SKY_COLOR cs"
proof -
  from near_half [OF a skySpan_parts(7)] have n: "\<bar>s - 21\<bar> < 1 / 2" .
  show ?thesis
  proof (cases "s < 21")
    case True
    with n have "19 \<le> s" "s < 21" by linarith+
    then have g: "getSkyColor s cs = lerpColor (SUNSET_TINT_COLOR cs) (DEEP_NIGHT_SKY_COLOR cs) ((s - 19) / 2)"
      by (simp add: getSkyColor_def)
    have e: "\<bar>1 - (s - 19) / 2\<bar> = \<bar>(s - 21) / 2\<bar>"
      by (simp add: abs_if field_simps)
    have "0 \<le> colorSpan (SUNSET_TINT_COLOR cs) (DEEP_NIGHT_SKY_COLOR cs)"
      using colorSpan_channels(4) [of "SUNSET_TINT_COLOR cs" "DEEP_NIGHT_SKY_COLOR cs"] by linarith
    with span_bound [OF a skySpan_parts(6)]
    have "\<bar>(s - 21) / 2\<bar> * colorSpan (SUNSET_TINT_COLOR cs) (DEEP_NIGHT_SKY_COLOR cs) < 1 / 2"
      by (rule half_span)
    then have "\<bar>1 - (s - 19) / 2\<bar> * colorSpan (SUNSET_TINT_COLOR cs) (DEEP_NIGHT_SKY_COLOR cs) < 1 / 2"
      by (simp only: e)
    then have "lerpColor (SUNSET_TINT_COLOR cs) (DEEP_NIGHT_SKY_COLOR cs) ((s - 19) / 2) = DEEP_NIGHT_SKY_COLOR cs" by (rule lerpColor_end)
    with g show ?thesis by simp
  next
    case False
    then show ?thesis by (simp add: getSkyColor_def)
  qed
qed

lemma sky_near:
  assumes "b \<in> set skyBreakpoints"
    and "\<bar>s - b\<bar> * skySpan cs < 1 / 2" and "\<bar>s' - b\<bar> * skySpan cs < 1 / 2"
  shows "getSkyColor s cs = getSkyColor s' cs"
proof -
  from assms(1) consider "b = 0" | "b = 5" | "b = 6" | "b = 7" | "b = 9" | "b = 16"
    | "b = 18" | "b = 19" | "b = 21"
    by (auto simp: skyBreakpoints_def)
  then show ?thesis
  proof cases
    case 1 with assms(2,3) show ?thesis by (simp add: sky_near_0)
  next
    case 2 with assms(2,3) show ?thesis by (simp add: sky_near_5)
  next
    case 3 with assms(2,3) show ?thesis by (simp add: sky_near_6)
  next
    case 4 with assms(2,3) show ?thesis by (simp add: sky_near_7)
  next
    case 5 with assms(2,3) show ?thesis by (simp add: sky_near_9)
  next
    case 6 with assms(2,3) show ?thesis by (simp add: sky_near_16)
  next
    case 7 with assms(2,3) show ?thesis by (simp add: sky_near_18)
  next
    case 8 with assms(2,3) show ?thesis by (simp add: sky_near_19)
  next
    case 9 with assms(2,3) show ?thesis by (simp add: sky_near_21)
  qed
qed

lemma sky_locally_constant:
  assumes "b \<in> set skyBreakpoints"
  shows "\<exists>\<delta>>0. \<forall>s. \<bar>s - b\<bar> < \<delta> \<longrightarrow> getSkyColor s cs = getSkyColor b cs"
proof (intro exI conjI allI impI)
  from skySpan_parts(7) [of cs] show "0 < 1 / (2 * skySpan cs)" by simp
next
  fix s
  assume "\<bar>s - b\<bar> < 1 / (2 * skySpan cs)"
  with skySpan_parts(7) [of cs] have "\<bar>s - b\<bar> * skySpan cs < 1 / 2"
    by (simp add: field_simps)
  then show "getSkyColor s cs = getSkyColor b cs"
    using assms by (intro sky_near [of b]) simp_all
qed

text \<open>
  Claim C9. The ambient light factor lies in \<open>[0.1, 1]\<close> at every time, is \<open>1\<close> at midday,
  and is a continuous function of the time (it changes by at most a quarter of the change
  of the time), so at every breakpoint the segment ending there and the segment starting
  there meet. The sky colour, whose channels are rounded to integers, is constant on a
  neighbourhood of each breakpoint of its definition: the colour just below the
  breakpoint is the colour at the breakpoint.
\<close>

theorem light_and_sky_continuous:
  "(\<forall>t. 1 / 10 \<le> getAmbientLightFactor t \<and> getAmbientLightFactor t \<le> 1) \<and>
   getAmbientLightFactor 12 = 1 \<and>
   (\<forall>s t. \<bar>getAmbientLightFactor s - getAmbientLightFactor t\<bar> \<le> \<bar>s - t\<bar> / 4) \<and>
   (\<forall>t. isCont getAmbientLightFactor t) \<and>
   (\<forall>b\<in>set skyBreakpoints.
      \<exists>\<delta>>0. \<forall>s. \<bar>s - b\<bar> < \<delta> \<longrightarrow> getSkyColor s colors = getSkyColor b colors)"
  using light_range light_midday light_lipschitz light_isCont sky_locally_constant
  by blast

theorem light_and_sky_continuous_witness:
  "9 \<in> set skyBreakpoints \<and>
   getSkyColor 9 skyColors = (135, 206, 235) \<and>
   (\<exists>\<delta>>0. getSkyColor (9 - \<delta> / 2) skyColors = (135, 206, 235)) \<and>
   getAmbientLightFactor 12 = 1"
proof -
  have m: "9 \<in> set skyBreakpoints" by (simp add: skyBreakpoints_def)
  have v: "getSkyColor 9 skyColors = (135, 206, 235)"
    by (simp add: getSkyColor_def skyColors_def)
  from light_and_sky_continuous [of skyColors] m
  obtain \<delta> where d: "0 < \<delta>"
    and c: "\<And>s. \<bar>s - 9\<bar> < \<delta> \<Longrightarrow> getSkyColor s skyColors = getSkyColor 9 skyColors"
    by blast
  from d have "\<bar>(9 - \<delta> / 2) - 9\<bar> < \<delta>" by simp
  from c [OF this] v d have "\<exists>\<delta>>0. getSkyColor (9 - \<delta> / 2) skyColors = (135, 206, 235)"
    by auto
  with m v light_and_sky_continuous [of skyColors] show ?thesis by blast
qed

section \<open>A physics tick of the placed tractor\<close>

lemma resolveCell_generateWorld_sky:
  assumes "fst c < groundStartRow"
  shows "resolveCell generateWorld WORLD_WIDTH_TILES e c = e"
proof (cases "0 \<le> fst c \<and> fst c < WORLD_HEIGHT_TILES \<and> 0 \<le> snd c \<and> snd c < WORLD_WIDTH_TILES")
  case False
  then show ?thesis
    by (auto simp: resolveCell_def solidAt_def length_generateWorld WORLD_HEIGHT_TILES_def)
next
  case True
  then have "getTile generateWorld (fst c) (snd c) = Inr (generateTile (fst c))"
    by (intro getTile_generateWorld) simp_all
  from getTile_InrD [OF this]
  have "generateWorld ! nat (fst c) ! nat (snd c) = generateTile (fst c)"
    by simp
  with assms have "tile.type (generateWorld ! nat (fst c) ! nat (snd c)) = SKY"
    by (simp add: generateTile_def)
  then show ?thesis
    by (simp add: resolveCell_def solidAt_def)
qed

lemma cells_rows: "c \<in> set (cells topTile bottomTile leftTile rightTile) \<Longrightarrow> fst c \<le> bottomTile"
  by (auto simp: cells_def)

lemma foldl_resolveCell_sky:
  "(\<forall>c\<in>set cs. fst c < groundStartRow) \<Longrightarrow>
     foldl (resolveCell generateWorld WORLD_WIDTH_TILES) e cs = e"
  by (induction cs arbitrary: e) (simp_all add: resolveCell_generateWorld_sky)

lemma moved_placed_tractor:
  "moved placed_tractor = placed_tractor\<lparr>y := 390.5, vy := 0.5\<rparr>"
  by (simp add: moved_def placed_tractor_def initial_tractor_def GRAVITY_def
        WORLD_WIDTH_PIXELS_def WORLD_WIDTH_TILES_def TILE_SIZE_def groundStartRow_eq)

lemma placed_tractor_tick:
  "updateEntityPosition placed_tractor generateWorld WORLD_WIDTH_TILES =
     Inr (placed_tractor\<lparr>y := 390.5, vy := 0.5\<rparr>)"
proof -
  have h: "height placed_tractor = 50"
    by (simp add: placed_tractor_def initial_tractor_def TILE_SIZE_def)
  have b: "\<lfloor>(y (placed_tractor\<lparr>y := 390.5, vy := 0.5\<rparr>) + height placed_tractor - 1) / TILE_SIZE\<rfloor> = 21"
    by (simp add: h TILE_SIZE_def)
  have "\<forall>c\<in>set (cells \<lfloor>y (placed_tractor\<lparr>y := 390.5, vy := 0.5\<rparr>) / TILE_SIZE\<rfloor> 21
            \<lfloor>x (placed_tractor\<lparr>y := 390.5, vy := 0.5\<rparr>) / TILE_SIZE\<rfloor>
            \<lfloor>(x (placed_tractor\<lparr>y := 390.5, vy := 0.5\<rparr>) + width placed_tractor - 1) / TILE_SIZE\<rfloor>).
          fst c < groundStartRow"
    using cells_rows by (fastforce simp: groundStartRow_eq)
  then show ?thesis
    unfolding updateEntityPosition_cells [OF generateWorld_rows] moved_placed_tractor b
    by (simp only: foldl_resolveCell_sky)
qed

theorem updateEntityPosition_frame_witness:
  "updateEntityPosition placed_tractor generateWorld WORLD_WIDTH_TILES =
     Inr (placed_tractor\<lparr>y := 390.5, vy := 0.5\<rparr>) \<and>
   width (placed_tractor\<lparr>y := 390.5, vy := 0.5\<rparr>) = width placed_tractor \<and>
   height (placed_tractor\<lparr>y := 390.5, vy := 0.5\<rparr>) = height placed_tractor \<and>
   entity.more (placed_tractor\<lparr>y := 390.5, vy := 0.5\<rparr>) = entity.more placed_tractor"
  using updateEntityPosition_frame [OF placed_tractor_tick] placed_tractor_tick by simp

end
